(* ===== verification/Prelude.thy ===== *)
theory Prelude
  imports Main "HOL-Library.Word" "HOL-Library.Char_ord" "HOL-Library.List_Lexorder"
    "HOL-Library.Sublist"
begin

text \<open>
  Shared vocabulary of the development: the machine integer types, Rust strings as UTF-8 byte
  strings with the \<^verbatim>\<open>std::str\<close> operations the program calls, decimal printing, big-endian
  integer encoding, and byte streams that can be read from and written to.

  A Rust \<^verbatim>\<open>String\<close> is a sequence of UTF-8 bytes. Isabelle's \<^typ>\<open>char\<close> has exactly 256
  values, so a \<^typ>\<open>string\<close> here is that byte sequence: \<open>length\<close> is \<^verbatim>\<open>str::len\<close>, and an
  ASCII literal is itself. Everything that the standard library decides through the Unicode
  character database for non-ASCII text is the field \<open>pf_lower\<close> of the record \<open>platform\<close>; the
  other fields of that record stand for third-party crates.
\<close>

unbundle bit_operations_syntax

subsection \<open>Collections of rules\<close>

named_theorems inv_intros \<open>preservation of the components' invariants\<close>
named_theorems str_simps \<open>facts on the string operations\<close>
named_theorems io_simps \<open>facts on byte streams\<close>

subsection \<open>Machine integers\<close>

type_synonym u8 = "8 word"
type_synonym u16 = "16 word"
type_synonym u32 = "32 word"
type_synonym u64 = "64 word"
type_synonym i64 = "64 word"
type_synonym bytes = "8 word list"

text \<open>\<^verbatim>\<open>i64::abs\<close> in a build without overflow checks: \<^verbatim>\<open>i64::MIN.abs()\<close> is \<^verbatim>\<open>i64::MIN\<close>.\<close>

definition i64_abs :: "i64 \<Rightarrow> i64" where
  "i64_abs x = (if sint x < 0 then - x else x)"

subsection \<open>Code outside the repository\<close>

text \<open>
  \<open>pf_hmac key msg\<close> is the HMAC-SHA256 tag of the \<^verbatim>\<open>hmac\<close>/\<^verbatim>\<open>sha2\<close> crates, \<open>pf_sha256\<close> the
  digest, \<open>pf_seal\<close>/\<open>pf_open\<close> AES-256-GCM of the \<^verbatim>\<open>aes_gcm\<close> crate (key, nonce, data),
  \<open>pf_gzip_write\<close>, \<open>pf_gzip_finish\<close> and \<open>pf_gunzip\<close> the \<^verbatim>\<open>flate2\<close> crate, \<open>pf_lower\<close> Unicode lower-casing of a string that
  is not pure ASCII.
\<close>

record platform =
  pf_hmac :: "bytes \<Rightarrow> bytes \<Rightarrow> bytes"
  pf_sha256 :: "bytes \<Rightarrow> bytes"
  pf_seal :: "bytes \<Rightarrow> bytes \<Rightarrow> bytes \<Rightarrow> string + bytes"
  pf_open :: "bytes \<Rightarrow> bytes \<Rightarrow> bytes \<Rightarrow> string + bytes"
  pf_gzip_write :: "bytes \<Rightarrow> string + bytes"
  pf_gzip_finish :: "bytes \<Rightarrow> string + bytes"
  pf_gunzip :: "bytes \<Rightarrow> string + bytes"
  pf_lower :: "string \<Rightarrow> string"

subsection \<open>Strings\<close>

definition as_byte :: "char \<Rightarrow> u8" where
  "as_byte c = word_of_nat (of_char c)"

definition of_byte :: "u8 \<Rightarrow> char" where
  "of_byte b = char_of (unat b)"

definition as_bytes :: "string \<Rightarrow> bytes" where
  "as_bytes s = map as_byte s"

definition of_bytes :: "bytes \<Rightarrow> string" where
  "of_bytes bs = map of_byte bs"

text \<open>
  The UTF-8 encodings of the code points with the Unicode property \<open>White_Space\<close>, which
  \<^verbatim>\<open>str::trim\<close> removes. In valid UTF-8 one of these byte sequences stands at the start (or the
  end) of a string exactly when the first (last) character is that code point.
\<close>

definition ws_seqs :: "string list" where
  "ws_seqs =
     [[CHR 0x20], [CHR 0x09], [CHR 0x0A], [CHR 0x0B], [CHR 0x0C], [CHR 0x0D],
      [CHR 0xC2, CHR 0x85], [CHR 0xC2, CHR 0xA0], [CHR 0xE1, CHR 0x9A, CHR 0x80],
      [CHR 0xE2, CHR 0x80, CHR 0x80], [CHR 0xE2, CHR 0x80, CHR 0x81],
      [CHR 0xE2, CHR 0x80, CHR 0x82], [CHR 0xE2, CHR 0x80, CHR 0x83],
      [CHR 0xE2, CHR 0x80, CHR 0x84], [CHR 0xE2, CHR 0x80, CHR 0x85],
      [CHR 0xE2, CHR 0x80, CHR 0x86], [CHR 0xE2, CHR 0x80, CHR 0x87],
      [CHR 0xE2, CHR 0x80, CHR 0x88], [CHR 0xE2, CHR 0x80, CHR 0x89],
      [CHR 0xE2, CHR 0x80, CHR 0x8A], [CHR 0xE2, CHR 0x80, CHR 0xA8],
      [CHR 0xE2, CHR 0x80, CHR 0xA9], [CHR 0xE2, CHR 0x80, CHR 0xAF],
      [CHR 0xE2, CHR 0x81, CHR 0x9F], [CHR 0xE3, CHR 0x80, CHR 0x80]]"

function trim_by :: "string list \<Rightarrow> string \<Rightarrow> string" where
  "trim_by ws s =
     (case find (\<lambda>w. w \<noteq> [] \<and> prefix w s) ws of
        None \<Rightarrow> s
      | Some w \<Rightarrow> trim_by ws (drop (length w) s))"
  by pat_completeness auto
termination
  by (relation "measure (\<lambda>(ws, s). length s)")
    (auto simp: find_Some_iff prefix_def)

declare trim_by.simps [simp del]

definition trim_start :: "string \<Rightarrow> string" where
  "trim_start s = trim_by ws_seqs s"

definition trim_end :: "string \<Rightarrow> string" where
  "trim_end s = rev (trim_by (map rev ws_seqs) (rev s))"

definition trim :: "string \<Rightarrow> string" where
  "trim s = trim_end (trim_start s)"

definition trim_end_matches :: "char \<Rightarrow> string \<Rightarrow> string" where
  "trim_end_matches c s = rev (dropWhile (\<lambda>x. x = c) (rev s))"

definition is_ascii :: "string \<Rightarrow> bool" where
  "is_ascii s = list_all (\<lambda>c. (of_char c :: nat) < 128) s"

definition ascii_lower :: "char \<Rightarrow> char" where
  "ascii_lower c =
     (let n = (of_char c :: nat) in if 65 \<le> n \<and> n \<le> 90 then char_of (n + 32) else c)"

definition to_lowercase :: "platform \<Rightarrow> string \<Rightarrow> string" where
  "to_lowercase pf s = (if is_ascii s then map ascii_lower s else pf_lower pf s)"

definition eq_ignore_ascii_case :: "string \<Rightarrow> string \<Rightarrow> bool" where
  "eq_ignore_ascii_case a b \<longleftrightarrow> map ascii_lower a = map ascii_lower b"

fun split_once :: "char \<Rightarrow> string \<Rightarrow> (string \<times> string) option" where
  "split_once c [] = None"
| "split_once c (x # xs) =
     (if x = c then Some ([], xs) else map_option (\<lambda>(a, b). (x # a, b)) (split_once c xs))"

definition rsplit_once :: "char \<Rightarrow> string \<Rightarrow> (string \<times> string) option" where
  "rsplit_once c s = map_option (\<lambda>(a, b). (rev b, rev a)) (split_once c (rev s))"

definition strip_prefix :: "string \<Rightarrow> string \<Rightarrow> string option" where
  "strip_prefix p s = (if prefix p s then Some (drop (length p) s) else None)"

definition starts_with :: "string \<Rightarrow> string \<Rightarrow> bool" where
  "starts_with s p \<longleftrightarrow> prefix p s"

definition ends_with :: "string \<Rightarrow> string \<Rightarrow> bool" where
  "ends_with s p \<longleftrightarrow> suffix p s"

text \<open>Decimal printing, as \<^verbatim>\<open>format!("{}", n)\<close> and \<^verbatim>\<open>i64::to_string\<close> do it.\<close>

definition digit_char :: "nat \<Rightarrow> char" where
  "digit_char d = char_of (48 + d)"

fun show_nat :: "nat \<Rightarrow> string" where
  "show_nat n = (if n < 10 then [digit_char n] else show_nat (n div 10) @ [digit_char (n mod 10)])"

declare show_nat.simps [simp del]

definition show_int :: "int \<Rightarrow> string" where
  "show_int i = (if i < 0 then CHR ''-'' # show_nat (nat (- i)) else show_nat (nat i))"

text \<open>\<^verbatim>\<open>std::str::from_utf8\<close>: the well-formed UTF-8 byte sequences of the Unicode standard.\<close>

definition utf8_cont :: "u8 \<Rightarrow> bool" where
  "utf8_cont b \<longleftrightarrow> 0x80 \<le> b \<and> b \<le> 0xBF"

fun utf8_valid :: "bytes \<Rightarrow> bool" where
  "utf8_valid [] = True"
| "utf8_valid (a # as) =
     (if a < 0x80 then utf8_valid as
      else if 0xC2 \<le> a \<and> a \<le> 0xDF then
        (case as of b # bs \<Rightarrow> utf8_cont b \<and> utf8_valid bs | _ \<Rightarrow> False)
      else if 0xE0 \<le> a \<and> a \<le> 0xEF then
        (case as of
           b # c # cs \<Rightarrow>
             (if a = 0xE0 then 0xA0 \<le> b \<and> b \<le> 0xBF
              else if a = 0xED then 0x80 \<le> b \<and> b \<le> 0x9F
              else utf8_cont b) \<and> utf8_cont c \<and> utf8_valid cs
         | _ \<Rightarrow> False)
      else if 0xF0 \<le> a \<and> a \<le> 0xF4 then
        (case as of
           b # c # d # ds \<Rightarrow>
             (if a = 0xF0 then 0x90 \<le> b \<and> b \<le> 0xBF
              else if a = 0xF4 then 0x80 \<le> b \<and> b \<le> 0x8F
              else utf8_cont b) \<and> utf8_cont c \<and> utf8_cont d \<and> utf8_valid ds
         | _ \<Rightarrow> False)
      else False)"

definition from_utf8 :: "bytes \<Rightarrow> string option" where
  "from_utf8 bs = (if utf8_valid bs then Some (of_bytes bs) else None)"

subsection \<open>Lemmas on bytes and strings\<close>

lemma of_byte_as_byte [simp]: "of_byte (as_byte c) = c"
proof -
  have "(of_char c :: nat) < 256" by simp
  then show ?thesis by (simp add: of_byte_def as_byte_def unat_of_nat)
qed

lemma as_byte_of_byte [simp]: "as_byte (of_byte b) = b"
proof -
  have "unat b < 2 ^ LENGTH(8)" by (rule unsigned_less)
  then have "unat b mod 256 = unat b" by simp
  then show ?thesis by (simp add: of_byte_def as_byte_def)
qed

lemma of_bytes_as_bytes [simp]: "of_bytes (as_bytes s) = s"
  by (simp add: of_bytes_def as_bytes_def o_def)

lemma as_bytes_of_bytes [simp]: "as_bytes (of_bytes bs) = bs"
  by (simp add: of_bytes_def as_bytes_def o_def)

lemma length_as_bytes [simp]: "length (as_bytes s) = length s"
  by (simp add: as_bytes_def)

lemma as_bytes_inj [simp]: "as_bytes s = as_bytes t \<longleftrightarrow> s = t"
  by (metis of_bytes_as_bytes)

lemma from_utf8_as_bytes [str_simps]:
  "utf8_valid (as_bytes s) \<Longrightarrow> from_utf8 (as_bytes s) = Some s"
  by (simp add: from_utf8_def)

lemma trim_by_Nil [simp]: "trim_by ws [] = []"
  by (subst trim_by.simps) (auto split: option.splits simp: find_Some_iff)

lemma suffix_trim_by: "suffix (trim_by ws s) s"
proof (induction ws s rule: trim_by.induct)
  case (1 ws s)
  show ?case
  proof (cases "find (\<lambda>w. w \<noteq> [] \<and> prefix w s) ws")
    case None
    then show ?thesis by (simp add: trim_by.simps [of ws s])
  next
    case (Some w)
    with "1.IH" [OF Some] show ?thesis
      by (simp add: trim_by.simps [of ws s]) (meson suffix_drop suffix_order.trans)
  qed
qed

lemma trim_by_no_head:
  "w \<in> set ws \<Longrightarrow> w \<noteq> [] \<Longrightarrow> \<not> prefix w (trim_by ws s)"
proof (induction ws s rule: trim_by.induct)
  case (1 ws s)
  show ?case
  proof (cases "find (\<lambda>w. w \<noteq> [] \<and> prefix w s) ws")
    case None
    then have "\<not> (w \<noteq> [] \<and> prefix w s)" using "1.prems"(1) by (simp only: find_None_iff) blast
    with None "1.prems"(2) show ?thesis by (simp add: trim_by.simps [of ws s])
  next
    case (Some v)
    with "1.IH" [OF Some] "1.prems" show ?thesis by (simp add: trim_by.simps [of ws s])
  qed
qed

lemma trim_by_id:
  "(\<And>w. w \<in> set ws \<Longrightarrow> w \<noteq> [] \<Longrightarrow> \<not> prefix w s) \<Longrightarrow> trim_by ws s = s"
  by (subst trim_by.simps) (auto split: option.splits simp: find_Some_iff)

lemma trim_start_trim_end:
  assumes "trim_start s = s"
  shows "trim_start (trim_end s) = trim_end s"
  unfolding trim_start_def
proof (rule trim_by_id)
  fix w assume w: "w \<in> set ws_seqs" "w \<noteq> []"
  have "suffix (trim_by (map rev ws_seqs) (rev s)) (rev s)" by (rule suffix_trim_by)
  then have p: "prefix (trim_end s) s" by (simp add: trim_end_def suffix_to_prefix)
  have "\<not> prefix w (trim_by ws_seqs s)" using w by (rule trim_by_no_head)
  with assms have "\<not> prefix w s" by (simp add: trim_start_def)
  with p show "\<not> prefix w (trim_end s)" by (meson prefix_order.trans)
qed

lemma trim_start_idem [simp]: "trim_start (trim_start s) = trim_start s"
  unfolding trim_start_def by (rule trim_by_id) (rule trim_by_no_head)

lemma trim_end_idem [simp]: "trim_end (trim_end s) = trim_end s"
proof -
  have "trim_by (map rev ws_seqs) (trim_by (map rev ws_seqs) (rev s))
      = trim_by (map rev ws_seqs) (rev s)"
    by (rule trim_by_id) (rule trim_by_no_head)
  then show ?thesis by (simp add: trim_end_def)
qed

lemma trim_idem [simp]: "trim (trim s) = trim s"
  by (simp add: trim_def trim_start_trim_end)

lemma trim_Nil [simp]: "trim [] = []"
  by (simp add: trim_def trim_start_def trim_end_def)

text \<open>A text that neither starts nor ends with a byte of a white-space character stays as it is.\<close>

definition visible :: "char \<Rightarrow> bool" where
  "visible c \<longleftrightarrow> list_all (\<lambda>w. c \<notin> set w) ws_seqs"

lemma trim_by_visible:
  assumes "\<And>w c. w \<in> set ws \<Longrightarrow> c \<in> set w \<Longrightarrow> \<not> visible c" "visible c"
  shows "trim_by ws (c # s) = c # s"
proof (rule trim_by_id)
  fix w assume "w \<in> set ws" "w \<noteq> []"
  with assms(1) [of w "hd w"] assms(2) show "\<not> prefix w (c # s)" by (cases w) auto
qed

lemma ws_not_visible: "w \<in> set ws_seqs \<Longrightarrow> c \<in> set w \<Longrightarrow> \<not> visible c"
  by (auto simp: visible_def list_all_iff)

lemma trim_visible: "s \<noteq> [] \<Longrightarrow> visible (hd s) \<Longrightarrow> visible (last s) \<Longrightarrow> trim s = s"
proof -
  assume *: "s \<noteq> []" "visible (hd s)" "visible (last s)"
  then have "trim_by ws_seqs s = s"
    using trim_by_visible [where ws = ws_seqs and c = "hd s" and s = "tl s"] ws_not_visible by simp
  moreover have "trim_by (map rev ws_seqs) (rev s) = rev s"
  proof -
    have r: "rev s = last s # rev (butlast s)" using *(1)
      by (metis append_butlast_last_id rev.simps(2) rev_rev_ident rev_swap)
    have "w \<in> set (map rev ws_seqs) \<Longrightarrow> c \<in> set w \<Longrightarrow> \<not> visible c" for w c
      using ws_not_visible by auto
    then show ?thesis unfolding r using *(3) by (rule trim_by_visible)
  qed
  ultimately show ?thesis by (simp add: trim_def trim_start_def trim_end_def)
qed

lemma split_once_Some:
  "split_once c s = Some (a, b) \<longleftrightarrow> s = a @ c # b \<and> c \<notin> set a"
proof (induction s arbitrary: a)
  case (Cons x xs)
  note IH = Cons.IH
  show ?case
  proof (cases a)
    case Nil
    then show ?thesis by auto
  next
    case (Cons y ys)
    have "split_once c (x # xs) = Some (y # ys, b) \<longleftrightarrow>
        x = y \<and> x \<noteq> c \<and> split_once c xs = Some (ys, b)"
      by (cases "split_once c xs") auto
    with Cons show ?thesis by (auto simp: IH)
  qed
qed simp

lemma split_once_None: "split_once c s = None \<longleftrightarrow> c \<notin> set s"
  by (induction s) auto

lemma split_once_append [str_simps]:
  "c \<notin> set a \<Longrightarrow> split_once c (a @ c # b) = Some (a, b)"
  by (simp add: split_once_Some)

lemma rsplit_once_Some:
  "rsplit_once c s = Some (a, b) \<longleftrightarrow> s = a @ c # b \<and> c \<notin> set b"
proof
  assume "rsplit_once c s = Some (a, b)"
  then have "split_once c (rev s) = Some (rev b, rev a)"
    by (auto simp: rsplit_once_def)
  then have "rev s = rev b @ c # rev a" and "c \<notin> set (rev b)"
    by (simp_all add: split_once_Some)
  then show "s = a @ c # b \<and> c \<notin> set b"
    by (metis append_Cons append_Nil append_assoc rev.simps(2) rev_append rev_rev_ident set_rev)
next
  assume "s = a @ c # b \<and> c \<notin> set b"
  then have "split_once c (rev s) = Some (rev b, rev a)"
    by (simp add: split_once_Some)
  then show "rsplit_once c s = Some (a, b)"
    by (simp add: rsplit_once_def)
qed

lemma rsplit_once_None: "rsplit_once c s = None \<longleftrightarrow> c \<notin> set s"
  by (simp add: rsplit_once_def split_once_None)

lemma ascii_lower_idem [simp]: "ascii_lower (ascii_lower c) = ascii_lower c"
  by (auto simp: ascii_lower_def Let_def)

lemma digit_char_not [simp]:
  "d < 10 \<Longrightarrow> (of_char (digit_char d) :: nat) = 48 + d"
  by (simp add: digit_char_def)

lemma show_nat_chars: "c \<in> set (show_nat n) \<Longrightarrow> 48 \<le> (of_char c :: nat) \<and> (of_char c :: nat) < 58"
proof (induction n rule: show_nat.induct)
  case (1 n)
  show ?case
  proof (cases "n < 10")
    case True
    with "1.prems" show ?thesis by (simp add: show_nat.simps [of n])
  next
    case False
    with "1.prems" have "c \<in> set (show_nat (n div 10)) \<or> c = digit_char (n mod 10)"
      by (auto simp: show_nat.simps [of n])
    with "1.IH" [OF False] show ?thesis by auto
  qed
qed

lemma show_nat_no_colon [simp]: "CHR '':'' \<notin> set (show_nat n)"
  using show_nat_chars [of "CHR '':''" n] by auto

subsection \<open>Big-endian integers\<close>

fun to_be :: "nat \<Rightarrow> nat \<Rightarrow> bytes" where
  "to_be 0 n = []"
| "to_be (Suc k) n = word_of_nat (n div 256 ^ k) # to_be k n"

fun of_be :: "bytes \<Rightarrow> nat" where
  "of_be [] = 0"
| "of_be (b # bs) = unat b * 256 ^ length bs + of_be bs"

lemma length_to_be [simp]: "length (to_be k n) = k"
  by (induction k) auto

lemma of_be_less: "of_be bs < 256 ^ length bs"
proof (induction bs)
  case (Cons b bs)
  have "unat b < 256" using unsigned_less [of b, where ?'a = nat] by simp
  then have "unat b + 1 \<le> 256" by simp
  then have "(unat b + 1) * 256 ^ length bs \<le> 256 * 256 ^ length bs"
    by (rule mult_le_mono1)
  then have "unat b * 256 ^ length bs + 256 ^ length bs \<le> 256 ^ length (b # bs)"
    by (simp only: add_mult_distrib length_Cons power_Suc mult_1)
  with Cons.IH show ?case by (simp only: of_be.simps)
qed simp

lemma of_be_to_be [simp]: "of_be (to_be k n) = n mod 256 ^ k"
proof (induction k)
  case (Suc k)
  have "n mod (256 ^ k * 256) = 256 ^ k * (n div 256 ^ k mod 256) + n mod 256 ^ k"
    by (rule mod_mult2_eq)
  with Suc.IH show ?case by (simp add: unat_of_nat mult.commute)
qed simp

text \<open>For evaluation at a literal width.\<close>

lemma to_be_numeral:
  "to_be (numeral k) n = word_of_nat (n div 256 ^ pred_numeral k) # to_be (pred_numeral k) n"
  by (simp add: numeral_eq_Suc)

text \<open>\<^verbatim>\<open>uN::to_be_bytes\<close> and the lengths the frames carry.\<close>

lemma of_be_to_be_u64 [simp]: "n < 2 ^ 64 \<Longrightarrow> of_be (to_be 8 n) = n"
  by simp

lemma of_be_to_be_u32 [simp]: "of_be (to_be 4 (unat (w :: u32))) = unat w"
  using unsigned_less [of w, where ?'a = nat] by simp

lemma of_be_to_be_u16 [simp]: "of_be (to_be 2 (unat (w :: u16))) = unat w"
  using unsigned_less [of w, where ?'a = nat] by simp

subsection \<open>Rotation\<close>

text \<open>Counting round a list: every full turn meets every element once.\<close>

lemma count_list_distinct: "distinct xs \<Longrightarrow> x \<in> set xs \<Longrightarrow> count_list xs x = 1"
  by (induction xs) (auto simp: count_list_0_iff)

lemma rotate_conv_map: "map (\<lambda>i. xs ! ((c + i) mod length xs)) [0..<length xs] = rotate c xs"
  by (rule nth_equalityI) (simp_all add: nth_rotate)

lemma count_periods:
  assumes "distinct xs" "x \<in> set xs"
  shows "count_list (map (\<lambda>i. xs ! ((c + i) mod length xs)) [0..<n * length xs]) x = n"
proof (induction n)
  case (Suc n)
  have "[0..<Suc n * length xs] = [0..<n * length xs] @ map (\<lambda>i. i + n * length xs) [0..<length xs]"
    using upt_add_eq_append [of 0 "n * length xs" "length xs"] by (simp add: map_add_upt add.commute)
  then have "map (\<lambda>i. xs ! ((c + i) mod length xs)) [0..<Suc n * length xs]
      = map (\<lambda>i. xs ! ((c + i) mod length xs)) [0..<n * length xs] @ rotate c xs"
    by (simp add: rotate_conv_map [symmetric] add.assoc [symmetric])
  with Suc assms show ?case by (simp add: count_list_append count_list_distinct)
qed simp

section \<open>Injective partial maps\<close>

text \<open>A map from holders to the things they hold, no thing having two holders.\<close>

definition inj_map :: "('a \<rightharpoonup> 'b) \<Rightarrow> bool" where
  "inj_map m \<longleftrightarrow> inj_on m (dom m)"

lemma inj_map_empty [simp]: "inj_map Map.empty"
  by (simp add: inj_map_def)

lemma inj_mapD: "inj_map m \<Longrightarrow> m a = Some x \<Longrightarrow> m b = Some x \<Longrightarrow> a = b"
  by (auto simp: inj_map_def inj_on_def dom_def)

lemma inj_mapI: "(\<And>a b x. m a = Some x \<Longrightarrow> m b = Some x \<Longrightarrow> a = b) \<Longrightarrow> inj_map m"
  by (auto simp: inj_map_def inj_on_def dom_def)

lemma inj_map_acquire: "inj_map m \<Longrightarrow> q \<notin> ran m \<Longrightarrow> inj_map (m(h \<mapsto> q))"
  by (auto intro!: inj_mapI simp: ran_def dest: inj_mapD split: if_splits)

lemma ran_acquire: "m h = None \<Longrightarrow> ran (m(h \<mapsto> q)) = insert q (ran m)"
  by (rule ran_map_upd)

lemma inj_map_release: "inj_map m \<Longrightarrow> inj_map (m(h := None))"
  by (auto intro!: inj_mapI dest: inj_mapD split: if_splits)

lemma ran_release:
  assumes "inj_map m"
  shows "ran (m(h := None)) = ran m - (case m h of None \<Rightarrow> {} | Some q \<Rightarrow> {q})"
proof (cases "m h")
  case None
  then have "m(h := None) = m" by (auto simp: fun_eq_iff)
  with None show ?thesis by simp
next
  case (Some q)
  with assms show ?thesis by (auto simp: ran_def dest: inj_mapD)
qed

end
