(* ===== verification/Errors.thy ===== *)
theory Errors
  imports Prelude
begin

text \<open>
  \<^verbatim>\<open>arp-common/src/error.rs\<close>: the error enumeration shared by server and client, its
  \<^verbatim>\<open>Display\<close> text and the classification that drives reconnection; and the byte streams on which
  the program reads and writes, whose failures are \<^verbatim>\<open>std::io::Error\<close> values.
\<close>

subsection \<open>Errors\<close>

datatype io_kind = UnexpectedEof | WouldBlock | Interrupted | OtherKind

record io_error =
  io_kind :: io_kind
  io_os :: "int option"
  io_msg :: string

datatype error =
    Io io_error
  | Protocol string
  | Auth string
  | Config string
  | Transport string
  | Codec string
  | Proxy string
  | Timeout string
  | InvalidMessage string
  | Json string
  | Toml string
  | ChannelSend
  | ChannelRecv
  | ConnectionClosed
  | Other string

type_synonym 'a result = "error + 'a"

fun is_retriable :: "error \<Rightarrow> bool" where
  "is_retriable (Io _) = True"
| "is_retriable (Transport _) = True"
| "is_retriable (Timeout _) = True"
| "is_retriable ConnectionClosed = True"
| "is_retriable ChannelSend = True"
| "is_retriable ChannelRecv = True"
| "is_retriable (Auth _) = False"
| "is_retriable (Config _) = False"
| "is_retriable (Proxy _) = False"
| "is_retriable (Protocol _) = False"
| "is_retriable (Codec _) = False"
| "is_retriable (InvalidMessage _) = False"
| "is_retriable (Json _) = False"
| "is_retriable (Toml _) = False"
| "is_retriable (Other _) = False"

fun error_to_string :: "error \<Rightarrow> string" where
  "error_to_string (Io e) = ''IO error: '' @ io_msg e"
| "error_to_string (Protocol m) = ''Protocol error: '' @ m"
| "error_to_string (Auth m) = ''Authentication failed: '' @ m"
| "error_to_string (Config m) = ''Configuration error: '' @ m"
| "error_to_string (Transport m) = ''Transport error: '' @ m"
| "error_to_string (Codec m) = ''Codec error: '' @ m"
| "error_to_string (Proxy m) = ''Proxy error: '' @ m"
| "error_to_string (Timeout m) = ''Timeout: '' @ m"
| "error_to_string (InvalidMessage m) = ''Invalid message type: '' @ m"
| "error_to_string (Json m) = ''JSON error: '' @ m"
| "error_to_string (Toml m) = ''TOML error: '' @ m"
| "error_to_string ChannelSend = ''Channel send error''"
| "error_to_string ChannelRecv = ''Channel receive error''"
| "error_to_string ConnectionClosed = ''Connection closed''"
| "error_to_string (Other m) = ''Other error: '' @ m"

lemma error_to_string_nonempty [simp]: "error_to_string e \<noteq> []"
  by (cases e) simp_all

text \<open>A chain of guards and \<^verbatim>\<open>?\<close> operators succeeds when every link does.\<close>

lemma guard_Inr: "(if c then Inl e else r) = Inr v \<longleftrightarrow> \<not> c \<and> r = Inr v"
  by simp

lemma question_mark_Inr:
  "(case x of Inl e \<Rightarrow> Inl e | Inr _ \<Rightarrow> r) = Inr v \<longleftrightarrow> x = Inr () \<and> r = Inr v"
  by (cases x) auto

lemma guarded_Inr: "(if c then r else Inr ()) = Inr () \<longleftrightarrow> (c \<longrightarrow> r = Inr ())"
  by simp

lemmas result_Inr = guard_Inr question_mark_Inr guarded_Inr

subsection \<open>Reading\<close>

text \<open>
  What a reader will ever deliver: the bytes, then end of file (\<open>rs_end = None\<close>) or an I/O error.
\<close>

record rstream =
  rs_data :: bytes
  rs_end :: "io_error option"

definition eof_error :: io_error where
  "eof_error = \<lparr>io_kind = UnexpectedEof, io_os = None, io_msg = ''early eof''\<rparr>"

definition read_exact :: "nat \<Rightarrow> rstream \<Rightarrow> io_error + bytes \<times> rstream" where
  "read_exact n r =
     (if n \<le> length (rs_data r)
      then Inr (take n (rs_data r), r\<lparr>rs_data := drop n (rs_data r)\<rparr>)
      else Inl (case rs_end r of None \<Rightarrow> eof_error | Some e \<Rightarrow> e))"

text \<open>\<^verbatim>\<open>read_uN().await.map_err(Error::Io)?\<close>: a big-endian integer of \<open>n\<close> bytes.\<close>

definition read_be :: "nat \<Rightarrow> rstream \<Rightarrow> (nat \<times> rstream) result" where
  "read_be n r = (case read_exact n r of Inl e \<Rightarrow> Inl (Io e) | Inr (bs, r') \<Rightarrow> Inr (of_be bs, r'))"

definition read_bytes :: "nat \<Rightarrow> rstream \<Rightarrow> (bytes \<times> rstream) result" where
  "read_bytes n r = (case read_exact n r of Inl e \<Rightarrow> Inl (Io e) | Inr x \<Rightarrow> Inr x)"

lemma read_exact_append [io_simps]:
  "length bs = n \<Longrightarrow>
   read_exact n (r\<lparr>rs_data := bs @ d\<rparr>) = Inr (bs, r\<lparr>rs_data := d\<rparr>)"
  by (simp add: read_exact_def)

lemma read_be_append [io_simps]:
  "length bs = n \<Longrightarrow>
   read_be n (r\<lparr>rs_data := bs @ d\<rparr>) = Inr (of_be bs, r\<lparr>rs_data := d\<rparr>)"
  by (simp add: read_be_def read_exact_append)

lemma read_be_Cons [io_simps]:
  "read_be (Suc 0) (r\<lparr>rs_data := b # d\<rparr>) = Inr (unat b, r\<lparr>rs_data := d\<rparr>)"
  using read_be_append [where bs = "[b]" and n = "Suc 0" and r = r and d = d] by simp

lemma read_bytes_append [io_simps]:
  "length bs = n \<Longrightarrow>
   read_bytes n (r\<lparr>rs_data := bs @ d\<rparr>) = Inr (bs, r\<lparr>rs_data := d\<rparr>)"
  by (simp add: read_bytes_def read_exact_append)

lemma read_exact_Inr:
  "read_exact n r = Inr (bs, r') \<Longrightarrow>
   length bs = n \<and> rs_data r = bs @ rs_data r' \<and> r' = r\<lparr>rs_data := rs_data r'\<rparr>"
  by (auto simp: read_exact_def split: if_splits)

lemma read_be_Inr:
  "read_be n r = Inr (v, r') \<Longrightarrow> length (rs_data r) = n + length (rs_data r')"
  by (auto simp: read_be_def split: sum.splits dest!: read_exact_Inr)

lemma read_bytes_Inr:
  "read_bytes n r = Inr (bs, r') \<Longrightarrow>
   length bs = n \<and> length (rs_data r) = n + length (rs_data r')"
  by (auto simp: read_bytes_def split: sum.splits dest!: read_exact_Inr)

lemma read_be_empty [io_simps]:
  "0 < n \<Longrightarrow> rs_data r = [] \<Longrightarrow> rs_end r = None \<Longrightarrow> read_be n r = Inl (Io eof_error)"
  by (simp add: read_be_def read_exact_def)

subsection \<open>Writing\<close>

text \<open>
  A writer remembers what it has put on the wire. With \<open>sk_room = Some n\<close> the connection breaks
  with \<open>sk_err\<close> after \<open>n\<close> more bytes; \<open>sk_flush\<close> is the error a flush reports.
\<close>

record sink =
  sk_data :: bytes
  sk_room :: "nat option"
  sk_err :: io_error
  sk_flush :: "io_error option"

definition write_all :: "bytes \<Rightarrow> sink \<Rightarrow> unit result \<times> sink" where
  "write_all bs w =
     (case sk_room w of
        None \<Rightarrow> (Inr (), w\<lparr>sk_data := sk_data w @ bs\<rparr>)
      | Some n \<Rightarrow>
          if length bs \<le> n
          then (Inr (), w\<lparr>sk_data := sk_data w @ bs, sk_room := Some (n - length bs)\<rparr>)
          else (Inl (Io (sk_err w)), w\<lparr>sk_data := sk_data w @ take n bs, sk_room := Some 0\<rparr>))"

fun write_seq :: "bytes list \<Rightarrow> sink \<Rightarrow> unit result \<times> sink" where
  "write_seq [] w = (Inr (), w)"
| "write_seq (bs # rest) w =
     (case write_all bs w of
        (Inl e, w') \<Rightarrow> (Inl e, w')
      | (Inr _, w') \<Rightarrow> write_seq rest w')"

definition write_flush :: "bytes list \<Rightarrow> sink \<Rightarrow> unit result \<times> sink" where
  "write_flush segs w =
     (case write_seq segs w of
        (Inl e, w') \<Rightarrow> (Inl e, w')
      | (Inr _, w') \<Rightarrow> (case sk_flush w' of None \<Rightarrow> (Inr (), w') | Some e \<Rightarrow> (Inl (Io e), w')))"

definition sink_ok :: "sink \<Rightarrow> bool" where
  "sink_ok w \<longleftrightarrow> sk_room w = None \<and> sk_flush w = None"

lemma sink_ok_data [simp]: "sink_ok (w\<lparr>sk_data := d\<rparr>) = sink_ok w"
  by (simp add: sink_ok_def)

lemma write_seq_ok:
  "sk_room w = None \<Longrightarrow> write_seq segs w = (Inr (), w\<lparr>sk_data := sk_data w @ concat segs\<rparr>)"
  by (induction segs arbitrary: w) (simp_all add: write_all_def)

lemma write_flush_ok [io_simps]:
  "sink_ok w \<Longrightarrow> write_flush segs w = (Inr (), w\<lparr>sk_data := sk_data w @ concat segs\<rparr>)"
  by (simp add: write_flush_def write_seq_ok sink_ok_def)

text \<open>Whatever fails, the peer sees a prefix of what was to be written, in order.\<close>

lemma write_seq_prefix:
  "\<exists>p. prefix p (concat segs) \<and> sk_data (snd (write_seq segs w)) = sk_data w @ p \<and>
       (fst (write_seq segs w) = Inr () \<longrightarrow> p = concat segs)"
proof (induction segs arbitrary: w)
  case (Cons bs rest)
  show ?case
  proof (cases "write_all bs w")
    case (Pair r w')
    show ?thesis
    proof (cases r)
      case (Inl e)
      with Pair have "sk_data w' = sk_data w @ take (the (sk_room w)) bs"
        by (auto simp: write_all_def split: option.splits if_splits)
      with Pair Inl show ?thesis
        by (auto intro!: exI [of _ "take (the (sk_room w)) bs"] prefix_prefix take_is_prefix)
    next
      case (Inr u)
      with Pair have d: "sk_data w' = sk_data w @ bs"
        by (auto simp: write_all_def split: option.splits if_splits)
      obtain p where "prefix p (concat rest)" "sk_data (snd (write_seq rest w')) = sk_data w' @ p"
        "fst (write_seq rest w') = Inr () \<longrightarrow> p = concat rest"
        using Cons.IH [of w'] by blast
      with Pair Inr d show ?thesis by (auto intro!: exI [of _ "bs @ p"])
    qed
  qed
qed simp

lemma write_flush_prefix:
  "\<exists>p. prefix p (concat segs) \<and> sk_data (snd (write_flush segs w)) = sk_data w @ p \<and>
       (fst (write_flush segs w) = Inr () \<longrightarrow> p = concat segs)"
  using write_seq_prefix [of segs w]
  by (auto simp: write_flush_def split: prod.splits sum.splits option.splits)

end
