(* ===== verification/Messages.thy ===== *)
theory Messages
  imports Errors
begin

text \<open>
  \<^verbatim>\<open>arp-common/src/protocol/message.rs\<close>: the messages of the control protocol with their
  fields, and the type byte that precedes every message on the wire. A
  \<^verbatim>\<open>serde_json::Value\<close> is the datatype \<open>json\<close>; a number is kept as its text.
\<close>

datatype json =
    JNull
  | JBool bool
  | JNumber string
  | JString string
  | JArray "json list"
  | JObject "(string \<times> json) list"

fun as_object :: "json \<Rightarrow> (string \<times> json) list option" where
  "as_object (JObject kvs) = Some kvs"
| "as_object _ = None"

fun as_str :: "json \<Rightarrow> string option" where
  "as_str (JString s) = Some s"
| "as_str _ = None"

record login_msg =
  lg_version :: string
  lg_hostname :: string
  lg_os :: string
  lg_arch :: string
  lg_user :: string
  lg_client_id :: string
  lg_timestamp :: i64
  lg_privilege_key :: string
  lg_run_id :: string
  lg_pool_count :: u32

record login_resp_msg =
  lr_version :: string
  lr_run_id :: string
  lr_error :: string

record new_proxy_msg =
  np_proxy_name :: string
  np_proxy_type :: string
  np_use_encryption :: bool
  np_use_compression :: bool
  np_local_ip :: string
  np_local_port :: u16
  np_remote_port :: u16
  np_custom_domains :: "string list"
  np_subdomain :: string
  np_locations :: "string list"
  np_host_header_rewrite :: string
  np_sk :: string
  np_multiplexer :: string
  np_fallback_to_relay :: bool
  np_extra :: json

record new_proxy_resp_msg =
  nr_proxy_name :: string
  nr_remote_addr :: string
  nr_error :: string

record close_proxy_msg =
  cp_proxy_name :: string

record req_work_conn_msg =
  rq_proxy_name :: string

record new_work_conn_msg =
  nw_run_id :: string
  nw_privilege_key :: string

record start_work_conn_msg =
  sw_proxy_name :: string
  sw_src_addr :: string
  sw_dst_addr :: string
  sw_error :: string

record ping_msg =
  pi_timestamp :: i64

record pong_msg =
  po_timestamp :: i64

record udp_packet_msg =
  up_content :: bytes
  up_local_addr :: string
  up_remote_addr :: string

record nat_hole_visitor_msg =
  nv_proxy_name :: string
  nv_signed_msg :: string

record nat_hole_client_msg =
  nc_proxy_name :: string
  nc_visitor_addr :: string

record nat_hole_resp_msg =
  nh_visitor_addr :: string
  nh_client_addr :: string
  nh_relay_addr :: string
  nh_error :: string

record stcp_visitor_conn_msg =
  sv_proxy_name :: string
  sv_sk_signature :: string
  sv_timestamp :: i64

datatype message =
    Login login_msg
  | LoginResp login_resp_msg
  | NewProxy new_proxy_msg
  | NewProxyResp new_proxy_resp_msg
  | CloseProxy close_proxy_msg
  | ReqWorkConn req_work_conn_msg
  | NewWorkConn new_work_conn_msg
  | StartWorkConn start_work_conn_msg
  | Ping ping_msg
  | Pong pong_msg
  | UdpPacket udp_packet_msg
  | NatHoleVisitor nat_hole_visitor_msg
  | NatHoleClient nat_hole_client_msg
  | NatHoleResp nat_hole_resp_msg
  | StcpVisitorConn stcp_visitor_conn_msg

fun type_byte :: "message \<Rightarrow> u8" where
  "type_byte (Login _) = as_byte CHR ''o''"
| "type_byte (LoginResp _) = as_byte CHR ''1''"
| "type_byte (NewProxy _) = as_byte CHR ''p''"
| "type_byte (NewProxyResp _) = as_byte CHR ''2''"
| "type_byte (CloseProxy _) = as_byte CHR ''c''"
| "type_byte (ReqWorkConn _) = as_byte CHR ''r''"
| "type_byte (NewWorkConn _) = as_byte CHR ''w''"
| "type_byte (StartWorkConn _) = as_byte CHR ''s''"
| "type_byte (Ping _) = as_byte CHR ''h''"
| "type_byte (Pong _) = as_byte CHR ''4''"
| "type_byte (UdpPacket _) = as_byte CHR ''u''"
| "type_byte (NatHoleVisitor _) = as_byte CHR ''i''"
| "type_byte (NatHoleClient _) = as_byte CHR ''n''"
| "type_byte (NatHoleResp _) = as_byte CHR ''m''"
| "type_byte (StcpVisitorConn _) = as_byte CHR ''v''"

definition type_names :: "(char \<times> string) list" where
  "type_names =
     [(CHR ''o'', ''Login''), (CHR ''1'', ''LoginResp''), (CHR ''p'', ''NewProxy''),
      (CHR ''2'', ''NewProxyResp''), (CHR ''c'', ''CloseProxy''), (CHR ''r'', ''ReqWorkConn''),
      (CHR ''w'', ''NewWorkConn''), (CHR ''s'', ''StartWorkConn''), (CHR ''h'', ''Ping''),
      (CHR ''4'', ''Pong''), (CHR ''u'', ''UdpPacket''), (CHR ''i'', ''NatHoleVisitor''),
      (CHR ''n'', ''NatHoleClient''), (CHR ''m'', ''NatHoleResp''),
      (CHR ''v'', ''StcpVisitorConn'')]"

definition from_type_byte :: "u8 \<Rightarrow> string option" where
  "from_type_byte b = map_of type_names (of_byte b)"

text \<open>The enum tag \<^verbatim>\<open>#[serde(tag = "type")]\<close> writes into the JSON text.\<close>

fun variant_name :: "message \<Rightarrow> string" where
  "variant_name (Login _) = ''Login''"
| "variant_name (LoginResp _) = ''LoginResp''"
| "variant_name (NewProxy _) = ''NewProxy''"
| "variant_name (NewProxyResp _) = ''NewProxyResp''"
| "variant_name (CloseProxy _) = ''CloseProxy''"
| "variant_name (ReqWorkConn _) = ''ReqWorkConn''"
| "variant_name (NewWorkConn _) = ''NewWorkConn''"
| "variant_name (StartWorkConn _) = ''StartWorkConn''"
| "variant_name (Ping _) = ''Ping''"
| "variant_name (Pong _) = ''Pong''"
| "variant_name (UdpPacket _) = ''UdpPacket''"
| "variant_name (NatHoleVisitor _) = ''NatHoleVisitor''"
| "variant_name (NatHoleClient _) = ''NatHoleClient''"
| "variant_name (NatHoleResp _) = ''NatHoleResp''"
| "variant_name (StcpVisitorConn _) = ''StcpVisitorConn''"

lemma from_type_byte_type_byte: "from_type_byte (type_byte m) = Some (variant_name m)"
  by (cases m) (simp_all add: from_type_byte_def type_names_def)

text \<open>One message of every kind.\<close>

definition kinds :: "message list" where
  "kinds = [Login undefined, LoginResp undefined, NewProxy undefined, NewProxyResp undefined,
     CloseProxy undefined, ReqWorkConn undefined, NewWorkConn undefined, StartWorkConn undefined,
     Ping undefined, Pong undefined, UdpPacket undefined, NatHoleVisitor undefined,
     NatHoleClient undefined, NatHoleResp undefined, StcpVisitorConn undefined]"

lemma type_names_kinds: "type_names = map (\<lambda>m. (of_byte (type_byte m), variant_name m)) kinds"
  by (simp add: type_names_def kinds_def)

lemma from_type_byte_Some:
  assumes "from_type_byte b = Some n"
  shows "\<exists>m. type_byte m = b \<and> variant_name m = n"
proof -
  from assms have "(of_byte b, n) \<in> set type_names"
    by (simp add: from_type_byte_def map_of_SomeD)
  then obtain m where "of_byte b = of_byte (type_byte m)" "n = variant_name m"
    unfolding type_names_kinds set_map by (rule imageE) simp
  then show ?thesis by (metis as_byte_of_byte)
qed

text \<open>
  The type byte and its name are consistent. A byte names a message kind exactly when it is the
  type byte of a message of that kind, so the bytes of the fifteen kinds are pairwise different.
\<close>

theorem type_byte_names:
  "from_type_byte b = Some n \<longleftrightarrow> (\<exists>m. type_byte m = b \<and> variant_name m = n)"
  using from_type_byte_type_byte from_type_byte_Some by auto

end
