(* ===== verification/MessageCodec.thy ===== *)
theory MessageCodec
  imports Messages
begin

text \<open>
  \<^verbatim>\<open>arp-common/src/protocol/codec.rs\<close>: a message on the wire is its type byte, the length of its
  JSON text as a big-endian \<^verbatim>\<open>u64\<close> and the text. The JSON writer and parser of \<^verbatim>\<open>serde_json\<close> are
  the fields of the record \<open>serde\<close>. \<open>drain\<close> and \<open>feed\<close> call the decoder the way the contract of
  \<^verbatim>\<open>tokio_util::codec::Decoder\<close> prescribes: after every chunk, until it asks for more bytes. The
  error wrapping of \<^verbatim>\<open>MessageTransport\<close> (\<^verbatim>\<open>arp-common/src/transport/mod.rs\<close>) closes the theory.
\<close>

record serde =
  sd_ser :: "message \<Rightarrow> string + bytes"
  sd_de :: "bytes \<Rightarrow> string + message"

definition max_message_size :: nat where
  "max_message_size = 8 * 1024 * 1024"

fun show_name :: "string option \<Rightarrow> string" where
  "show_name None = ''None''"
| "show_name (Some n) = ''Some('' @ [CHR 0x22] @ n @ [CHR 0x22] @ '')''"

definition encode :: "serde \<Rightarrow> message \<Rightarrow> bytes \<Rightarrow> unit result \<times> bytes" where
  "encode sd msg dst =
     (case sd_ser sd msg of
        Inl e \<Rightarrow> (Inl (Codec (''Failed to serialize message: '' @ e)), dst)
      | Inr json \<Rightarrow>
          if length json > max_message_size then
            (Inl (Codec (''Message too large: '' @ show_nat (length json) @ '' > ''
                    @ show_nat max_message_size)), dst)
          else (Inr (), dst @ [type_byte msg] @ to_be 8 (length json) @ json))"

definition decode :: "serde \<Rightarrow> bytes \<Rightarrow> message option result \<times> bytes" where
  "decode sd src =
     (if length src < 9 then (Inr None, src)
      else
        let len = of_be (take 8 (drop 1 src)) in
        if len > max_message_size then
          (Inl (Protocol (''message length '' @ show_nat len @ '' exceeds max ''
                  @ show_nat max_message_size)), src)
        else if length src < 9 + len then (Inr None, src)
        else
          let type_byte = hd src;
              json_bytes = take len (drop 9 src);
              src = drop (9 + len) src
          in (case sd_de sd json_bytes of
                Inl e \<Rightarrow>
                  (Inl (Codec (''Failed to deserialize message (type: ''
                          @ show_name (from_type_byte type_byte) @ ''): '' @ e)), src)
              | Inr msg \<Rightarrow> (Inr (Some msg), src)))"

text \<open>Messages the decoder yields from a buffer, what it leaves there and the error it stops at.\<close>

lemma decode_shorter:
  "decode sd src = (Inr (Some m), src') \<Longrightarrow> length src' < length src"
  by (auto simp: decode_def Let_def split: if_splits sum.splits)

function drain :: "serde \<Rightarrow> bytes \<Rightarrow> message list \<times> bytes \<times> error option" where
  "drain sd src =
     (case decode sd src of
        (Inl e, src') \<Rightarrow> ([], src', Some e)
      | (Inr None, src') \<Rightarrow> ([], src', None)
      | (Inr (Some m), src') \<Rightarrow> (let (ms, rest, e) = drain sd src' in (m # ms, rest, e)))"
  by pat_completeness auto
termination
  by (relation "measure (\<lambda>(_, src). length src)") (auto dest!: decode_shorter [OF sym])

declare drain.simps [simp del]

fun feed :: "serde \<Rightarrow> bytes \<Rightarrow> bytes list \<Rightarrow> message list \<times> bytes \<times> error option" where
  "feed sd buf [] = ([], buf, None)"
| "feed sd buf (chunk # chunks) =
     (case drain sd (buf @ chunk) of
        (ms, rest, Some e) \<Rightarrow> (ms, rest @ concat chunks, Some e)
      | (ms, rest, None) \<Rightarrow> (let (ms', rest', e) = feed sd rest chunks in (ms @ ms', rest', e)))"

definition wire :: "serde \<Rightarrow> message \<Rightarrow> bytes" where
  "wire sd msg = snd (encode sd msg [])"

text \<open>
  \<^verbatim>\<open>MessageTransport::send\<close> and \<^verbatim>\<open>recv\<close> over the \<^verbatim>\<open>Framed\<close> of \<^verbatim>\<open>tokio_util\<close>, which is a
  parameter: the outcome of its \<^verbatim>\<open>send\<close> and of its \<^verbatim>\<open>next\<close>.
\<close>

definition transport_send :: "(message \<Rightarrow> 'fr \<Rightarrow> unit result \<times> 'fr) \<Rightarrow> message \<Rightarrow> 'fr \<Rightarrow> unit result \<times> 'fr"
  where
  "transport_send framed_send msg fr =
     (case framed_send msg fr of
        (Inl e, fr') \<Rightarrow> (Inl (Transport (''Failed to send message: '' @ error_to_string e)), fr')
      | (Inr _, fr') \<Rightarrow> (Inr (), fr'))"

definition transport_recv :: "('fr \<Rightarrow> message result option \<times> 'fr) \<Rightarrow> 'fr \<Rightarrow> message option result \<times> 'fr"
  where
  "transport_recv framed_next fr =
     (case framed_next fr of
        (Some (Inr msg), fr') \<Rightarrow> (Inr (Some msg), fr')
      | (Some (Inl e), fr') \<Rightarrow> (Inl e, fr')
      | (None, fr') \<Rightarrow> (Inr None, fr'))"

subsection \<open>Round trip\<close>

lemma encode_ok:
  assumes "sd_ser sd m = Inr json" "length json \<le> max_message_size"
  shows "encode sd m dst = (Inr (), dst @ [type_byte m] @ to_be 8 (length json) @ json)"
  using assms by (simp add: encode_def)

lemma encode_Inr:
  assumes "encode sd m dst = (Inr (), buf)"
  obtains json where "sd_ser sd m = Inr json" "length json \<le> max_message_size"
    "buf = dst @ [type_byte m] @ to_be 8 (length json) @ json"
    "wire sd m = [type_byte m] @ to_be 8 (length json) @ json"
  using assms by (auto simp: encode_def wire_def split: sum.splits if_splits)

lemma len_be: "n \<le> max_message_size \<Longrightarrow> of_be (to_be 8 n) = n"
  by (simp add: max_message_size_def)

lemma decode_header:
  assumes "length j = n" "n \<le> max_message_size"
  shows "decode sd ((b # to_be 8 n @ j) @ rest) =
     (case sd_de sd j of
        Inl e \<Rightarrow> (Inl (Codec (''Failed to deserialize message (type: ''
                     @ show_name (from_type_byte b) @ ''): '' @ e)), rest)
      | Inr msg \<Rightarrow> (Inr (Some msg), rest))"
proof -
  let ?s = "(b # to_be 8 n @ j) @ rest"
  have "take 8 (drop 1 ?s) = to_be 8 n" by simp
  then have l: "of_be (take 8 (drop 1 ?s)) = n" using assms(2) by (simp only: len_be)
  have "drop 9 ?s = j @ rest" "drop (9 + n) ?s = rest" "hd ?s = b"
    using assms(1) by (simp_all add: drop_Cons')
  then show ?thesis
    using assms unfolding decode_def Let_def l by (cases "sd_de sd j") simp_all
qed

text \<open>The bytes of a message, cut anywhere before their end, do not decode to anything yet.\<close>

lemma decode_partial:
  assumes "length j = n" "n \<le> max_message_size" "strict_prefix p (b # to_be 8 n @ j)"
  shows "decode sd p = (Inr None, p)"
proof (cases "length p < 9")
  case False
  obtain q where q: "p @ q = b # to_be 8 n @ j" "q \<noteq> []"
    using assms(3) by (auto elim!: strict_prefixE prefixE)
  have "take 8 (drop 1 p) = take 8 (drop 1 (p @ q))" using False by simp
  also have "\<dots> = to_be 8 n" by (simp only: q(1)) simp
  finally have "of_be (take 8 (drop 1 p)) = n" using assms(2) by (simp only: len_be)
  moreover have "length p < 9 + n"
    using arg_cong [OF q(1), of length] q(2) assms(1) by (cases q) simp_all
  ultimately show ?thesis using False assms(2) by (simp add: decode_def)
qed (simp add: decode_def)

subsection \<open>Chunks\<close>

lemma take_drop_append: "m + n \<le> length xs \<Longrightarrow> take n (drop m (xs @ ys)) = take n (drop m xs)"
  by simp

lemma decode_append_Some:
  assumes "decode sd src = (r, src')" "r \<noteq> Inr None"
  shows "decode sd (src @ x) = (r, src' @ x)"
proof -
  from assms have l: "\<not> length src < 9" by (auto simp: decode_def)
  then have h: "take 8 (drop 1 (src @ x)) = take 8 (drop 1 src)" "hd (src @ x) = hd src"
    by (auto simp: hd_append)
  let ?n = "of_be (take 8 (drop 1 src))"
  show ?thesis
  proof (cases "?n > max_message_size \<or> length src < 9 + ?n")
    case True
    with assms l h show ?thesis by (auto simp: decode_def Let_def split: if_splits)
  next
    case False
    then have "take ?n (drop 9 (src @ x)) = take ?n (drop 9 src)"
      and "drop (9 + ?n) (src @ x) = drop (9 + ?n) src @ x" by simp_all
    with assms l h False show ?thesis
      by (auto simp only: decode_def Let_def if_False split: sum.splits) auto
  qed
qed

lemma decode_None: "decode sd src = (Inr None, src') \<Longrightarrow> src' = src"
  by (auto simp: decode_def Let_def split: if_splits sum.splits)

lemma drain_append:
  "drain sd (b @ x) =
     (case drain sd b of
        (ms, rest, Some e) \<Rightarrow> (ms, rest @ x, Some e)
      | (ms, rest, None) \<Rightarrow> (let (ms', rest', e) = drain sd (rest @ x) in (ms @ ms', rest', e)))"
proof (induction sd b rule: drain.induct)
  case (1 sd src)
  obtain r src' where d: "decode sd src = (r, src')" by (cases "decode sd src")
  show ?case
  proof (cases "r = Inr None")
    case True
    then have "drain sd src = ([], src, None)"
      using d decode_None by (auto simp: drain.simps [of sd src])
    then show ?thesis by (simp split: prod.splits)
  next
    case False
    note app = decode_append_Some [OF d False, of x]
    show ?thesis
    proof (cases "\<exists>m. r = Inr (Some m)")
      case True
      then obtain m where m: "r = Inr (Some m)" by blast
      obtain ms rest e where s: "drain sd src' = (ms, rest, e)" by (cases "drain sd src'")
      with "1.IH" [OF d [symmetric] m refl] m d app show ?thesis
        by (simp add: drain.simps [of sd src] drain.simps [of sd "src @ x"]
            split: prod.splits option.splits)
    next
      case err: False
      with False obtain e where "r = Inl e" by (metis option.exhaust sum.exhaust)
      with d app show ?thesis
        by (simp add: drain.simps [of sd src] drain.simps [of sd "src @ x"])
    qed
  qed
qed

lemma drain_rest_stuck:
  "drain sd b = (ms, rest, None) \<Longrightarrow> decode sd rest = (Inr None, rest)"
  by (induction sd b arbitrary: ms rule: drain.induct)
    (subst (asm) (2) drain.simps,
     auto dest: decode_None split: prod.splits sum.splits option.splits)

lemma drain_None: "decode sd b = (Inr None, b) \<Longrightarrow> drain sd b = ([], b, None)"
  by (simp add: drain.simps [of sd b])

lemma feed_drain:
  "decode sd buf = (Inr None, buf) \<Longrightarrow> feed sd buf chunks = drain sd (buf @ concat chunks)"
proof (induction chunks arbitrary: buf)
  case (Cons c cs)
  obtain ms rest e where d: "drain sd (buf @ c) = (ms, rest, e)"
    by (cases "drain sd (buf @ c)")
  show ?case
  proof (cases e)
    case None
    with d have "feed sd rest cs = drain sd (rest @ concat cs)"
      using Cons.IH drain_rest_stuck by blast
    with d None show ?thesis
      by (simp add: drain_append [of sd "buf @ c", simplified])
  next
    case (Some e')
    with d show ?thesis by (simp add: drain_append [of sd "buf @ c", simplified])
  qed
qed (simp add: drain_None)

lemma drain_wire:
  assumes "sd_ser sd m = Inr j" "length j \<le> max_message_size" "sd_de sd j = Inr m"
  shows "drain sd (wire sd m @ x) = (let (ms, rest, e) = drain sd x in (m # ms, rest, e))"
proof -
  have "wire sd m = type_byte m # to_be 8 (length j) @ j"
    using assms by (simp add: wire_def encode_ok)
  then have "decode sd (wire sd m @ x) = (Inr (Some m), x)"
    using decode_header [OF refl assms(2), of sd "type_byte m" x] assms(3) by simp
  then show ?thesis by (simp add: drain.simps [of sd "wire sd m @ x"])
qed

definition sendable :: "serde \<Rightarrow> message \<Rightarrow> bool" where
  "sendable sd m \<longleftrightarrow>
     (case sd_ser sd m of Inl _ \<Rightarrow> False | Inr j \<Rightarrow> length j \<le> max_message_size \<and> sd_de sd j = Inr m)"

lemma drain_wires:
  "list_all (sendable sd) ms \<Longrightarrow> drain sd (concat (map (wire sd) ms)) = (ms, [], None)"
proof (induction ms)
  case Nil
  show ?case by (simp add: drain_None decode_def)
next
  case (Cons m ms)
  then show ?case by (auto simp: sendable_def drain_wire split: sum.splits)
qed

subsection \<open>Claims\<close>

text \<open>
  C18: Round trip and self-delimitation of one message. Whenever the encoder accepts a message whose
  JSON text parses back to it, it appends one frame to the output buffer. The decoder, given that
  frame and anything after it, yields exactly that message and leaves exactly what followed; given
  any proper prefix of the frame it yields nothing, reports no error and leaves the buffer alone.
\<close>

theorem encode_decode:
  assumes "encode sd m dst = (Inr (), buf)"
    and "\<And>j. sd_ser sd m = Inr j \<Longrightarrow> sd_de sd j = Inr m"
  shows "\<exists>fr. buf = dst @ fr \<and> (\<forall>rest. decode sd (fr @ rest) = (Inr (Some m), rest)) \<and>
    (\<forall>p. strict_prefix p fr \<longrightarrow> decode sd p = (Inr None, p))"
proof -
  obtain j where j: "sd_ser sd m = Inr j" "length j \<le> max_message_size"
    "buf = dst @ [type_byte m] @ to_be 8 (length j) @ j"
    using assms(1) by (rule encode_Inr)
  let ?fr = "type_byte m # to_be 8 (length j) @ j"
  have "decode sd (?fr @ rest) = (Inr (Some m), rest)" for rest
    using decode_header [OF refl j(2), of sd "type_byte m" rest] assms(2) [OF j(1)] by simp
  with decode_partial [OF refl j(2)] j(3) show ?thesis
    by (intro exI [of _ ?fr]) auto
qed

definition ping7_serde :: serde where
  "ping7_serde = \<lparr>sd_ser = \<lambda>_. Inr [7], sd_de = \<lambda>_. Inr (Ping \<lparr>pi_timestamp = 7\<rparr>)\<rparr>"

theorem encode_decode_witness:
  "\<exists>fr. snd (encode ping7_serde (Ping \<lparr>pi_timestamp = 7\<rparr>) [1]) = [1] @ fr \<and>
    (\<forall>rest. decode ping7_serde (fr @ rest) = (Inr (Some (Ping \<lparr>pi_timestamp = 7\<rparr>)), rest)) \<and>
    (\<forall>p. strict_prefix p fr \<longrightarrow> decode ping7_serde p = (Inr None, p))"
  by (rule encode_decode) (simp_all add: ping7_serde_def encode_def max_message_size_def)

text \<open>
  The byte stream carries the message sequence whatever the segmentation. If the chunks that
  arrive are together the bytes of the messages \<open>ms\<close>, each within the size limit and with a JSON
  text that parses back, then the decoder yields \<open>ms\<close>, in order, with nothing left over.
\<close>

theorem feed_chunks:
  assumes "list_all (sendable sd) ms" "concat chunks = concat (map (wire sd) ms)"
  shows "feed sd [] chunks = (ms, [], None)"
  using assms by (simp add: feed_drain drain_wires decode_def)

theorem feed_chunks_witness:
  "feed ping7_serde [] [[104, 0, 0], [], [0, 0, 0, 0, 0], [1, 7, 104], [0, 0, 0, 0, 0, 0, 0, 1, 7]]
    = ([Ping \<lparr>pi_timestamp = 7\<rparr>, Ping \<lparr>pi_timestamp = 7\<rparr>], [], None)"
  by (rule feed_chunks)
    (simp_all add: ping7_serde_def sendable_def max_message_size_def wire_def encode_def as_byte_def
      to_be_numeral)

text \<open>
  C19: Segmentation never matters, for arbitrary bytes: with malformed input too, the messages, the
  error and the unread bytes are those of the unsegmented stream.
\<close>

theorem feed_segmentation:
  "concat chunks = concat chunks' \<Longrightarrow> feed sd [] chunks = feed sd [] chunks'"
  by (simp add: feed_drain decode_def)

theorem feed_segmentation_witness:
  "feed ping7_serde [] [[104, 0], [9, 9], [9]] = feed ping7_serde [] [[104], [0, 9, 9, 9]]"
  by (rule feed_segmentation) simp

text \<open>
  The size limit is enforced on both sides. No encoded frame is longer than the header and eight
  MiB; a header that announces more makes the decoder fail at once, without waiting for the body
  and without touching the buffer; and a decoder that asks for more bytes never holds a complete
  frame, so it never waits for more than that many bytes.
\<close>

theorem decode_size_limit:
  "(fst (encode sd m dst) = Inr () \<longrightarrow>
      length (snd (encode sd m dst)) \<le> length dst + 9 + max_message_size) \<and>
   (9 \<le> length src \<longrightarrow> max_message_size < of_be (take 8 (drop 1 src)) \<longrightarrow>
      (\<exists>e. decode sd src = (Inl e, src))) \<and>
   (fst (decode sd src) = Inr None \<longrightarrow>
      length src < 9 + max_message_size \<and> snd (decode sd src) = src)"
proof (intro conjI impI)
  assume "fst (encode sd m dst) = Inr ()"
  then show "length (snd (encode sd m dst)) \<le> length dst + 9 + max_message_size"
    by (auto simp: encode_def split: sum.splits if_splits)
qed (auto simp: decode_def Let_def split: if_splits sum.splits)

theorem decode_size_limit_witness:
  "\<exists>e. decode ping7_serde [104, 1, 0, 0, 0, 0, 0, 0, 0] = (Inl e, [104, 1, 0, 0, 0, 0, 0, 0, 0])"
  using decode_size_limit [of ping7_serde "Ping \<lparr>pi_timestamp = 7\<rparr>" "[]"
      "[104, 1, 0, 0, 0, 0, 0, 0, 0]"]
  by (simp add: max_message_size_def)

end
