(* ===== verification/Frames.thy ===== *)
theory Frames
  imports Errors
begin

text \<open>
  The three binary frame formats of \<^verbatim>\<open>arp-common/src/transport\<close>: the TCP multiplexer
  (\<^verbatim>\<open>mux.rs\<close>), the UDP tunnel (\<^verbatim>\<open>udp_mux.rs\<close>) and the length-prefixed frames of the encrypted relay
  (\<^verbatim>\<open>relay.rs\<close>). The locale \<open>frame_protocol\<close> is the contract a reader/writer pair of frames has to
  meet; what follows from it (order-preserving transport of any frame sequence, unambiguous
  parsing, termination of the reader loop) is proved once and holds for all three formats.
\<close>

subsection \<open>The contract of a frame format\<close>

text \<open>
  The writer task sends the queued frames one after the other and stops at the first error; the
  reader task parses frames until the first error. \<open>read_loop\<close> counts the rounds of the reader.
\<close>

fun write_loop :: "('f \<Rightarrow> sink \<Rightarrow> unit result \<times> sink) \<Rightarrow> 'f list \<Rightarrow> sink \<Rightarrow> unit result \<times> sink" where
  "write_loop wr [] w = (Inr (), w)"
| "write_loop wr (f # fs) w =
     (case wr f w of (Inl e, w') \<Rightarrow> (Inl e, w') | (Inr _, w') \<Rightarrow> write_loop wr fs w')"

fun read_loop ::
  "(rstream \<Rightarrow> ('f \<times> rstream) result) \<Rightarrow> nat \<Rightarrow> rstream \<Rightarrow> 'f list \<times> error option" where
  "read_loop rd 0 r = ([], None)"
| "read_loop rd (Suc n) r =
     (case rd r of
        Inl e \<Rightarrow> ([], Some e)
      | Inr (f, r') \<Rightarrow> (let (fs, e) = read_loop rd n r' in (f # fs, e)))"

locale frame_protocol =
  fixes wr :: "'f \<Rightarrow> sink \<Rightarrow> unit result \<times> sink"
    and rd :: "rstream \<Rightarrow> ('f \<times> rstream) result"
    and enc :: "'f \<Rightarrow> bytes"
    and wf :: "'f \<Rightarrow> bool"
  assumes wr_enc: "wf f \<Longrightarrow> sink_ok w \<Longrightarrow> wr f w = (Inr (), w\<lparr>sk_data := sk_data w @ enc f\<rparr>)"
    and rd_enc: "wf f \<Longrightarrow> rd (r\<lparr>rs_data := enc f @ d\<rparr>) = Inr (f, r\<lparr>rs_data := d\<rparr>)"
    and rd_consumes: "rd r = Inr (f, r') \<Longrightarrow> length (rs_data r') < length (rs_data r)"
begin

lemma enc_nonempty: "wf f \<Longrightarrow> enc f \<noteq> []"
  using rd_enc [where f = f and r = "\<lparr>rs_data = [], rs_end = None\<rparr>" and d = "[]"] rd_consumes
  by fastforce

lemma prefix_free:
  assumes "wf f" "wf g" "enc f @ x = enc g @ y"
  shows "f = g \<and> x = y"
proof -
  let ?r = "\<lparr>rs_data = [], rs_end = None\<rparr>"
  have "rd (?r\<lparr>rs_data := enc f @ x\<rparr>) = Inr (f, ?r\<lparr>rs_data := x\<rparr>)"
    and "rd (?r\<lparr>rs_data := enc g @ y\<rparr>) = Inr (g, ?r\<lparr>rs_data := y\<rparr>)"
    using assms(1,2) by (simp_all only: rd_enc)
  with assms(3) show ?thesis by simp
qed

lemma write_loop_enc:
  assumes "list_all wf fs" "sink_ok w"
  shows "write_loop wr fs w = (Inr (), w\<lparr>sk_data := sk_data w @ concat (map enc fs)\<rparr>)"
  using assms by (induction fs arbitrary: w) (simp_all add: wr_enc)

lemma read_loop_enc:
  assumes "list_all wf fs"
  shows "read_loop rd (length fs + n) (r\<lparr>rs_data := concat (map enc fs) @ d\<rparr>)
    = (let (gs, e) = read_loop rd n (r\<lparr>rs_data := d\<rparr>) in (fs @ gs, e))"
  using assms by (induction fs) (simp_all add: rd_enc split: prod.splits)

text \<open>A reader that has one round per byte and one more always gets to the end of the stream.\<close>

lemma read_loop_ends:
  "length (rs_data r) < n \<Longrightarrow> \<exists>e. snd (read_loop rd n r) = Some e"
proof (induction n arbitrary: r)
  case (Suc n)
  show ?case
  proof (cases "rd r")
    case (Inr p)
    then obtain f r' where p: "rd r = Inr (f, r')" by (cases p) auto
    with rd_consumes [OF p] Suc.prems have "length (rs_data r') < n" by simp
    then obtain e where "snd (read_loop rd n r') = Some e" using Suc.IH by blast
    with p show ?thesis by (cases "read_loop rd n r'") simp
  qed simp
qed simp

text \<open>What one task writes is what the other task reads, frame by frame and in order.\<close>

lemma write_then_read:
  assumes "list_all wf fs" "sink_ok w" "sk_data w = []"
    and "rd \<lparr>rs_data = [], rs_end = end\<rparr> = Inl e"
  shows "read_loop rd (Suc (length fs))
      \<lparr>rs_data = sk_data (snd (write_loop wr fs w)), rs_end = end\<rparr> = (fs, Some e)"
proof -
  let ?r = "\<lparr>rs_data = [], rs_end = end\<rparr>"
  have "\<lparr>rs_data = sk_data (snd (write_loop wr fs w)), rs_end = end\<rparr>
      = ?r\<lparr>rs_data := concat (map enc fs) @ []\<rparr>"
    using assms(1-3) by (simp add: write_loop_enc)
  moreover have "read_loop rd (length fs + 1) (?r\<lparr>rs_data := concat (map enc fs) @ []\<rparr>)
      = (fs, Some e)"
    using assms(1,4) by (simp only: read_loop_enc) simp
  ultimately show ?thesis by simp
qed

end

subsection \<open>mux.rs\<close>

datatype mux_frame =
    Open u32
  | Data u32 bytes
  | Close u32
  | Ping
  | Pong

definition max_frame_payload :: nat where
  "max_frame_payload = 1024 * 1024"

fun mux_segs :: "mux_frame \<Rightarrow> bytes list" where
  "mux_segs (Open stream_id) = [[1], to_be 4 (unat stream_id)]"
| "mux_segs (Data stream_id payload) =
     [[2], to_be 4 (unat stream_id), to_be 4 (unat (word_of_nat (length payload) :: u32)), payload]"
| "mux_segs (Close stream_id) = [[3], to_be 4 (unat stream_id)]"
| "mux_segs Ping = [[4]]"
| "mux_segs Pong = [[5]]"

definition write_mux_frame :: "mux_frame \<Rightarrow> sink \<Rightarrow> unit result \<times> sink" where
  "write_mux_frame frame w = write_flush (mux_segs frame) w"

definition read_mux_frame :: "rstream \<Rightarrow> (mux_frame \<times> rstream) result" where
  "read_mux_frame r =
     (case read_be 1 r of
        Inl e \<Rightarrow> Inl e
      | Inr (frame_type, r) \<Rightarrow>
          if frame_type = 1 then
            (case read_be 4 r of
               Inl e \<Rightarrow> Inl e
             | Inr (stream_id, r) \<Rightarrow> Inr (Open (word_of_nat stream_id), r))
          else if frame_type = 2 then
            (case read_be 4 r of
               Inl e \<Rightarrow> Inl e
             | Inr (stream_id, r) \<Rightarrow>
                 (case read_be 4 r of
                    Inl e \<Rightarrow> Inl e
                  | Inr (len, r) \<Rightarrow>
                      if len > max_frame_payload then
                        Inl (Protocol (''mux payload too large: '' @ show_nat len @ '' > ''
                               @ show_nat max_frame_payload))
                      else
                        (case read_bytes len r of
                           Inl e \<Rightarrow> Inl e
                         | Inr (payload, r) \<Rightarrow> Inr (Data (word_of_nat stream_id) payload, r))))
          else if frame_type = 3 then
            (case read_be 4 r of
               Inl e \<Rightarrow> Inl e
             | Inr (stream_id, r) \<Rightarrow> Inr (Close (word_of_nat stream_id), r))
          else if frame_type = 4 then Inr (Ping, r)
          else if frame_type = 5 then Inr (Pong, r)
          else Inl (Protocol (''unknown mux frame type: '' @ show_nat frame_type)))"

fun mux_wf :: "mux_frame \<Rightarrow> bool" where
  "mux_wf (Data _ payload) = (length payload \<le> max_frame_payload)"
| "mux_wf _ = True"

abbreviation mux_bytes :: "mux_frame \<Rightarrow> bytes" where
  "mux_bytes f \<equiv> concat (mux_segs f)"

lemma unat_u32_mod [simp]: "unat (x :: u32) mod 4294967296 = unat x"
  using unsigned_less [of x, where ?'a = nat] by simp

lemma unat_u16_mod [simp]: "unat (x :: u16) mod 65536 = unat x"
  using unsigned_less [of x, where ?'a = nat] by simp

lemma payload_len_u32:
  "n \<le> max_frame_payload \<Longrightarrow> unat (word_of_nat n :: u32) = n"
  "n \<le> max_frame_payload \<Longrightarrow> of_be (to_be 4 n) = n"
  by (simp_all add: max_frame_payload_def unat_of_nat)

lemma read_mux_frame_bytes:
  "mux_wf f \<Longrightarrow> read_mux_frame (r\<lparr>rs_data := mux_bytes f @ d\<rparr>) = Inr (f, r\<lparr>rs_data := d\<rparr>)"
  by (cases f) (simp_all add: read_mux_frame_def io_simps payload_len_u32 del: of_be_to_be)

lemma read_mux_frame_consumes:
  "read_mux_frame r = Inr (f, r') \<Longrightarrow> length (rs_data r') < length (rs_data r)"
  by (auto simp: read_mux_frame_def split: sum.splits prod.splits if_splits
      dest!: read_be_Inr read_bytes_Inr)

interpretation mux: frame_protocol write_mux_frame read_mux_frame mux_bytes mux_wf
  by unfold_locales
    (simp_all add: write_mux_frame_def write_flush_ok read_mux_frame_bytes read_mux_frame_consumes)

subsection \<open>udp_mux.rs\<close>

datatype udp_mux_frame =
    Req u32 string bytes
  | Resp u32 bytes
  | UdpPing
  | UdpPong

definition max_addr_len :: nat where
  "max_addr_len = 1024"

definition max_payload_len :: nat where
  "max_payload_len = 1024 * 1024"

fun udp_segs :: "udp_mux_frame \<Rightarrow> bytes list" where
  "udp_segs (Req request_id src_addr payload) =
     [[1], to_be 4 (unat request_id), to_be 2 (unat (word_of_nat (length src_addr) :: u16)),
      as_bytes src_addr, to_be 4 (unat (word_of_nat (length payload) :: u32)), payload]"
| "udp_segs (Resp request_id payload) =
     [[2], to_be 4 (unat request_id), to_be 4 (unat (word_of_nat (length payload) :: u32)), payload]"
| "udp_segs UdpPing = [[3]]"
| "udp_segs UdpPong = [[4]]"

definition write_udp_mux_frame :: "udp_mux_frame \<Rightarrow> sink \<Rightarrow> unit result \<times> sink" where
  "write_udp_mux_frame frame w =
     (case frame of
        Req _ src_addr _ \<Rightarrow>
          if length src_addr > max_addr_len
          then (Inl (Protocol ''udp mux src_addr too long''), w)
          else write_flush (udp_segs frame) w
      | _ \<Rightarrow> write_flush (udp_segs frame) w)"

definition read_udp_mux_frame :: "rstream \<Rightarrow> (udp_mux_frame \<times> rstream) result" where
  "read_udp_mux_frame r =
     (case read_be 1 r of
        Inl e \<Rightarrow> Inl e
      | Inr (frame_type, r) \<Rightarrow>
          if frame_type = 1 then
            (case read_be 4 r of
               Inl e \<Rightarrow> Inl e
             | Inr (request_id, r) \<Rightarrow>
                 (case read_be 2 r of
                    Inl e \<Rightarrow> Inl e
                  | Inr (addr_len, r) \<Rightarrow>
                      if addr_len > max_addr_len then
                        Inl (Protocol ''udp mux src_addr too long'')
                      else
                        (case read_bytes addr_len r of
                           Inl e \<Rightarrow> Inl e
                         | Inr (addr, r) \<Rightarrow>
                             (case read_be 4 r of
                                Inl e \<Rightarrow> Inl e
                              | Inr (payload_len, r) \<Rightarrow>
                                  if payload_len > max_payload_len then
                                    Inl (Protocol ''udp mux payload too large'')
                                  else
                                    (case read_bytes payload_len r of
                                       Inl e \<Rightarrow> Inl e
                                     | Inr (payload, r) \<Rightarrow>
                                         (case from_utf8 addr of
                                            None \<Rightarrow> Inl (Protocol ''invalid udp mux src_addr'')
                                          | Some src_addr \<Rightarrow>
                                              Inr (Req (word_of_nat request_id) src_addr payload,
                                                   r)))))))
          else if frame_type = 2 then
            (case read_be 4 r of
               Inl e \<Rightarrow> Inl e
             | Inr (request_id, r) \<Rightarrow>
                 (case read_be 4 r of
                    Inl e \<Rightarrow> Inl e
                  | Inr (payload_len, r) \<Rightarrow>
                      if payload_len > max_payload_len then
                        Inl (Protocol ''udp mux payload too large'')
                      else
                        (case read_bytes payload_len r of
                           Inl e \<Rightarrow> Inl e
                         | Inr (payload, r) \<Rightarrow> Inr (Resp (word_of_nat request_id) payload, r))))
          else if frame_type = 3 then Inr (UdpPing, r)
          else if frame_type = 4 then Inr (UdpPong, r)
          else Inl (Protocol (''unknown udp mux frame type: '' @ show_nat frame_type)))"

fun udp_wf :: "udp_mux_frame \<Rightarrow> bool" where
  "udp_wf (Req _ src_addr payload) =
     (length src_addr \<le> max_addr_len \<and> utf8_valid (as_bytes src_addr)
      \<and> length payload \<le> max_payload_len)"
| "udp_wf (Resp _ payload) = (length payload \<le> max_payload_len)"
| "udp_wf _ = True"

abbreviation udp_bytes :: "udp_mux_frame \<Rightarrow> bytes" where
  "udp_bytes f \<equiv> concat (udp_segs f)"

lemma udp_len_u32:
  "n \<le> max_payload_len \<Longrightarrow> unat (word_of_nat n :: u32) = n"
  "n \<le> max_payload_len \<Longrightarrow> of_be (to_be 4 n) = n"
  by (simp_all add: max_payload_len_def unat_of_nat)

lemma udp_addr_u16:
  "n \<le> max_addr_len \<Longrightarrow> unat (word_of_nat n :: u16) = n"
  "n \<le> max_addr_len \<Longrightarrow> of_be (to_be 2 n) = n"
  by (simp_all add: max_addr_len_def unat_of_nat)

lemma read_udp_mux_frame_bytes:
  "udp_wf f \<Longrightarrow> read_udp_mux_frame (r\<lparr>rs_data := udp_bytes f @ d\<rparr>) = Inr (f, r\<lparr>rs_data := d\<rparr>)"
  by (cases f)
    (simp_all add: read_udp_mux_frame_def io_simps udp_len_u32 udp_addr_u16 from_utf8_as_bytes
      del: of_be_to_be)

lemma read_udp_mux_frame_consumes:
  "read_udp_mux_frame r = Inr (f, r') \<Longrightarrow> length (rs_data r') < length (rs_data r)"
  by (auto simp: read_udp_mux_frame_def split: sum.splits prod.splits if_splits option.splits
      dest!: read_be_Inr read_bytes_Inr)

lemma write_udp_mux_frame_bytes:
  "udp_wf f \<Longrightarrow> sink_ok w \<Longrightarrow>
   write_udp_mux_frame f w = (Inr (), w\<lparr>sk_data := sk_data w @ udp_bytes f\<rparr>)"
  by (cases f) (simp_all add: write_udp_mux_frame_def write_flush_ok)

interpretation udp: frame_protocol write_udp_mux_frame read_udp_mux_frame udp_bytes udp_wf
  by unfold_locales
    (simp_all add: write_udp_mux_frame_bytes read_udp_mux_frame_bytes read_udp_mux_frame_consumes)

subsection \<open>relay.rs: length-prefixed frames\<close>

definition write_frame :: "bytes \<Rightarrow> sink \<Rightarrow> unit result \<times> sink" where
  "write_frame data w =
     write_flush [to_be 4 (unat (word_of_nat (length data) :: u32)), data] w"

definition read_frame_optional :: "rstream \<Rightarrow> (bytes option \<times> rstream) result" where
  "read_frame_optional r =
     (case read_exact 4 r of
        Inl e \<Rightarrow> if io_kind e = UnexpectedEof then Inr (None, r) else Inl (Io e)
      | Inr (len_buf, r) \<Rightarrow>
          let len = of_be len_buf in
          if len > 1024 * 1024 then Inl (Protocol ''stcp frame too large'')
          else
            (case read_bytes len r of
               Inl e \<Rightarrow> Inl e
             | Inr (data, r) \<Rightarrow> Inr (Some data, r)))"

text \<open>The reader loop of the relay stops at a clean end of file as it does at an error.\<close>

definition read_relay_frame :: "rstream \<Rightarrow> (bytes \<times> rstream) result" where
  "read_relay_frame r =
     (case read_frame_optional r of
        Inl e \<Rightarrow> Inl e
      | Inr (None, _) \<Rightarrow> Inl (Io eof_error)
      | Inr (Some data, r) \<Rightarrow> Inr (data, r))"

definition relay_wf :: "bytes \<Rightarrow> bool" where
  "relay_wf data \<longleftrightarrow> length data \<le> 1024 * 1024"

definition relay_bytes :: "bytes \<Rightarrow> bytes" where
  "relay_bytes data = to_be 4 (length data) @ data"

lemma relay_len_u32: "relay_wf d \<Longrightarrow> unat (word_of_nat (length d) :: u32) = length d"
  by (simp add: relay_wf_def unat_of_nat)

lemma read_frame_optional_bytes:
  assumes "relay_wf f"
  shows "read_frame_optional (r\<lparr>rs_data := relay_bytes f @ d\<rparr>) = Inr (Some f, r\<lparr>rs_data := d\<rparr>)"
proof -
  have "of_be (to_be 4 (length f)) = length f"
    using of_be_to_be_u32 [of "word_of_nat (length f)"] relay_len_u32 [OF assms] by metis
  moreover have "length f \<le> 1024 * 1024" using assms by (simp add: relay_wf_def)
  ultimately show ?thesis
    by (simp only: read_frame_optional_def relay_bytes_def append_assoc read_exact_append
        length_to_be read_bytes_append Let_def sum.case prod.case not_less [symmetric] if_False simp_thms)
qed

lemma read_relay_frame_consumes:
  "read_relay_frame r = Inr (f, r') \<Longrightarrow> length (rs_data r') < length (rs_data r)"
  by (auto simp: read_relay_frame_def read_frame_optional_def Let_def
      split: sum.splits prod.splits if_splits option.splits
      dest!: read_exact_Inr read_bytes_Inr)

interpretation relay: frame_protocol write_frame read_relay_frame relay_bytes relay_wf
  by unfold_locales
    (simp_all add: write_frame_def write_flush_ok relay_len_u32 relay_bytes_def [symmetric]
      read_relay_frame_def read_frame_optional_bytes read_relay_frame_consumes)

subsection \<open>Claims\<close>

lemma read_mux_frame_eof: "read_mux_frame \<lparr>rs_data = [], rs_end = None\<rparr> = Inl (Io eof_error)"
  by (simp add: read_mux_frame_def io_simps)

lemma read_udp_mux_frame_eof:
  "read_udp_mux_frame \<lparr>rs_data = [], rs_end = None\<rparr> = Inl (Io eof_error)"
  by (simp add: read_udp_mux_frame_def io_simps)

text \<open>
  The TCP multiplexer's wire format carries any sequence of frames. What the writer puts on a
  healthy connection, the reader parses back: the same frames, in the same order, and then the end
  of the stream.
\<close>

theorem mux_frames_arrive:
  assumes "list_all mux_wf fs" "sink_ok w" "sk_data w = []"
  shows "read_loop read_mux_frame (Suc (length fs))
      \<lparr>rs_data = sk_data (snd (write_loop write_mux_frame fs w)), rs_end = None\<rparr>
    = (fs, Some (Io eof_error))"
  using assms read_mux_frame_eof by (rule mux.write_then_read)

definition demo_sink :: sink where
  "demo_sink = \<lparr>sk_data = [], sk_room = None, sk_err = eof_error, sk_flush = None\<rparr>"

theorem mux_frames_arrive_witness:
  "read_loop read_mux_frame (Suc (length [Open 7, Data 7 [1, 2, 3], Close 7]))
      \<lparr>rs_data = sk_data (snd (write_loop write_mux_frame
          [Open 7, Data 7 [1, 2, 3], Close 7] demo_sink)), rs_end = None\<rparr>
    = ([Open 7, Data 7 [1, 2, 3], Close 7], Some (Io eof_error))"
  by (rule mux_frames_arrive) (simp_all add: demo_sink_def sink_ok_def max_frame_payload_def)

text \<open>
  The UDP tunnel's wire format carries any sequence of frames whose source address is at most
  1024 bytes and whose payload is at most one MiB.
\<close>

theorem udp_frames_arrive:
  assumes "list_all udp_wf fs" "sink_ok w" "sk_data w = []"
  shows "read_loop read_udp_mux_frame (Suc (length fs))
      \<lparr>rs_data = sk_data (snd (write_loop write_udp_mux_frame fs w)), rs_end = None\<rparr>
    = (fs, Some (Io eof_error))"
  using assms read_udp_mux_frame_eof by (rule udp.write_then_read)

theorem udp_frames_arrive_witness:
  "read_loop read_udp_mux_frame (Suc (length [Req 9 ''1.2.3.4:5'' [255], UdpPing]))
      \<lparr>rs_data = sk_data (snd (write_loop write_udp_mux_frame
          [Req 9 ''1.2.3.4:5'' [255], UdpPing] demo_sink)), rs_end = None\<rparr>
    = ([Req 9 ''1.2.3.4:5'' [255], UdpPing], Some (Io eof_error))"
  by (rule udp_frames_arrive)
    (simp_all add: demo_sink_def sink_ok_def max_payload_len_def max_addr_len_def as_bytes_def
      as_byte_def)



text \<open>
  The size limit of the multiplexer is checked by the reader alone: a data frame above one MiB
  (and below the 4 GiB the length field can hold) is written without an error, and the reader at the
  other end rejects it.
\<close>

theorem mux_oversize_written_not_read:
  assumes "max_frame_payload < length payload" "length payload < 2 ^ 32" "sink_ok w"
  shows "fst (write_mux_frame (Data i payload) w) = Inr () \<and>
    (\<exists>msg. read_mux_frame (r\<lparr>rs_data := mux_bytes (Data i payload) @ d\<rparr>) = Inl (Protocol msg))"
proof -
  have "unat (word_of_nat (length payload) :: u32) = length payload"
    "of_be (to_be 4 (length payload)) = length payload"
    using assms(2) by (simp_all add: unat_of_nat)
  with assms(1,3) show ?thesis
    by (simp add: write_mux_frame_def write_flush_ok read_mux_frame_def io_simps del: of_be_to_be)
qed

theorem mux_oversize_written_not_read_witness:
  "\<exists>msg. read_mux_frame (\<lparr>rs_data = [], rs_end = None\<rparr>
      \<lparr>rs_data := mux_bytes (Data 1 (replicate 1048577 0)) @ []\<rparr>) = Inl (Protocol msg)"
  by (rule mux_oversize_written_not_read [where w = demo_sink, THEN conjunct2])
    (simp_all only: length_replicate max_frame_payload_def, simp_all add: demo_sink_def sink_ok_def)

end
