(* ===== verification/Crypto.thy ===== *)
theory Crypto
  imports Errors
begin

text \<open>
  \<^verbatim>\<open>arp-common/src/crypto/mod.rs\<close>: HMAC signatures with their constant-time comparison, the
  AES-256-GCM packet formats and compression. HMAC-SHA256, SHA-256, AES-GCM and gzip are third-party
  crates and stay parameters (the record \<^typ>\<open>platform\<close>); random nonces are arguments.
\<close>

subsection \<open>Compressor\<close>

definition compress :: "platform \<Rightarrow> bytes \<Rightarrow> bytes result" where
  "compress pf data =
     (case pf_gzip_write pf data of
        Inl e \<Rightarrow> Inl (Transport (''Compression failed: '' @ e))
      | Inr encoder \<Rightarrow>
          (case pf_gzip_finish pf encoder of
             Inl e \<Rightarrow> Inl (Transport (''Compression finish failed: '' @ e))
           | Inr out \<Rightarrow> Inr out))"

definition decompress :: "platform \<Rightarrow> bytes \<Rightarrow> bytes result" where
  "decompress pf data =
     (case pf_gunzip pf data of
        Inl e \<Rightarrow> Inl (Transport (''Decompression failed: '' @ e))
      | Inr out \<Rightarrow> Inr out)"

subsection \<open>Keys and signatures\<close>

definition hex_digit :: "nat \<Rightarrow> char" where
  "hex_digit d = (if d < 10 then char_of (48 + d) else char_of (87 + d))"

fun hex_encode :: "bytes \<Rightarrow> string" where
  "hex_encode [] = []"
| "hex_encode (b # bs) = hex_digit (unat b div 16) # hex_digit (unat b mod 16) # hex_encode bs"

definition derive_key :: "platform \<Rightarrow> string \<Rightarrow> bytes" where
  "derive_key pf secret = take 32 (pf_sha256 pf (as_bytes secret))"

definition sign :: "platform \<Rightarrow> string \<Rightarrow> string \<Rightarrow> string" where
  "sign pf token message = hex_encode (pf_hmac pf (as_bytes token) (as_bytes message))"

definition verify :: "platform \<Rightarrow> string \<Rightarrow> string \<Rightarrow> string \<Rightarrow> bool" where
  "verify pf token message signature_hex =
     (let expected = sign pf token message in
      if length expected \<noteq> length signature_hex then False
      else foldl (\<lambda>diff (a, b). diff OR (a XOR b)) (0 :: u8)
             (zip (as_bytes expected) (as_bytes signature_hex)) = 0)"

subsection \<open>PacketCipher\<close>

definition packet_encrypt :: "platform \<Rightarrow> bytes \<Rightarrow> bytes \<Rightarrow> string \<Rightarrow> bytes result" where
  "packet_encrypt pf nonce data secret =
     (if secret = [] then Inl (Transport ''encryption secret cannot be empty'')
      else
        case pf_seal pf (derive_key pf secret) nonce data of
          Inl e \<Rightarrow> Inl (Transport (''encrypt failed: '' @ e))
        | Inr encrypted \<Rightarrow> Inr (nonce @ encrypted))"

definition packet_decrypt :: "platform \<Rightarrow> bytes \<Rightarrow> string \<Rightarrow> bytes result" where
  "packet_decrypt pf data secret =
     (if secret = [] then Inl (Transport ''encryption secret cannot be empty'')
      else if length data < 12 then Inl (Transport ''encrypted payload too short'')
      else
        case pf_open pf (derive_key pf secret) (take 12 data) (drop 12 data) of
          Inl e \<Rightarrow> Inl (Transport (''decrypt failed: '' @ e))
        | Inr plain \<Rightarrow> Inr plain)"

subsection \<open>SessionCipher\<close>

record session_cipher =
  sc_key :: bytes

definition session_new :: "platform \<Rightarrow> string \<Rightarrow> session_cipher" where
  "session_new pf secret = \<lparr>sc_key = derive_key pf secret\<rparr>"

definition session_encrypt :: "platform \<Rightarrow> session_cipher \<Rightarrow> bytes \<Rightarrow> bytes \<Rightarrow> bytes result" where
  "session_encrypt pf c nonce data =
     (case pf_seal pf (sc_key c) nonce data of
        Inl e \<Rightarrow> Inl (Transport (''encrypt failed: '' @ e))
      | Inr encrypted \<Rightarrow> Inr (nonce @ encrypted))"

definition session_decrypt :: "platform \<Rightarrow> session_cipher \<Rightarrow> bytes \<Rightarrow> bytes result" where
  "session_decrypt pf c data =
     (if length data < 12 then Inl (Transport ''encrypted payload too short'')
      else
        case pf_open pf (sc_key c) (take 12 data) (drop 12 data) of
          Inl e \<Rightarrow> Inl (Transport (''decrypt failed: '' @ e))
        | Inr plain \<Rightarrow> Inr plain)"

subsection \<open>Lemmas\<close>

lemma length_hex_encode [simp]: "length (hex_encode bs) = 2 * length bs"
  by (induction bs) auto

lemma of_char_hex_digit: "k < 16 \<Longrightarrow> (of_char (hex_digit k) :: nat) = (if k < 10 then 48 + k else 87 + k)"
  by (simp add: hex_digit_def)

lemma hex_digit_inj:
  assumes "i < 16" "j < 16"
  shows "hex_digit i = hex_digit j \<longleftrightarrow> i = j"
proof
  assume "hex_digit i = hex_digit j"
  then have "(of_char (hex_digit i) :: nat) = of_char (hex_digit j)" by simp
  with assms show "i = j" by (simp add: of_char_hex_digit split: if_splits)
qed simp

lemma div_mod_16_eq: "m div 16 = n div 16 \<and> m mod 16 = n mod 16 \<longleftrightarrow> m = (n :: nat)"
proof
  assume "m div 16 = n div 16 \<and> m mod 16 = n mod 16"
  then have "m div 16 * 16 + m mod 16 = n div 16 * 16 + n mod 16" by simp
  then show "m = n" by (simp only: div_mult_mod_eq)
qed simp

lemma hex_pair_inj:
  "hex_digit (unat a div 16) = hex_digit (unat b div 16)
   \<and> hex_digit (unat a mod 16) = hex_digit (unat b mod 16) \<longleftrightarrow> a = (b :: u8)"
proof -
  have "unat x div 16 < 16" for x :: u8
    using unsigned_less [of x, where ?'a = nat] by simp
  then show ?thesis by (simp add: hex_digit_inj div_mod_16_eq word_unat_eq_iff)
qed

lemma hex_encode_inj [simp]: "hex_encode as = hex_encode bs \<longleftrightarrow> as = bs"
proof (induction as arbitrary: bs)
  case Nil
  then show ?case by (cases bs) auto
next
  case (Cons a as)
  note IH = Cons.IH
  show ?case
  proof (cases bs)
    case (Cons b bs')
    have "hex_encode (a # as) = hex_encode (b # bs') \<longleftrightarrow>
        (hex_digit (unat a div 16) = hex_digit (unat b div 16)
         \<and> hex_digit (unat a mod 16) = hex_digit (unat b mod 16)) \<and> hex_encode as = hex_encode bs'"
      by (simp only: hex_encode.simps list.inject conj_assoc)
    then show ?thesis by (simp only: Cons hex_pair_inj IH list.inject)
  qed simp
qed

lemma xor_eq_0_u8: "(x :: u8) XOR y = 0 \<longleftrightarrow> x = y"
proof
  assume "x XOR y = 0"
  then have "(x XOR y) XOR y = y" by simp
  then show "x = y" by (simp add: xor.assoc)
qed simp

lemma foldl_diff_zero:
  "length as = length bs \<Longrightarrow>
   foldl (\<lambda>diff (a, b). diff OR (a XOR b)) d (zip as bs) = (0 :: u8) \<longleftrightarrow> d = 0 \<and> as = bs"
  by (induction as bs arbitrary: d rule: list_induct2) (auto simp: or_eq_0_iff xor_eq_0_u8)

text \<open>The byte-wise comparison without early exit decides equality.\<close>

lemma verify_iff: "verify pf token message sig \<longleftrightarrow> sig = sign pf token message"
  by (auto simp: verify_def Let_def foldl_diff_zero)

text \<open>
  What the documentation of the crates promises: SHA-256 digests have 32 bytes, and AES-256-GCM opens
  under the same key and nonce what it sealed, with a tag of 16 bytes.
\<close>

definition sha_ok :: "platform \<Rightarrow> bool" where
  "sha_ok pf \<longleftrightarrow> (\<forall>d. length (pf_sha256 pf d) = 32)"

definition aead_ok :: "platform \<Rightarrow> bool" where
  "aead_ok pf \<longleftrightarrow>
     (\<forall>key nonce data c. length key = 32 \<longrightarrow> length nonce = 12 \<longrightarrow> pf_seal pf key nonce data = Inr c \<longrightarrow>
        pf_open pf key nonce c = Inr data \<and> length c = 16 + length data)"

lemma length_derive_key: "sha_ok pf \<Longrightarrow> length (derive_key pf secret) = 32"
  by (simp add: sha_ok_def derive_key_def)

lemma session_encrypt_Inr:
  assumes "sha_ok pf" "aead_ok pf" "length nonce = 12"
    and "session_encrypt pf (session_new pf secret) nonce data = Inr c"
  shows "session_decrypt pf (session_new pf secret) c = Inr data \<and> length c = 28 + length data"
proof -
  let ?k = "derive_key pf secret"
  obtain x where x: "pf_seal pf ?k nonce data = Inr x" "c = nonce @ x"
    using assms(4) by (auto simp: session_encrypt_def session_new_def split: sum.splits)
  have "pf_open pf ?k nonce x = Inr data" "length x = 16 + length data"
    using assms(2,3) x(1) length_derive_key [OF assms(1)] unfolding aead_ok_def by blast+
  with x(2) assms(3) show ?thesis by (simp add: session_decrypt_def session_new_def)
qed

lemma packet_encrypt_Inr:
  assumes "sha_ok pf" "aead_ok pf" "length nonce = 12" "packet_encrypt pf nonce data secret = Inr c"
  shows "packet_decrypt pf c secret = Inr data"
proof -
  have "secret \<noteq> []" "session_encrypt pf (session_new pf secret) nonce data = Inr c"
    using assms(4) by (auto simp: packet_encrypt_def session_encrypt_def session_new_def split: if_splits)
  from session_encrypt_Inr [OF assms(1-3) this(2)] this(1) show ?thesis
    by (auto simp: packet_decrypt_def session_decrypt_def session_new_def)
qed

text \<open>Decompression gives back what was compressed.\<close>

definition gzip_ok :: "platform \<Rightarrow> bool" where
  "gzip_ok pf \<longleftrightarrow>
     (\<forall>data x y. pf_gzip_write pf data = Inr x \<longrightarrow> pf_gzip_finish pf x = Inr y \<longrightarrow> pf_gunzip pf y = Inr data)"

lemma compress_Inr: "gzip_ok pf \<Longrightarrow> compress pf data = Inr c \<Longrightarrow> decompress pf c = Inr data"
  by (auto simp: gzip_ok_def compress_def decompress_def split: sum.splits)

text \<open>A platform with a keyed additive cipher in place of the crates, for evaluation.\<close>

definition demo_platform :: platform where
  "demo_platform =
     \<lparr>pf_hmac = (\<lambda>k m. [foldl (\<lambda>h b. h * 31 + b) 7 (k @ [255] @ m)]),
      pf_sha256 = (\<lambda>d. replicate 32 (foldl (+) 1 d)),
      pf_seal = (\<lambda>k n d. Inr (map (\<lambda>b. b + hd (k @ [0])) d @ replicate 16 0)),
      pf_open = (\<lambda>k n c. if length c < 16 then Inl ''aead'' else
         Inr (map (\<lambda>b. b - hd (k @ [0])) (take (length c - 16) c))),
      pf_gzip_write = Inr, pf_gzip_finish = Inr, pf_gunzip = Inr, pf_lower = id\<rparr>"

lemma demo_platform_ok: "sha_ok demo_platform" "aead_ok demo_platform"
  by (simp_all add: sha_ok_def aead_ok_def demo_platform_def comp_def)

lemma demo_gzip_ok: "gzip_ok demo_platform"
  by (simp add: gzip_ok_def demo_platform_def)

text \<open>
  A signature is accepted exactly when it is the hex text of the HMAC of the message under the
  token: the byte-wise comparison that accumulates differences without an early exit decides
  equality of the strings.
\<close>

theorem verify_exact: "verify pf token message sig \<longleftrightarrow> sig = sign pf token message"
  by (rule verify_iff)

text \<open>
  Both ciphers decrypt what either of them encrypted under the same secret: the session cipher
  that caches the key is interchangeable, packet by packet, with the packet cipher, and the
  ciphertext is 28 bytes longer than the plaintext.
\<close>

theorem cipher_interoperability:
  assumes "sha_ok pf" "aead_ok pf" "secret \<noteq> []" "length nonce = 12"
    and "packet_encrypt pf nonce data secret = Inr c \<or>
         session_encrypt pf (session_new pf secret) nonce data = Inr c"
  shows "packet_decrypt pf c secret = Inr data \<and>
    session_decrypt pf (session_new pf secret) c = Inr data \<and> length c = 28 + length data"
proof -
  have "session_encrypt pf (session_new pf secret) nonce data = Inr c"
    using assms(3,5) by (auto simp: packet_encrypt_def session_encrypt_def session_new_def)
  from session_encrypt_Inr [OF assms(1,2,4) this] assms(3) show ?thesis
    by (auto simp: packet_decrypt_def session_decrypt_def session_new_def)
qed

theorem cipher_interoperability_witness:
  "session_encrypt demo_platform (session_new demo_platform ''k'') (replicate 12 5) [1, 2]
     = Inr (replicate 12 5 @ [109, 110] @ replicate 16 0) \<and>
   packet_decrypt demo_platform (replicate 12 5 @ [109, 110] @ replicate 16 0) ''k'' = Inr [1, 2]"
proof -
  have e: "session_encrypt demo_platform (session_new demo_platform ''k'') (replicate 12 5) [1, 2]
      = Inr (replicate 12 5 @ [109, 110] @ replicate 16 0)"
    by (simp add: session_encrypt_def session_new_def demo_platform_def derive_key_def as_bytes_def
        as_byte_def)
  show ?thesis
    using cipher_interoperability [OF demo_platform_ok _ _ disjI2 [OF e]] e by simp
qed

end
