(* ===== verification/Relay.thy ===== *)
theory Relay
  imports Frames Crypto
begin

text \<open>
  \<^verbatim>\<open>relay_stcp\<close> of \<^verbatim>\<open>arp-common/src/transport/relay.rs\<close>: the two tasks that carry an encrypted
  connection between a local socket and a work connection, one encrypting what is read locally into
  frames, the other decrypting frames into the local socket. The reads of the local socket are a list
  of chunks, each with the random nonce drawn for it, followed by end of file or a read error.
\<close>

text \<open>The local end of file: shut the writing half of the work connection down, return the count.\<close>

definition relay_finish :: "io_error option \<Rightarrow> u64 \<Rightarrow> sink \<Rightarrow> u64 result \<times> sink" where
  "relay_finish shut tot w = (case shut of None \<Rightarrow> (Inr tot, w) | Some e \<Rightarrow> (Inl (Io e), w))"

fun relay_send ::
  "platform \<Rightarrow> session_cipher \<Rightarrow> (bytes \<times> bytes) list \<Rightarrow> io_error option \<Rightarrow> io_error option \<Rightarrow> u64 \<Rightarrow> sink \<Rightarrow>
   u64 result \<times> sink" where
  "relay_send pf cipher [] read_end shut tot work_w =
     (case read_end of
        Some e \<Rightarrow> (Inl (Io e), work_w)
      | None \<Rightarrow> relay_finish shut tot work_w)"
| "relay_send pf cipher ((nonce, buf) # reads) read_end shut tot work_w =
     (if length buf = 0 then relay_finish shut tot work_w
      else
        case session_encrypt pf cipher nonce buf of
          Inl e \<Rightarrow> (Inl e, work_w)
        | Inr encrypted \<Rightarrow>
            (case write_frame encrypted work_w of
               (Inl e, work_w) \<Rightarrow> (Inl e, work_w)
             | (Inr _, work_w) \<Rightarrow>
                 relay_send pf cipher reads read_end shut (tot + word_of_nat (length buf)) work_w))"

lemma read_frame_optional_shorter:
  "read_frame_optional r = Inr (Some f, r') \<Longrightarrow> length (rs_data r') < length (rs_data r)"
  using read_relay_frame_consumes [of r f r'] by (simp add: read_relay_frame_def)

function relay_recv ::
  "platform \<Rightarrow> session_cipher \<Rightarrow> io_error option \<Rightarrow> u64 \<Rightarrow> rstream \<Rightarrow> sink \<Rightarrow> u64 result \<times> sink" where
  "relay_recv pf cipher shut tot work_r local_w =
     (case read_frame_optional work_r of
        Inl e \<Rightarrow> (Inl e, local_w)
      | Inr (None, _) \<Rightarrow> relay_finish shut tot local_w
      | Inr (Some frame, work_r') \<Rightarrow>
          (case session_decrypt pf cipher frame of
             Inl e \<Rightarrow> (Inl e, local_w)
           | Inr plain \<Rightarrow>
               (case write_all plain local_w of
                  (Inl e, local_w') \<Rightarrow> (Inl e, local_w')
                | (Inr _, local_w') \<Rightarrow>
                    relay_recv pf cipher shut (tot + word_of_nat (length plain)) work_r' local_w')))"
  by pat_completeness auto
termination
  by (relation "measure (\<lambda>(_, _, _, _, r, _). length (rs_data r))")
    (auto dest: read_frame_optional_shorter)

declare relay_recv.simps [simp del]

text \<open>
  \<^verbatim>\<open>tokio::join!\<close> of the two tasks: a task that panicked or was cancelled has the error \<open>Inl\<close>.
\<close>

definition relay_join :: "string + u64 result \<Rightarrow> string + u64 result \<Rightarrow> (u64 \<times> u64) result" where
  "relay_join ra rb =
     (case (ra, rb) of
        (Inr (Inr bytes_in), Inr (Inr bytes_out)) \<Rightarrow> Inr (bytes_in, bytes_out)
      | (Inr (Inl e), _) \<Rightarrow> Inl e
      | (_, Inr (Inl e)) \<Rightarrow> Inl e
      | (Inl e, _) \<Rightarrow> Inl (Transport (''stcp task join failed: '' @ e))
      | (_, Inl e) \<Rightarrow> Inl (Transport (''stcp task join failed: '' @ e)))"

definition relay_stcp ::
  "platform \<Rightarrow> string \<Rightarrow> (bytes \<times> bytes) list \<Rightarrow> io_error option \<Rightarrow> rstream \<Rightarrow> io_error option \<Rightarrow>
   io_error option \<Rightarrow> sink \<Rightarrow> sink \<Rightarrow> (u64 \<times> u64) result \<times> sink \<times> sink" where
  "relay_stcp pf secret local_reads local_end work_r work_shut local_shut local_w work_w =
     (let cipher_a = session_new pf secret;
          cipher_b = session_new pf secret;
          (ra, work_w) = relay_send pf cipher_a local_reads local_end work_shut 0 work_w;
          (rb, local_w) = relay_recv pf cipher_b local_shut 0 work_r local_w
      in (relay_join (Inr ra) (Inr rb), local_w, work_w))"

subsection \<open>One direction, end to end\<close>

text \<open>The chunks one read of the 16 KiB buffer can return, with nonces of the cipher's size.\<close>

definition reads_ok :: "platform \<Rightarrow> string \<Rightarrow> (bytes \<times> bytes) list \<Rightarrow> bool" where
  "reads_ok pf secret reads \<longleftrightarrow>
     list_all (\<lambda>(nonce, buf). length nonce = 12 \<and> 0 < length buf \<and> length buf \<le> 16 * 1024 \<and>
        (case pf_seal pf (derive_key pf secret) nonce buf of Inl _ \<Rightarrow> False | Inr _ \<Rightarrow> True)) reads"

abbreviation plaintext :: "(bytes \<times> bytes) list \<Rightarrow> bytes" where
  "plaintext reads \<equiv> concat (map snd reads)"

lemma reads_ok_Cons:
  assumes "sha_ok pf" "aead_ok pf" "reads_ok pf secret ((nonce, buf) # reads)"
  obtains c where "session_encrypt pf (session_new pf secret) nonce buf = Inr c"
    "session_decrypt pf (session_new pf secret) c = Inr buf" "relay_wf c" "buf \<noteq> []"
    "reads_ok pf secret reads"
proof -
  obtain c where c: "session_encrypt pf (session_new pf secret) nonce buf = Inr c"
    using assms(3)
    by (auto simp: reads_ok_def session_encrypt_def session_new_def split: sum.splits)
  have "length nonce = 12" "buf \<noteq> []" "length buf \<le> 16 * 1024" "reads_ok pf secret reads"
    using assms(3) by (auto simp: reads_ok_def)
  with session_encrypt_Inr [OF assms(1,2) this(1) c] c that show thesis
    by (auto simp: relay_wf_def)
qed

lemma relay_recv_frame:
  assumes "relay_wf c" "session_decrypt pf cipher c = Inr buf" "sk_room w = None"
  shows "relay_recv pf cipher shut tot (r\<lparr>rs_data := relay_bytes c @ d\<rparr>) w
    = relay_recv pf cipher shut (tot + word_of_nat (length buf)) (r\<lparr>rs_data := d\<rparr>)
        (w\<lparr>sk_data := sk_data w @ buf\<rparr>)"
  using assms by (subst relay_recv.simps) (simp add: read_frame_optional_bytes write_all_def)

lemma relay_recv_eof:
  "relay_recv pf cipher shut tot (r\<lparr>rs_data := [], rs_end := None\<rparr>) w = relay_finish shut tot w"
  by (subst relay_recv.simps)
    (simp add: read_frame_optional_def read_exact_def eof_error_def)

text \<open>Everything the sending task wrote is one stretch of frames the receiving task turns back.\<close>

lemma relay_send_recv:
  assumes "sha_ok pf" "aead_ok pf" "reads_ok pf secret reads" "sink_ok w" "sk_room v = None"
  shows "\<exists>d. relay_send pf (session_new pf secret) reads None None tot w
      = (Inr (tot + word_of_nat (length (plaintext reads))), w\<lparr>sk_data := sk_data w @ d\<rparr>) \<and>
    (\<forall>r x tot'. relay_recv pf (session_new pf secret) shut tot' (r\<lparr>rs_data := d @ x\<rparr>) v
      = relay_recv pf (session_new pf secret) shut (tot' + word_of_nat (length (plaintext reads)))
          (r\<lparr>rs_data := x\<rparr>) (v\<lparr>sk_data := sk_data v @ plaintext reads\<rparr>))"
  using assms(3-5)
proof (induction reads arbitrary: tot w v)
  case Nil
  then show ?case by (intro exI [of _ "[]"]) (simp add: relay_finish_def)
next
  case (Cons p reads)
  obtain nonce buf where p: "p = (nonce, buf)" by (cases p)
  with Cons.prems(1) obtain c
    where c: "session_encrypt pf (session_new pf secret) nonce buf = Inr c"
      "session_decrypt pf (session_new pf secret) c = Inr buf" "relay_wf c" "buf \<noteq> []"
      and rest: "reads_ok pf secret reads"
    using reads_ok_Cons [OF assms(1,2)] by metis
  let ?w = "w\<lparr>sk_data := sk_data w @ relay_bytes c\<rparr>" and ?v = "v\<lparr>sk_data := sk_data v @ buf\<rparr>"
  let ?t = "tot + word_of_nat (length buf)"
  have "sink_ok ?w" "sk_room ?v = None" using Cons.prems by simp_all
  from Cons.IH [OF rest this, of ?t] obtain d where d:
    "relay_send pf (session_new pf secret) reads None None ?t ?w
      = (Inr (?t + word_of_nat (length (plaintext reads))), ?w\<lparr>sk_data := sk_data ?w @ d\<rparr>)"
    "\<And>r x tot'. relay_recv pf (session_new pf secret) shut tot' (r\<lparr>rs_data := d @ x\<rparr>) ?v
      = relay_recv pf (session_new pf secret) shut (tot' + word_of_nat (length (plaintext reads)))
          (r\<lparr>rs_data := x\<rparr>) (?v\<lparr>sk_data := sk_data ?v @ plaintext reads\<rparr>)"
    by blast
  have "write_frame c w = (Inr (), ?w)" using c(3) Cons.prems(2) by (rule relay.wr_enc)
  with c d(1) p have "relay_send pf (session_new pf secret) (p # reads) None None tot w
      = (Inr (tot + word_of_nat (length (plaintext (p # reads)))),
         w\<lparr>sk_data := sk_data w @ relay_bytes c @ d\<rparr>)"
    by (simp add: add.assoc)
  moreover have "relay_recv pf (session_new pf secret) shut tot' (r\<lparr>rs_data := (relay_bytes c @ d) @ x\<rparr>) v
      = relay_recv pf (session_new pf secret) shut
          (tot' + word_of_nat (length (plaintext (p # reads))))
          (r\<lparr>rs_data := x\<rparr>) (v\<lparr>sk_data := sk_data v @ plaintext (p # reads)\<rparr>)" for r x tot'
    using relay_recv_frame [OF c(3,2) Cons.prems(3), where d = "d @ x"] d(2) p
    by (simp add: add.assoc)
  ultimately show ?case by blast
qed

text \<open>
  C22: One direction of the encrypted relay is the identity on the byte stream. If the sender reads
  the chunks \<open>reads\<close> and then end of file, and nothing fails, the sender puts frames on the work
  connection from which the receiver, holding the same secret, writes exactly the concatenation of
  the chunks to its local socket; both tasks return the number of plaintext bytes.
\<close>

theorem relay_stcp_end_to_end:
  assumes "sha_ok pf" "aead_ok pf" "reads_ok pf secret reads"
    and "sink_ok w" "sk_data w = []" "sk_room v = None"
  shows "\<exists>w'. relay_send pf (session_new pf secret) reads None None 0 w
      = (Inr (word_of_nat (length (plaintext reads))), w') \<and>
    relay_recv pf (session_new pf secret) None 0 \<lparr>rs_data = sk_data w', rs_end = None\<rparr> v
      = (Inr (word_of_nat (length (plaintext reads))), v\<lparr>sk_data := sk_data v @ plaintext reads\<rparr>)"
proof -
  from relay_send_recv [OF assms(1-4,6), of 0 None] obtain d where d:
    "relay_send pf (session_new pf secret) reads None None 0 w
      = (Inr (word_of_nat (length (plaintext reads))), w\<lparr>sk_data := d\<rparr>)"
    "\<And>r x tot'. relay_recv pf (session_new pf secret) None tot' (r\<lparr>rs_data := d @ x\<rparr>) v
      = relay_recv pf (session_new pf secret) None (tot' + word_of_nat (length (plaintext reads)))
          (r\<lparr>rs_data := x\<rparr>) (v\<lparr>sk_data := sk_data v @ plaintext reads\<rparr>)"
    using assms(5) by auto
  let ?r = "\<lparr>rs_data = [], rs_end = None\<rparr>"
  have "relay_recv pf (session_new pf secret) None 0 (?r\<lparr>rs_data := d @ []\<rparr>) v
      = relay_finish None (word_of_nat (length (plaintext reads)))
          (v\<lparr>sk_data := sk_data v @ plaintext reads\<rparr>)"
    using relay_recv_eof [where r = ?r] by (simp only: d(2)) simp
  with d(1) show ?thesis by (simp add: relay_finish_def)
qed

theorem relay_stcp_end_to_end_witness:
  "\<exists>w'. relay_send demo_platform (session_new demo_platform ''k'')
        [(replicate 12 1, [1, 2, 3]), (replicate 12 2, [4])] None None 0 demo_sink
      = (Inr 4, w') \<and>
    relay_recv demo_platform (session_new demo_platform ''k'') None 0
        \<lparr>rs_data = sk_data w', rs_end = None\<rparr> demo_sink
      = (Inr 4, demo_sink\<lparr>sk_data := [1, 2, 3, 4]\<rparr>)"
  using relay_stcp_end_to_end [OF demo_platform_ok, of "''k''"
      "[(replicate 12 1, [1, 2, 3]), (replicate 12 2, [4])]" demo_sink demo_sink]
  by (simp add: reads_ok_def demo_sink_def sink_ok_def demo_platform_def)

end
