(* ===== verification/Net.thy ===== *)
theory Net
  imports Prelude
begin

text \<open>
  Socket addresses as text: the parser and the printer of \<^verbatim>\<open>std::net\<close> that the program uses for
  endpoint addresses (\<^verbatim>\<open>str::parse::<SocketAddr>\<close>, \<^verbatim>\<open>str::parse::<IpAddr>\<close>, \<^verbatim>\<open>to_string\<close>). A parser
  takes the remaining text and returns a value with what is left; a failing parser consumes nothing.
\<close>

type_synonym 'a parser = "string \<Rightarrow> ('a \<times> string) option"

datatype ip_addr =
    V4 u8 u8 u8 u8
  | V6 "u16 list"

record socket_addr =
  sa_ip :: ip_addr
  sa_port :: u16

definition to_digit :: "nat \<Rightarrow> char \<Rightarrow> nat option" where
  "to_digit radix c =
     (let n = of_char c :: nat;
          d = (if 48 \<le> n \<and> n \<le> 57 then n - 48
               else if 97 \<le> n \<and> n \<le> 122 then n - 87
               else if 65 \<le> n \<and> n \<le> 90 then n - 55
               else radix)
      in if d < radix then Some d else None)"

definition is_digit :: "nat \<Rightarrow> char \<Rightarrow> bool" where
  "is_digit radix c \<longleftrightarrow> to_digit radix c \<noteq> None"

definition digits_value :: "nat \<Rightarrow> string \<Rightarrow> nat" where
  "digits_value radix ds = foldl (\<lambda>v c. v * radix + the (to_digit radix c)) 0 ds"

definition read_number :: "nat \<Rightarrow> nat option \<Rightarrow> bool \<Rightarrow> nat \<Rightarrow> nat parser" where
  "read_number radix max_digits allow_zero_prefix bound s =
     (let ds = takeWhile (is_digit radix) s;
          v = digits_value radix ds
      in if ds = [] then None
         else if (case max_digits of None \<Rightarrow> False | Some m \<Rightarrow> m < length ds) then None
         else if \<not> allow_zero_prefix \<and> hd ds = CHR ''0'' \<and> 1 < length ds then None
         else if bound < v then None
         else Some (v, dropWhile (is_digit radix) s))"

definition read_given_char :: "char \<Rightarrow> unit parser" where
  "read_given_char c s = (case s of [] \<Rightarrow> None | x # xs \<Rightarrow> if x = c then Some ((), xs) else None)"

definition read_separator :: "char \<Rightarrow> nat \<Rightarrow> 'a parser \<Rightarrow> 'a parser" where
  "read_separator sep index inner s =
     (if 0 < index
      then (case read_given_char sep s of None \<Rightarrow> None | Some (_, s') \<Rightarrow> inner s')
      else inner s)"

abbreviation read_octet :: "nat parser" where
  "read_octet \<equiv> read_number 10 (Some 3) False 255"

definition read_ipv4_addr :: "(nat \<times> nat \<times> nat \<times> nat) parser" where
  "read_ipv4_addr s =
     (case read_octet s of None \<Rightarrow> None | Some (a, s) \<Rightarrow>
      case read_separator CHR ''.'' 1 read_octet s of None \<Rightarrow> None | Some (b, s) \<Rightarrow>
      case read_separator CHR ''.'' 2 read_octet s of None \<Rightarrow> None | Some (c, s) \<Rightarrow>
      case read_separator CHR ''.'' 3 read_octet s of None \<Rightarrow> None | Some (d, s) \<Rightarrow>
      Some ((a, b, c, d), s))"

fun read_groups :: "nat \<Rightarrow> nat \<Rightarrow> string \<Rightarrow> nat list \<times> bool \<times> string" where
  "read_groups i 0 s = ([], False, s)"
| "read_groups i (Suc n) s =
     (case (if 0 < n then read_separator CHR '':'' i read_ipv4_addr s else None) of
        Some ((a, b, c, d), s') \<Rightarrow> ([a * 256 + b, c * 256 + d], True, s')
      | None \<Rightarrow>
          (case read_separator CHR '':'' i (read_number 16 (Some 4) True 65535) s of
             None \<Rightarrow> ([], False, s)
           | Some (g, s') \<Rightarrow> (let (gs, v4, rest) = read_groups (Suc i) n s' in (g # gs, v4, rest))))"

definition read_ipv6_addr :: "nat list parser" where
  "read_ipv6_addr s =
     (let (head, head_ipv4, s) = read_groups 0 8 s in
      if length head = 8 then Some (head, s)
      else if head_ipv4 then None
      else
        case read_given_char CHR '':'' s of None \<Rightarrow> None | Some (_, s) \<Rightarrow>
        case read_given_char CHR '':'' s of None \<Rightarrow> None | Some (_, s) \<Rightarrow>
        let (tail, _, s) = read_groups 0 (8 - (length head + 1)) s in
        Some (head @ replicate (8 - length head - length tail) 0 @ tail, s))"

definition read_port :: "nat parser" where
  "read_port s =
     (case read_given_char CHR '':'' s of
        None \<Rightarrow> None
      | Some (_, s) \<Rightarrow> read_number 10 None True 65535 s)"

definition of_octets :: "nat \<times> nat \<times> nat \<times> nat \<Rightarrow> ip_addr" where
  "of_octets = (\<lambda>(a, b, c, d). V4 (word_of_nat a) (word_of_nat b) (word_of_nat c) (word_of_nat d))"

definition of_groups :: "nat list \<Rightarrow> ip_addr" where
  "of_groups gs = V6 (map word_of_nat gs)"

definition read_socket_addr_v4 :: "socket_addr parser" where
  "read_socket_addr_v4 s =
     (case read_ipv4_addr s of None \<Rightarrow> None | Some (ip, s) \<Rightarrow>
      case read_port s of None \<Rightarrow> None | Some (port, s) \<Rightarrow>
      Some (\<lparr>sa_ip = of_octets ip, sa_port = word_of_nat port\<rparr>, s))"

text \<open>A scope id (\<^verbatim>\<open>%n\<close>) is accepted; the program never looks at it.\<close>

definition read_scope_id :: "nat parser" where
  "read_scope_id s =
     (case read_given_char CHR ''%'' s of
        None \<Rightarrow> None
      | Some (_, s) \<Rightarrow> read_number 10 None True (2 ^ 32 - 1) s)"

definition read_socket_addr_v6 :: "socket_addr parser" where
  "read_socket_addr_v6 s =
     (case read_given_char CHR ''['' s of None \<Rightarrow> None | Some (_, s) \<Rightarrow>
      case read_ipv6_addr s of None \<Rightarrow> None | Some (ip, s) \<Rightarrow>
      let s = (case read_scope_id s of None \<Rightarrow> s | Some (_, s') \<Rightarrow> s') in
      case read_given_char CHR '']'' s of None \<Rightarrow> None | Some (_, s) \<Rightarrow>
      case read_port s of None \<Rightarrow> None | Some (port, s) \<Rightarrow>
      Some (\<lparr>sa_ip = of_groups ip, sa_port = word_of_nat port\<rparr>, s))"

definition parse_socket_addr :: "string \<Rightarrow> socket_addr option" where
  "parse_socket_addr s =
     (case (case read_socket_addr_v4 s of Some x \<Rightarrow> Some x | None \<Rightarrow> read_socket_addr_v6 s) of
        Some (sa, []) \<Rightarrow> Some sa
      | _ \<Rightarrow> None)"

definition parse_ip_addr :: "string \<Rightarrow> ip_addr option" where
  "parse_ip_addr s =
     (case (case read_ipv4_addr s of
              Some (ip, s') \<Rightarrow> Some (of_octets ip, s')
            | None \<Rightarrow> (case read_ipv6_addr s of Some (ip, s') \<Rightarrow> Some (of_groups ip, s') | None \<Rightarrow> None)) of
        Some (ip, []) \<Rightarrow> Some ip
      | _ \<Rightarrow> None)"

fun is_unspecified :: "ip_addr \<Rightarrow> bool" where
  "is_unspecified (V4 a b c d) = (a = 0 \<and> b = 0 \<and> c = 0 \<and> d = 0)"
| "is_unspecified (V6 gs) = (gs = replicate 8 0)"

fun is_loopback :: "ip_addr \<Rightarrow> bool" where
  "is_loopback (V4 a b c d) = (a = 127)"
| "is_loopback (V6 gs) = (gs = replicate 7 0 @ [1])"

subsection \<open>Printing\<close>

function show_hex :: "nat \<Rightarrow> string" where
  "show_hex n =
     (if n < 16 then [if n < 10 then char_of (48 + n) else char_of (87 + n)]
      else show_hex (n div 16) @ [if n mod 16 < 10 then char_of (48 + n mod 16) else char_of (87 + n mod 16)])"
  by pat_completeness auto
termination
  by (relation "measure id") auto

declare show_hex.simps [simp del]

fun sep_by :: "string \<Rightarrow> string list \<Rightarrow> string" where
  "sep_by sep [] = []"
| "sep_by sep [x] = x"
| "sep_by sep (x # y # ys) = x @ sep @ sep_by sep (y # ys)"

definition show_octets :: "u8 \<Rightarrow> u8 \<Rightarrow> u8 \<Rightarrow> u8 \<Rightarrow> string" where
  "show_octets a b c d =
     show_nat (unat a) @ ''.'' @ show_nat (unat b) @ ''.'' @ show_nat (unat c) @ ''.''
     @ show_nat (unat d)"

text \<open>The longest run of zero groups, the first one of that length: (start, length).\<close>

fun zero_span :: "nat \<Rightarrow> u16 list \<Rightarrow> nat \<times> nat \<Rightarrow> nat \<times> nat \<Rightarrow> nat \<times> nat" where
  "zero_span i [] cur longest = longest"
| "zero_span i (g # gs) (start, len) longest =
     (if g = 0 then
        (let cur = (if len = 0 then i else start, len + 1) in
         zero_span (i + 1) gs cur (if snd longest < snd cur then cur else longest))
      else zero_span (i + 1) gs (0, 0) longest)"

definition show_groups :: "u16 list \<Rightarrow> string" where
  "show_groups gs = sep_by '':'' (map (\<lambda>g. show_hex (unat g)) gs)"

definition show_v6 :: "u16 list \<Rightarrow> string" where
  "show_v6 gs =
     (if take 6 gs = [0, 0, 0, 0, 0, 0xFFFF] \<and> length gs = 8 then
        let g = unat (gs ! 6); h = unat (gs ! 7) in
        ''::ffff:'' @ show_nat (g div 256) @ ''.'' @ show_nat (g mod 256) @ ''.''
          @ show_nat (h div 256) @ ''.'' @ show_nat (h mod 256)
      else
        let (start, len) = zero_span 0 gs (0, 0) (0, 0) in
        if 1 < len then show_groups (take start gs) @ ''::'' @ show_groups (drop (start + len) gs)
        else show_groups gs)"

fun show_ip_port :: "ip_addr \<Rightarrow> u16 \<Rightarrow> string" where
  "show_ip_port (V4 a b c d) port = show_octets a b c d @ '':'' @ show_nat (unat port)"
| "show_ip_port (V6 gs) port = ''['' @ show_v6 gs @ '']:'' @ show_nat (unat port)"

definition show_socket_addr :: "socket_addr \<Rightarrow> string" where
  "show_socket_addr sa = show_ip_port (sa_ip sa) (sa_port sa)"

subsection \<open>Printed IPv4 addresses parse back\<close>

lemma to_digit_10_iff: "is_digit 10 c \<longleftrightarrow> 48 \<le> (of_char c :: nat) \<and> (of_char c :: nat) < 58"
  by (auto simp: is_digit_def to_digit_def Let_def)

lemma show_nat_digit: "c \<in> set (show_nat n) \<Longrightarrow> is_digit 10 c"
  unfolding to_digit_10_iff by (rule show_nat_chars)

lemma to_digit_digit_char [simp]: "d < 10 \<Longrightarrow> to_digit 10 (digit_char d) = Some d"
  by (simp add: to_digit_def digit_char_def)

lemma digits_value_snoc:
  "digits_value radix (ds @ [c]) = digits_value radix ds * radix + the (to_digit radix c)"
  by (simp add: digits_value_def)

lemma digits_value_show_nat [simp]: "digits_value 10 (show_nat n) = n"
proof (induction n rule: show_nat.induct)
  case (1 n)
  show ?case
  proof (cases "n < 10")
    case True
    then show ?thesis by (simp add: show_nat.simps [of n] digits_value_def)
  next
    case False
    then have "show_nat n = show_nat (n div 10) @ [digit_char (n mod 10)]"
      by (simp add: show_nat.simps [of n])
    with 1 [OF False] show ?thesis by (simp add: digits_value_snoc)
  qed
qed

lemma show_nat_not_Nil [simp]: "show_nat n \<noteq> []"
  by (simp add: show_nat.simps [of n])

lemma show_nat_leading_zero: "hd (show_nat n) = CHR ''0'' \<Longrightarrow> n = 0"
proof (induction n rule: show_nat.induct)
  case (1 n)
  show ?case
  proof (cases "n < 10")
    case True
    with 1(2) have "of_char (digit_char n) = (48 :: nat)" by (simp add: show_nat.simps [of n])
    with True show ?thesis by (simp add: digit_char_def)
  next
    case False
    with 1(2) have "hd (show_nat (n div 10)) = CHR ''0''" by (simp add: show_nat.simps [of n])
    with 1(1) [OF False] False show ?thesis by simp
  qed
qed

lemma length_show_nat: "n < 10 ^ k \<Longrightarrow> 0 < k \<Longrightarrow> length (show_nat n) \<le> k"
proof (induction k arbitrary: n)
  case (Suc k)
  show ?case
  proof (cases "n < 10")
    case True
    then show ?thesis by (simp add: show_nat.simps [of n])
  next
    case False
    with Suc.prems have "0 < k" "n div 10 < 10 ^ k" by (auto intro: gr0I)
    with Suc.IH [of "n div 10"] False show ?thesis by (simp add: show_nat.simps [of n])
  qed
qed simp

text \<open>What stops a number: the end of the text or a character that is not a digit.\<close>

definition stops :: "string \<Rightarrow> bool" where
  "stops s \<longleftrightarrow> (case s of [] \<Rightarrow> True | c # _ \<Rightarrow> \<not> is_digit 10 c)"

lemma stops_simps [simp]:
  "stops []" "stops (CHR ''.'' # s)" "stops (CHR '':'' # s)"
  by (simp_all add: stops_def to_digit_10_iff)

lemma span_show_nat:
  assumes "stops s"
  shows "takeWhile (is_digit 10) (show_nat n @ s) = show_nat n"
    and "dropWhile (is_digit 10) (show_nat n @ s) = s"
proof -
  have "takeWhile (is_digit 10) s = []" "dropWhile (is_digit 10) s = s"
    using assms by (cases s; simp add: stops_def)+
  then show "takeWhile (is_digit 10) (show_nat n @ s) = show_nat n"
    and "dropWhile (is_digit 10) (show_nat n @ s) = s"
    using show_nat_digit by (simp_all add: takeWhile_append2 dropWhile_append2)
qed

lemma read_octet_show:
  assumes "n < 256" "stops s"
  shows "read_octet (show_nat n @ s) = Some (n, s)"
proof -
  have "length (show_nat n) \<le> 3" using assms(1) by (intro length_show_nat) auto
  moreover have "\<not> (hd (show_nat n) = CHR ''0'' \<and> 1 < length (show_nat n))"
    using show_nat_leading_zero [of n] by (auto simp: show_nat.simps [of 0])
  ultimately show ?thesis
    using assms by (auto simp: read_number_def Let_def span_show_nat)
qed

lemma read_port_show:
  "n < 65536 \<Longrightarrow> stops s \<Longrightarrow> read_port (CHR '':'' # show_nat n @ s) = Some (n, s)"
  by (simp add: read_port_def read_given_char_def read_number_def Let_def span_show_nat)

lemma unat_u8_less [simp]: "unat (x :: u8) < 256"
  using unsigned_less [of x, where ?'a = nat] by simp

lemma unat_u16_less [simp]: "unat (x :: u16) < 65536"
  using unsigned_less [of x, where ?'a = nat] by simp

lemma read_ipv4_show:
  "stops s \<Longrightarrow> read_ipv4_addr (show_octets a b c d @ s) = Some ((unat a, unat b, unat c, unat d), s)"
  by (simp add: read_ipv4_addr_def show_octets_def read_separator_def read_given_char_def
      read_octet_show)

lemma parse_show_v4:
  "parse_socket_addr (show_ip_port (V4 a b c d) port) = Some \<lparr>sa_ip = V4 a b c d, sa_port = port\<rparr>"
  by (simp add: parse_socket_addr_def read_socket_addr_v4_def read_ipv4_show
      read_port_show [where s = "[]", simplified] of_octets_def)

end
