(* ===== verification/Settings.thy ===== *)
theory Settings
  imports Messages Net
begin

text \<open>
  \<^verbatim>\<open>arp-common/src/config/mod.rs\<close>: the configuration structures with their field defaults and the
  validation that server and client run before they start. Reading the file and parsing TOML are
  arguments; what a missing field or a missing section means is modelled.
\<close>

datatype proxy_type = Tcp | Http | Https | Udp | Stcp | Sudp | Xtcp

fun proxy_type_name :: "proxy_type \<Rightarrow> string" where
  "proxy_type_name Tcp = ''tcp''"
| "proxy_type_name Http = ''http''"
| "proxy_type_name Https = ''https''"
| "proxy_type_name Udp = ''udp''"
| "proxy_type_name Stcp = ''stcp''"
| "proxy_type_name Sudp = ''sudp''"
| "proxy_type_name Xtcp = ''xtcp''"

datatype transport_protocol = TpTcp | TpKcp | TpQuic | TpWebsocket

fun transport_protocol_name :: "transport_protocol \<Rightarrow> string" where
  "transport_protocol_name TpTcp = ''tcp''"
| "transport_protocol_name TpKcp = ''kcp''"
| "transport_protocol_name TpQuic = ''quic''"
| "transport_protocol_name TpWebsocket = ''websocket''"

record port_range =
  pr_start :: u16
  pr_end :: u16
  pr_single :: u16

record auth_rule =
  ar_token :: string
  ar_allow_proxy_types :: "string list"
  ar_allow_ports :: "port_range list"
  ar_allow_domain_suffixes :: "string list"
  ar_allow_subdomain_prefixes :: "string list"
  ar_max_pool_count :: u32
  ar_max_connections :: u32
  ar_bandwidth_limit_bytes :: u64

record oidc_config =
  oi_client_id :: string
  oi_client_secret :: string
  oi_audience :: string
  oi_issuer :: string
  oi_token_endpoint_url :: string

record auth_config =
  ac_method :: string
  ac_token :: string
  ac_additional_tokens :: "string list"
  ac_rules :: "auth_rule list"
  ac_oidc :: oidc_config

record tls_config =
  tl_enable :: bool
  tl_cert_file :: string
  tl_key_file :: string
  tl_trusted_ca_file :: string
  tl_server_name :: string

record transport_config =
  tr_protocol :: transport_protocol
  tr_tcp_mux :: bool
  tr_tcp_mux_keepalive_interval :: u64
  tr_pool_count :: u32
  tr_heartbeat_interval :: u64
  tr_heartbeat_timeout :: u64
  tr_tls :: tls_config

record server_config =
  srv_bind_addr :: string
  srv_bind_port :: u16
  srv_kcp_bind_port :: u16
  srv_quic_bind_port :: u16
  srv_vhost_http_port :: u16
  srv_vhost_https_port :: u16
  srv_dashboard_addr :: string
  srv_dashboard_port :: u16
  srv_dashboard_user :: string
  srv_dashboard_pwd :: string
  srv_log_level :: string
  srv_log_file :: string
  srv_log_max_days :: u32
  srv_auth :: auth_config
  srv_transport :: transport_config
  srv_allow_ports :: "port_range list"
  srv_max_pool_count :: u32
  srv_max_ports_per_client :: u32
  srv_subdomain_host :: string
  srv_tcp_mux :: bool
  srv_custom :: "string \<rightharpoonup> json"

record health_check_config =
  hc_enable :: bool
  hc_check_type :: string
  hc_timeout_seconds :: u64
  hc_max_failed :: u32
  hc_interval_seconds :: u64
  hc_path :: string

record load_balancer_config =
  lb_group :: string
  lb_group_key :: string

record plugin_config =
  pl_plugin_type :: string
  pl_plugin_params :: "string \<rightharpoonup> string"

record proxy_config =
  pc_name :: string
  pc_proxy_type :: proxy_type
  pc_local_ip :: string
  pc_local_port :: u16
  pc_remote_port :: u16
  pc_use_encryption :: bool
  pc_use_compression :: bool
  pc_custom_domains :: "string list"
  pc_subdomain :: string
  pc_locations :: "string list"
  pc_host_header_rewrite :: string
  pc_http_user :: string
  pc_http_pwd :: string
  pc_sk :: string
  pc_fallback_to_relay :: bool
  pc_multiplexer :: string
  pc_bandwidth_limit :: string
  pc_bandwidth_limit_mode :: string
  pc_health_check :: health_check_config
  pc_load_balancer :: load_balancer_config
  pc_plugin :: plugin_config

record visitor_config =
  vc_name :: string
  vc_visitor_type :: string
  vc_server_name :: string
  vc_sk :: string
  vc_bind_addr :: string
  vc_bind_port :: u16
  vc_fallback_to_relay :: bool
  vc_xtcp_punch_timeout_secs :: u64

record client_config =
  cli_server_addr :: string
  cli_server_port :: u16
  cli_client_id :: string
  cli_log_level :: string
  cli_log_file :: string
  cli_log_max_days :: u32
  cli_auth :: auth_config
  cli_transport :: transport_config
  cli_admin_addr :: string
  cli_admin_port :: u16
  cli_admin_user :: string
  cli_admin_pwd :: string
  cli_proxies :: "proxy_config list"
  cli_visitors :: "visitor_config list"

subsection \<open>Defaults\<close>

definition tls_default :: tls_config where
  "tls_default = \<lparr>tl_enable = False, tl_cert_file = [], tl_key_file = [], tl_trusted_ca_file = [],
     tl_server_name = []\<rparr>"

definition oidc_default :: oidc_config where
  "oidc_default = \<lparr>oi_client_id = [], oi_client_secret = [], oi_audience = [], oi_issuer = [],
     oi_token_endpoint_url = []\<rparr>"

text \<open>\<^verbatim>\<open>impl Default for TransportConfig\<close>: used when the section is absent.\<close>

definition transport_default :: transport_config where
  "transport_default =
     \<lparr>tr_protocol = TpTcp, tr_tcp_mux = True, tr_tcp_mux_keepalive_interval = 60, tr_pool_count = 1,
      tr_heartbeat_interval = 30, tr_heartbeat_timeout = 90, tr_tls = tls_default\<rparr>"

text \<open>
  A section of the file: \<open>None\<close> for a key that is not there. The \<^verbatim>\<open>#[serde(default)]\<close> of a field is
  the default of its type, not the value the \<^verbatim>\<open>Default\<close> implementation of the structure gives it.
\<close>

record transport_section =
  ts_protocol :: "transport_protocol option"
  ts_tcp_mux :: "bool option"
  ts_tcp_mux_keepalive_interval :: "u64 option"
  ts_pool_count :: "u32 option"
  ts_heartbeat_interval :: "u64 option"
  ts_heartbeat_timeout :: "u64 option"
  ts_tls :: "tls_config option"

definition or_default :: "'a option \<Rightarrow> 'a \<Rightarrow> 'a" where
  "or_default x d = (case x of None \<Rightarrow> d | Some v \<Rightarrow> v)"

definition load_transport :: "transport_section option \<Rightarrow> transport_config" where
  "load_transport sec =
     (case sec of
        None \<Rightarrow> transport_default
      | Some s \<Rightarrow>
          \<lparr>tr_protocol = or_default (ts_protocol s) TpTcp,
           tr_tcp_mux = or_default (ts_tcp_mux s) True,
           tr_tcp_mux_keepalive_interval = or_default (ts_tcp_mux_keepalive_interval s) 0,
           tr_pool_count = or_default (ts_pool_count s) 0,
           tr_heartbeat_interval = or_default (ts_heartbeat_interval s) 0,
           tr_heartbeat_timeout = or_default (ts_heartbeat_timeout s) 0,
           tr_tls = or_default (ts_tls s) tls_default\<rparr>)"

record auth_section =
  as_method :: "string option"
  as_token :: "string option"
  as_additional_tokens :: "string list option"
  as_rules :: "auth_rule list option"
  as_oidc :: "oidc_config option"

definition load_auth :: "auth_section option \<Rightarrow> auth_config" where
  "load_auth sec =
     (case sec of
        None \<Rightarrow> \<lparr>ac_method = [], ac_token = [], ac_additional_tokens = [], ac_rules = [],
                 ac_oidc = oidc_default\<rparr>
      | Some s \<Rightarrow>
          \<lparr>ac_method = or_default (as_method s) ''token'',
           ac_token = or_default (as_token s) [],
           ac_additional_tokens = or_default (as_additional_tokens s) [],
           ac_rules = or_default (as_rules s) [],
           ac_oidc = or_default (as_oidc s) oidc_default\<rparr>)"

definition config_from_file ::
  "(string \<Rightarrow> string + string) \<Rightarrow> (string \<Rightarrow> string + 'c) \<Rightarrow> string \<Rightarrow> 'c result" where
  "config_from_file read_to_string from_toml path =
     (case read_to_string path of
        Inl e \<Rightarrow> Inl (Config (''Failed to read config file: '' @ e))
      | Inr content \<Rightarrow>
          (case from_toml content of
             Inl e \<Rightarrow> Inl (Config (''Failed to parse config: '' @ e))
           | Inr c \<Rightarrow> Inr c))"

subsection \<open>Validation\<close>

fun validate_rules :: "nat \<Rightarrow> auth_rule list \<Rightarrow> unit result" where
  "validate_rules idx [] = Inr ()"
| "validate_rules idx (rule # rules) =
     (if trim (ar_token rule) = []
      then Inl (Config (''auth.rules['' @ show_nat idx @ ''].token cannot be empty''))
      else validate_rules (idx + 1) rules)"

definition auth_validate :: "auth_config \<Rightarrow> unit result" where
  "auth_validate c =
     (if ac_method c = ''token'' then
        if trim (ac_token c) = [] \<and> ac_additional_tokens c = [] \<and> ac_rules c = []
        then Inl (Config ''token auth requires token, additional_tokens, or rules'')
        else validate_rules 0 (ac_rules c)
      else Inl (Config (''unsupported auth.method: '' @ ac_method c)))"

definition server_validate :: "server_config \<Rightarrow> unit result" where
  "server_validate c =
     (let tr = srv_transport c; tls = tr_tls tr in
      if srv_bind_port c = 0 then Inl (Config ''bind_port cannot be 0'')
      else
        case auth_validate (srv_auth c) of
          Inl e \<Rightarrow> Inl e
        | Inr _ \<Rightarrow>
            if tr_protocol tr = TpQuic \<and> (tl_cert_file tls = [] \<or> tl_key_file tls = [])
            then Inl (Config ''quic transport requires transport.tls.cert_file and transport.tls.key_file'')
            else if tr_protocol tr = TpWebsocket \<and> tl_enable tls
              \<and> (tl_cert_file tls = [] \<or> tl_key_file tls = [])
            then Inl (Config ''websocket + tls requires transport.tls.cert_file and transport.tls.key_file'')
            else Inr ())"

definition proxy_validate :: "proxy_config \<Rightarrow> unit result" where
  "proxy_validate p =
     (if pc_name p = [] then Inl (Config ''proxy name cannot be empty'')
      else if pc_local_port p = 0 then
        Inl (Config (''proxy '' @ pc_name p @ '' local_port cannot be 0''))
      else if (pc_proxy_type p = Http \<or> pc_proxy_type p = Https)
        \<and> pc_custom_domains p = [] \<and> trim (pc_subdomain p) = [] then
        Inl (Config (''proxy '' @ pc_name p @ '' of type '' @ proxy_type_name (pc_proxy_type p)
               @ '' requires custom_domains or subdomain''))
      else if pc_use_encryption p \<and> trim (pc_sk p) = [] then
        Inl (Config (''proxy '' @ pc_name p @ '' enables encryption but sk is empty''))
      else if pc_proxy_type p \<in> {Stcp, Sudp, Xtcp} \<and> trim (pc_sk p) = [] then
        Inl (Config (''proxy '' @ pc_name p @ '' of type '' @ proxy_type_name (pc_proxy_type p)
               @ '' requires sk''))
      else Inr ())"

fun validate_proxies :: "proxy_config list \<Rightarrow> unit result" where
  "validate_proxies [] = Inr ()"
| "validate_proxies (p # ps) =
     (case proxy_validate p of Inl e \<Rightarrow> Inl e | Inr _ \<Rightarrow> validate_proxies ps)"

definition client_validate :: "client_config \<Rightarrow> unit result" where
  "client_validate c =
     (let tls = tr_tls (cli_transport c);
          proto = tr_protocol (cli_transport c);
          proto_label = (if proto = TpWebsocket then ''websocket + tls''
                         else transport_protocol_name proto)
      in
      if cli_server_addr c = [] then Inl (Config ''server_addr cannot be empty'')
      else
        case auth_validate (cli_auth c) of
          Inl e \<Rightarrow> Inl e
        | Inr _ \<Rightarrow>
            if cli_server_port c = 0 then Inl (Config ''server_port cannot be 0'')
            else if (proto = TpQuic \<or> (proto = TpWebsocket \<and> tl_enable tls)
                \<or> (proto = TpTcp \<and> tl_enable tls)) \<and> trim (tl_trusted_ca_file tls) = []
            then Inl (Config (proto_label @ '' transport requires transport.tls.trusted_ca_file''))
            else if (proto = TpQuic \<or> (proto = TpWebsocket \<and> tl_enable tls))
                \<and> parse_ip_addr (cli_server_addr c) \<noteq> None \<and> trim (tl_server_name tls) = []
            then Inl (Config (proto_label
                   @ '' transport with IP server_addr requires transport.tls.server_name''))
            else validate_proxies (cli_proxies c))"

subsection \<open>What validation accepts\<close>

lemma validate_rules_Inr:
  "validate_rules i rules = Inr () \<longleftrightarrow> list_all (\<lambda>r. trim (ar_token r) \<noteq> []) rules"
  by (induction i rules rule: validate_rules.induct) auto

lemma validate_proxies_Inr:
  "validate_proxies ps = Inr () \<longleftrightarrow> list_all (\<lambda>p. proxy_validate p = Inr ()) ps"
  by (induction ps) (auto split: sum.splits)

definition auth_acceptable :: "auth_config \<Rightarrow> bool" where
  "auth_acceptable c \<longleftrightarrow> ac_method c = ''token'' \<and>
     (trim (ac_token c) \<noteq> [] \<or> ac_additional_tokens c \<noteq> [] \<or> ac_rules c \<noteq> []) \<and>
     list_all (\<lambda>r. trim (ar_token r) \<noteq> []) (ac_rules c)"

lemma auth_validate_Inr: "auth_validate c = Inr () \<longleftrightarrow> auth_acceptable c"
  by (auto simp: auth_validate_def auth_acceptable_def validate_rules_Inr)

definition proxy_acceptable :: "proxy_config \<Rightarrow> bool" where
  "proxy_acceptable p \<longleftrightarrow> pc_name p \<noteq> [] \<and> pc_local_port p \<noteq> 0 \<and>
     (pc_proxy_type p \<in> {Http, Https} \<longrightarrow> pc_custom_domains p \<noteq> [] \<or> trim (pc_subdomain p) \<noteq> []) \<and>
     (pc_use_encryption p \<or> pc_proxy_type p \<in> {Stcp, Sudp, Xtcp} \<longrightarrow> trim (pc_sk p) \<noteq> [])"

lemma proxy_validate_Inr: "proxy_validate p = Inr () \<longleftrightarrow> proxy_acceptable p"
  by (auto simp: proxy_validate_def proxy_acceptable_def)

text \<open>
  A client configuration passes validation exactly when it can be used: the server address and
  port are set, there is a credential and no rule with a blank token, every transport that verifies
  a certificate has a CA file (and a server name to verify when the server is given as an IP address
  over QUIC or secure WebSocket), and every proxy has a name, a local port, a domain if it is
  routed by host name, and a secret key if its traffic is encrypted.
\<close>

theorem client_validate_exact:
  "client_validate c = Inr () \<longleftrightarrow>
     (let tls = tr_tls (cli_transport c); proto = tr_protocol (cli_transport c);
          named = (proto = TpQuic \<or> proto = TpWebsocket \<and> tl_enable tls)
      in cli_server_addr c \<noteq> [] \<and> cli_server_port c \<noteq> 0 \<and> auth_acceptable (cli_auth c) \<and>
         (named \<or> proto = TpTcp \<and> tl_enable tls \<longrightarrow> trim (tl_trusted_ca_file tls) \<noteq> []) \<and>
         (named \<and> parse_ip_addr (cli_server_addr c) \<noteq> None \<longrightarrow> trim (tl_server_name tls) \<noteq> []) \<and>
         list_all proxy_acceptable (cli_proxies c))"
proof (cases "auth_validate (cli_auth c)")
  case (Inl e)
  then have "\<not> auth_acceptable (cli_auth c)" by (simp flip: auth_validate_Inr)
  with Inl show ?thesis by (simp add: client_validate_def Let_def)
next
  case (Inr u)
  then have "auth_acceptable (cli_auth c)" by (simp flip: auth_validate_Inr)
  with Inr show ?thesis
    by (auto simp: client_validate_def Let_def validate_proxies_Inr proxy_validate_Inr
        split: if_splits)
qed

definition demo_client_config :: client_config where
  "demo_client_config =
     \<lparr>cli_server_addr = ''proxy.example'', cli_server_port = 7000, cli_client_id = [],
      cli_log_level = [], cli_log_file = [], cli_log_max_days = 1,
      cli_auth = \<lparr>ac_method = ''token'', ac_token = ''t'', ac_additional_tokens = [], ac_rules = [],
        ac_oidc = oidc_default\<rparr>,
      cli_transport = transport_default, cli_admin_addr = [], cli_admin_port = 0,
      cli_admin_user = [], cli_admin_pwd = [], cli_proxies = [], cli_visitors = []\<rparr>"

theorem client_validate_exact_witness:
  "client_validate demo_client_config = Inr () \<and>
   client_validate (demo_client_config
     \<lparr>cli_transport := transport_default\<lparr>tr_tls := tls_default\<lparr>tl_enable := True\<rparr>\<rparr>\<rparr>) \<noteq> Inr ()"
  unfolding client_validate_exact
  by (simp add: demo_client_config_def transport_default_def tls_default_def auth_acceptable_def
      trim_visible visible_def ws_seqs_def)

text \<open>
  A file with a transport section that does not mention the pool size gets no warm work
  connections, and heartbeat settings of zero, where a file without the section gets one connection
  and the documented 30 and 90 seconds.
\<close>

theorem transport_section_changes_defaults:
  "tr_pool_count (load_transport None) = 1 \<and> tr_heartbeat_interval (load_transport None) = 30 \<and>
   tr_heartbeat_timeout (load_transport None) = 90 \<and>
   load_transport (Some \<lparr>ts_protocol = Some TpTcp, ts_tcp_mux = Some True,
       ts_tcp_mux_keepalive_interval = None, ts_pool_count = None, ts_heartbeat_interval = None,
       ts_heartbeat_timeout = None, ts_tls = None\<rparr>)
     = (load_transport None)\<lparr>tr_tcp_mux_keepalive_interval := 0, tr_pool_count := 0,
          tr_heartbeat_interval := 0, tr_heartbeat_timeout := 0\<rparr>"
  by (simp add: load_transport_def or_default_def transport_default_def)

end
