(* ===== verification/Authentication.thy ===== *)
theory Authentication
  imports Settings Crypto
begin

text \<open>
  \<^verbatim>\<open>arp-common/src/auth/mod.rs\<close>: token authentication. A login proves knowledge of a configured
  token by an HMAC over its timestamp; the matched token is kept with the session and selects the
  rule that restricts the proxies the client may open. Wall-clock time is an argument. The locale
  \<open>authenticator\<close> is the trait's contract, interpreted for \<^verbatim>\<open>TokenAuth\<close>.
\<close>

definition max_timestamp_skew :: i64 where
  "max_timestamp_skew = 300"

record token_auth =
  ta_token :: string
  ta_additional_tokens :: "string list"
  ta_rules :: "auth_rule list"

definition token_auth_new :: "auth_config \<Rightarrow> token_auth" where
  "token_auth_new c =
     \<lparr>ta_token = ac_token c, ta_additional_tokens = ac_additional_tokens c, ta_rules = ac_rules c\<rparr>"

fun find_signer :: "platform \<Rightarrow> string \<Rightarrow> string \<Rightarrow> string list \<Rightarrow> string option" where
  "find_signer pf message signature [] = None"
| "find_signer pf message signature (t # ts) =
     (if verify pf t message signature then Some t else find_signer pf message signature ts)"

definition find_matching_token :: "platform \<Rightarrow> token_auth \<Rightarrow> string \<Rightarrow> string \<Rightarrow> string option" where
  "find_matching_token pf a signature message =
     (if verify pf (ta_token a) message signature then Some (ta_token a)
      else
        case find_signer pf message signature (ta_additional_tokens a) of
          Some t \<Rightarrow> Some t
        | None \<Rightarrow> find_signer pf message signature (map ar_token (ta_rules a)))"

definition matching_rule :: "token_auth \<Rightarrow> string \<Rightarrow> auth_rule option" where
  "matching_rule a token = find (\<lambda>rule. ar_token rule = token) (ta_rules a)"

definition check_timestamp :: "i64 \<Rightarrow> i64 \<Rightarrow> unit result" where
  "check_timestamp now ts =
     (if sint (i64_abs (now - ts)) > sint max_timestamp_skew then
        Inl (Auth (''timestamp skew too large: client='' @ show_int (sint ts) @ '', server=''
               @ show_int (sint now) @ '', diff='' @ show_int (sint (i64_abs (now - ts)))
               @ ''s, max='' @ show_int (sint max_timestamp_skew) @ ''s''))
      else Inr ())"

definition validate_rule_login :: "auth_rule \<Rightarrow> login_msg \<Rightarrow> unit result" where
  "validate_rule_login rule msg =
     (if ar_max_pool_count rule > 0 \<and> lg_pool_count msg > ar_max_pool_count rule then
        Inl (Auth (''pool_count '' @ show_nat (unat (lg_pool_count msg))
               @ '' exceeds token rule max_pool_count '' @ show_nat (unat (ar_max_pool_count rule))))
      else Inr ())"

definition port_in_ranges :: "u16 \<Rightarrow> port_range list \<Rightarrow> bool" where
  "port_in_ranges port ranges =
     list_ex (\<lambda>range. if pr_single range > 0 then port = pr_single range
                      else pr_start range \<le> port \<and> port \<le> pr_end range) ranges"

definition auth_normalize_host :: "platform \<Rightarrow> string \<Rightarrow> string" where
  "auth_normalize_host pf host = to_lowercase pf (trim_end_matches CHR ''.'' (trim host))"

fun check_domains :: "platform \<Rightarrow> string list \<Rightarrow> string list \<Rightarrow> unit result" where
  "check_domains pf allowed [] = Inr ()"
| "check_domains pf allowed (domain # domains) =
     (let normalized = auth_normalize_host pf domain in
      if \<not> list_ex (\<lambda>sfx. ends_with normalized (auth_normalize_host pf sfx)) allowed
      then Inl (Auth (''domain '' @ domain @ '' is not allowed for this token''))
      else check_domains pf allowed domains)"

definition validate_rule_proxy ::
  "platform \<Rightarrow> auth_rule \<Rightarrow> u32 \<Rightarrow> new_proxy_msg \<Rightarrow> unit result" where
  "validate_rule_proxy pf rule pool_count msg =
     (if ar_max_pool_count rule > 0 \<and> pool_count > ar_max_pool_count rule then
        Inl (Auth (''pool_count '' @ show_nat (unat pool_count)
               @ '' exceeds token rule max_pool_count '' @ show_nat (unat (ar_max_pool_count rule))))
      else if ar_allow_proxy_types rule \<noteq> []
        \<and> \<not> list_ex (\<lambda>item. eq_ignore_ascii_case item (np_proxy_type msg)) (ar_allow_proxy_types rule)
      then Inl (Auth (''proxy type '' @ np_proxy_type msg @ '' is not allowed for this token''))
      else if ar_allow_ports rule \<noteq> [] \<and> np_remote_port msg = 0 then
        Inl (Auth ''this token rule requires a fixed remote_port within allowed ranges'')
      else if ar_allow_ports rule \<noteq> [] \<and> \<not> port_in_ranges (np_remote_port msg) (ar_allow_ports rule)
      then Inl (Auth (''remote_port '' @ show_nat (unat (np_remote_port msg))
                  @ '' is not allowed for this token''))
      else
        case (if ar_allow_domain_suffixes rule \<noteq> []
              then check_domains pf (ar_allow_domain_suffixes rule) (np_custom_domains msg)
              else Inr ()) of
          Inl e \<Rightarrow> Inl e
        | Inr _ \<Rightarrow>
            if trim (np_subdomain msg) \<noteq> [] \<and> ar_allow_subdomain_prefixes rule \<noteq> []
              \<and> \<not> list_ex (\<lambda>p. starts_with (to_lowercase pf (trim (np_subdomain msg)))
                                 (to_lowercase pf (trim p))) (ar_allow_subdomain_prefixes rule)
            then Inl (Auth (''subdomain '' @ np_subdomain msg @ '' is not allowed for this token''))
            else Inr ())"

definition verify_login :: "platform \<Rightarrow> token_auth \<Rightarrow> i64 \<Rightarrow> login_msg \<Rightarrow> string result" where
  "verify_login pf a now msg =
     (case check_timestamp now (lg_timestamp msg) of
        Inl e \<Rightarrow> Inl e
      | Inr _ \<Rightarrow>
          let ts_str = show_int (sint (lg_timestamp msg)) in
          (case find_matching_token pf a (lg_privilege_key msg) ts_str of
             None \<Rightarrow> Inl (Auth ''Invalid token (HMAC mismatch)'')
           | Some raw_token \<Rightarrow>
               (case matching_rule a raw_token of
                  None \<Rightarrow> Inr raw_token
                | Some rule \<Rightarrow>
                    (case validate_rule_login rule msg of
                       Inl e \<Rightarrow> Inl e
                     | Inr _ \<Rightarrow> Inr raw_token))))"

definition verify_new_work_conn :: "platform \<Rightarrow> token_auth \<Rightarrow> new_work_conn_msg \<Rightarrow> unit result" where
  "verify_new_work_conn pf a msg =
     (case find_matching_token pf a (nw_privilege_key msg) (nw_run_id msg) of
        None \<Rightarrow> Inl (Auth ''Invalid token (HMAC mismatch)'')
      | Some _ \<Rightarrow> Inr ())"

definition verify_ping :: "token_auth \<Rightarrow> ping_msg \<Rightarrow> unit result" where
  "verify_ping a msg = Inr ()"

definition authorize_proxy ::
  "platform \<Rightarrow> token_auth \<Rightarrow> string \<Rightarrow> u32 \<Rightarrow> new_proxy_msg \<Rightarrow> unit result" where
  "authorize_proxy pf a privilege_key pool_count msg =
     (let is_known = (privilege_key = ta_token a
            \<or> list_ex (\<lambda>t. t = privilege_key) (ta_additional_tokens a)
            \<or> list_ex (\<lambda>r. ar_token r = privilege_key) (ta_rules a))
      in if \<not> is_known then Inl (Auth ''Invalid token'')
         else
           case matching_rule a privilege_key of
             None \<Rightarrow> Inr ()
           | Some rule \<Rightarrow> validate_rule_proxy pf rule pool_count msg)"

definition create_authenticator :: "auth_config \<Rightarrow> token_auth result" where
  "create_authenticator c =
     (if ac_method c = ''token'' then Inr (token_auth_new c)
      else Inl (Config (''unsupported auth.method: '' @ ac_method c)))"

subsection \<open>Tokens\<close>

definition known :: "token_auth \<Rightarrow> string list" where
  "known a = ta_token a # ta_additional_tokens a @ map ar_token (ta_rules a)"

lemma find_signer_append:
  "find_signer pf message sig (ts @ us) =
     (case find_signer pf message sig ts of Some t \<Rightarrow> Some t | None \<Rightarrow> find_signer pf message sig us)"
  by (induction ts) auto

lemma find_matching_token_known:
  "find_matching_token pf a sig message = find_signer pf message sig (known a)"
  by (simp add: find_matching_token_def known_def find_signer_append)

lemma find_signer_find:
  "find_signer pf message sig ts = find (\<lambda>t. sig = sign pf t message) ts"
  by (induction ts) (simp_all add: verify_iff)

lemma find_matching_token_Some:
  "find_matching_token pf a sig message = Some t \<Longrightarrow> t \<in> set (known a) \<and> sig = sign pf t message"
  by (auto simp: find_matching_token_known find_signer_find find_Some_iff)

lemma find_matching_token_complete:
  assumes "t \<in> set (known a)"
  obtains t' where "find_matching_token pf a (sign pf t message) message = Some t'"
    "t' \<in> set (known a)" "sign pf t' message = sign pf t message"
proof (cases "find_matching_token pf a (sign pf t message) message")
  case None
  then have "\<not> (\<exists>x. x \<in> set (known a) \<and> sign pf t message = sign pf x message)"
    by (simp only: find_matching_token_known find_signer_find find_None_iff simp_thms)
  with assms show thesis by blast
next
  case (Some t')
  with find_matching_token_Some [OF Some] that show thesis by simp
qed

lemma matching_rule_Some: "matching_rule a t = Some r \<Longrightarrow> r \<in> set (ta_rules a) \<and> ar_token r = t"
  by (auto simp: matching_rule_def find_Some_iff)

lemma matching_rule_None: "matching_rule a t = None \<longleftrightarrow> t \<notin> ar_token ` set (ta_rules a)"
  by (auto simp: matching_rule_def find_None_iff)

subsection \<open>Clock skew\<close>

lemma sint_i64_abs:
  "sint (i64_abs x) = (if sint x = - (2 ^ 63) then - (2 ^ 63) else \<bar>sint x\<bar>)"
proof (cases "sint x = - (2 ^ 63)")
  case True
  have "x = word_of_int (sint x)" by simp
  then have "x = word_of_int (- (2 ^ 63))" unfolding True .
  then show ?thesis using True by (simp add: i64_abs_def)
next
  case False
  have "- (2 ^ 63) \<le> sint x" "sint x < 2 ^ 63"
    using sint_greater_eq [of x] sint_less [of x] by simp_all
  with False have "sint (- x) = - sint x"
    by (simp add: word_size signed_take_bit_int_eq_self_iff sint_word_ariths)
  with False show ?thesis by (simp add: i64_abs_def)
qed

lemma check_timestamp_Inr:
  "check_timestamp now ts = Inr () \<longleftrightarrow> \<bar>sint (now - ts)\<bar> \<le> 300 \<or> sint (now - ts) = - (2 ^ 63)"
  by (simp add: check_timestamp_def max_timestamp_skew_def sint_i64_abs)

lemma sint_diff:
  fixes a b :: i64
  shows "sint (a - b) =
    (let d = sint a - sint b in
     if d < - (2 ^ 63) then d + 2 ^ 64 else if d < 2 ^ 63 then d else d - 2 ^ 64)"
proof -
  let ?d = "sint a - sint b"
  have d: "- (2 ^ 64) < ?d" "?d < 2 ^ 64"
    using sint_greater_eq [of a] sint_less [of a] sint_greater_eq [of b] sint_less [of b] by simp_all
  have "sint (a - b) = (?d + 2 ^ 63) mod 2 ^ 64 - 2 ^ 63"
    by (simp add: sint_word_ariths signed_take_bit_eq_take_bit_shift take_bit_eq_mod)
  moreover have "(?d + 2 ^ 63) mod 2 ^ 64 = ?d + 2 ^ 63 + (if ?d < - (2 ^ 63) then 2 ^ 64
      else if ?d < 2 ^ 63 then 0 else - (2 ^ 64))"
  proof (cases "?d < - (2 ^ 63)")
    case True
    then have "(?d + 2 ^ 63 + 2 ^ 64) mod 2 ^ 64 = ?d + 2 ^ 63 + 2 ^ 64"
      using d by (intro mod_pos_pos_trivial) simp_all
    with True show ?thesis by (simp only: mod_add_self2 if_True)
  next
    case False
    show ?thesis
    proof (cases "?d < 2 ^ 63")
      case True
      with False have "(?d + 2 ^ 63) mod 2 ^ 64 = ?d + 2 ^ 63"
        by (intro mod_pos_pos_trivial) simp_all
      with True False show ?thesis by simp
    next
      case ge: False
      then have "(?d + 2 ^ 63 - 2 ^ 64) mod 2 ^ 64 = ?d + 2 ^ 63 - 2 ^ 64"
        using d by (intro mod_pos_pos_trivial) simp_all
      moreover have "(?d + 2 ^ 63 - 2 ^ 64) mod 2 ^ 64 = (?d + 2 ^ 63) mod 2 ^ 64"
        by (rule minus_mod_self2)
      ultimately show ?thesis using ge False by simp
    qed
  qed
  ultimately show ?thesis by (simp add: Let_def)
qed

subsection \<open>What a rule allows\<close>

definition rule_allows :: "platform \<Rightarrow> auth_rule \<Rightarrow> u32 \<Rightarrow> new_proxy_msg \<Rightarrow> bool" where
  "rule_allows pf rule pool_count msg \<longleftrightarrow>
     (ar_max_pool_count rule = 0 \<or> pool_count \<le> ar_max_pool_count rule) \<and>
     (ar_allow_proxy_types rule = [] \<or>
        (\<exists>ty \<in> set (ar_allow_proxy_types rule). eq_ignore_ascii_case ty (np_proxy_type msg))) \<and>
     (ar_allow_ports rule = [] \<or>
        np_remote_port msg \<noteq> 0 \<and> port_in_ranges (np_remote_port msg) (ar_allow_ports rule)) \<and>
     (ar_allow_domain_suffixes rule = [] \<or>
        (\<forall>d \<in> set (np_custom_domains msg). \<exists>s \<in> set (ar_allow_domain_suffixes rule).
           ends_with (auth_normalize_host pf d) (auth_normalize_host pf s))) \<and>
     (trim (np_subdomain msg) = [] \<or> ar_allow_subdomain_prefixes rule = [] \<or>
        (\<exists>p \<in> set (ar_allow_subdomain_prefixes rule).
           starts_with (to_lowercase pf (trim (np_subdomain msg))) (to_lowercase pf (trim p))))"

lemma check_domains_Inr:
  "check_domains pf allowed ds = Inr () \<longleftrightarrow>
     (\<forall>d \<in> set ds. \<exists>s \<in> set allowed. ends_with (auth_normalize_host pf d) (auth_normalize_host pf s))"
  by (induction ds) (auto simp: Let_def list_ex_iff)

lemma validate_rule_proxy_Inr:
  "validate_rule_proxy pf rule pool_count msg = Inr () \<longleftrightarrow> rule_allows pf rule pool_count msg"
  unfolding validate_rule_proxy_def result_Inr check_domains_Inr rule_allows_def list_ex_iff
    word_gt_0 de_Morgan_conj not_less not_not eq_commute [of 0 "ar_max_pool_count rule"]
  by auto

subsection \<open>The contract of an authenticator\<close>

text \<open>
  What a session relies on: \<open>login\<close> yields the token the client proved to know, and \<open>authorize\<close>
  decides on the proxies of a session with such a token by \<open>allowed\<close> alone.
\<close>

locale authenticator =
  fixes login :: "i64 \<Rightarrow> login_msg \<Rightarrow> string result"
    and authorize :: "string \<Rightarrow> u32 \<Rightarrow> new_proxy_msg \<Rightarrow> unit result"
    and configured :: "string \<Rightarrow> bool"
    and signed :: "string \<Rightarrow> i64 \<Rightarrow> string"
    and allowed :: "string \<Rightarrow> u32 \<Rightarrow> new_proxy_msg \<Rightarrow> bool"
  assumes login_sound: "login now lg = Inr t \<Longrightarrow>
      configured t \<and> lg_privilege_key lg = signed t (lg_timestamp lg)"
    and authorize_exact: "authorize t pool msg = Inr () \<longleftrightarrow> configured t \<and> allowed t pool msg"
begin

lemma session_authorize:
  "login now lg = Inr t \<Longrightarrow> authorize t pool msg = Inr () \<longleftrightarrow> allowed t pool msg"
  using login_sound authorize_exact by blast

lemma unknown_signature:
  "(\<And>t. configured t \<Longrightarrow> lg_privilege_key msg \<noteq> signed t (lg_timestamp msg)) \<Longrightarrow>
   \<exists>e. login now msg = Inl e"
  using login_sound by (cases "login now msg") auto

end

definition token_allows :: "platform \<Rightarrow> token_auth \<Rightarrow> string \<Rightarrow> u32 \<Rightarrow> new_proxy_msg \<Rightarrow> bool" where
  "token_allows pf a t pool_count msg \<longleftrightarrow>
     (case matching_rule a t of None \<Rightarrow> True | Some rule \<Rightarrow> rule_allows pf rule pool_count msg)"

lemma authorize_proxy_Inr:
  "authorize_proxy pf a t pool_count msg = Inr () \<longleftrightarrow>
     t \<in> set (known a) \<and> token_allows pf a t pool_count msg"
proof -
  have "(t = ta_token a \<or> list_ex (\<lambda>x. x = t) (ta_additional_tokens a)
      \<or> list_ex (\<lambda>r. ar_token r = t) (ta_rules a)) \<longleftrightarrow> t \<in> set (known a)"
    by (auto simp: known_def list_ex_iff)
  then show ?thesis
    unfolding authorize_proxy_def Let_def result_Inr token_allows_def
    by (auto simp: validate_rule_proxy_Inr split: option.splits)
qed

lemma verify_login_Inr:
  "verify_login pf a now msg = Inr t \<longleftrightarrow>
     check_timestamp now (lg_timestamp msg) = Inr () \<and>
     find_matching_token pf a (lg_privilege_key msg) (show_int (sint (lg_timestamp msg))) = Some t \<and>
     (\<forall>rule. matching_rule a t = Some rule \<longrightarrow>
        ar_max_pool_count rule = 0 \<or> lg_pool_count msg \<le> ar_max_pool_count rule)"
  unfolding verify_login_def Let_def question_mark_Inr
  by (auto simp: validate_rule_login_def word_gt_0 not_less split: option.splits if_splits)

lemma token_authenticator:
  "authenticator (verify_login pf a) (authorize_proxy pf a) (\<lambda>t. t \<in> set (known a))
     (\<lambda>t ts. sign pf t (show_int (sint ts))) (token_allows pf a)"
  using find_matching_token_Some
  by unfold_locales (auto simp: authorize_proxy_Inr verify_login_Inr)

interpretation ta: authenticator "verify_login pf a" "authorize_proxy pf a"
  "\<lambda>t. t \<in> set (known a)" "\<lambda>t ts. sign pf t (show_int (sint ts))" "token_allows pf a" for pf a
  by (rule token_authenticator)

subsection \<open>Claims\<close>


definition demo_auth :: token_auth where
  "demo_auth = \<lparr>ta_token = ''t'', ta_additional_tokens = [], ta_rules = []\<rparr>"

definition demo_login :: "i64 \<Rightarrow> string \<Rightarrow> login_msg" where
  "demo_login ts key =
     \<lparr>lg_version = ''0.4'', lg_hostname = [], lg_os = [], lg_arch = [], lg_user = [], lg_client_id = ''c'',
      lg_timestamp = ts, lg_privilege_key = key, lg_run_id = [], lg_pool_count = 0\<rparr>"


text \<open>
  C40: The exact clock window. In terms of the two clocks as integers, the check accepts precisely a
  difference of at most 300 seconds, and, because the subtraction and the absolute value wrap, a
  difference of exactly 2^63 or of at least 2^64 - 300. For clocks that are not negative only the
  300 seconds remain.
\<close>

theorem check_timestamp_exact:
  "(check_timestamp now ts = Inr () \<longleftrightarrow>
     (let d = \<bar>sint now - sint ts\<bar> in d \<le> 300 \<or> d = 2 ^ 63 \<or> 2 ^ 64 - 300 \<le> d)) \<and>
   (0 \<le> sint now \<and> 0 \<le> sint ts \<longrightarrow>
     (check_timestamp now ts = Inr () \<longleftrightarrow> \<bar>sint now - sint ts\<bar> \<le> 300))"
proof -
  have b: "- (2 ^ 63) \<le> sint now" "sint now < 2 ^ 63" "- (2 ^ 63) \<le> sint ts" "sint ts < 2 ^ 63"
    using sint_greater_eq [of now] sint_less [of now] sint_greater_eq [of ts] sint_less [of ts]
    by simp_all
  then show ?thesis
    by (auto simp: check_timestamp_Inr sint_diff Let_def)
qed

theorem check_timestamp_exact_witness:
  "check_timestamp 1000 700 = Inr () \<and> check_timestamp 1000 699 \<noteq> Inr ()"
  using check_timestamp_exact [of 1000 700] check_timestamp_exact [of 1000 699] by simp

text \<open>
  C20: Authorisation is exactly the rule of the session's token. For a session whose login was
  accepted with the token \<open>t\<close>, a proxy is authorised if and only if the first rule for \<open>t\<close>, if there
  is one, allows it: the pool size, the proxy type, a fixed port in one of the ranges, every custom
  domain under one of the suffixes, and the subdomain under one of the prefixes.
\<close>

theorem authorize_after_login:
  "verify_login pf a now lg = Inr t \<Longrightarrow>
   authorize_proxy pf a t pool_count msg = Inr () \<longleftrightarrow> token_allows pf a t pool_count msg"
  by (rule ta.session_authorize)

definition demo_proxy :: new_proxy_msg where
  "demo_proxy =
     \<lparr>np_proxy_name = ''web'', np_proxy_type = ''tcp'', np_use_encryption = False,
      np_use_compression = False, np_local_ip = ''127.0.0.1'', np_local_port = 80,
      np_remote_port = 18080, np_custom_domains = [], np_subdomain = [], np_locations = [],
      np_host_header_rewrite = [], np_sk = [], np_multiplexer = [], np_fallback_to_relay = True,
      np_extra = JNull\<rparr>"

lemma demo_login_ok:
  "verify_login demo_platform demo_auth 100 (demo_login 7 (sign demo_platform ''t'' (show_int 7)))
    = Inr ''t''"
  by (simp add: verify_login_Inr demo_login_def demo_auth_def find_matching_token_def verify_iff
      check_timestamp_Inr matching_rule_def)

theorem authorize_after_login_witness:
  "authorize_proxy demo_platform demo_auth ''t'' 0 demo_proxy = Inr () \<longleftrightarrow>
   token_allows demo_platform demo_auth ''t'' 0 demo_proxy"
  using demo_login_ok by (rule authorize_after_login)

text \<open>
  C21: A configuration that passes validation with credentials in rules (or additional tokens) and an
  empty main token lets everybody in: a login signed with the empty key is accepted, with the empty
  string as its token, and that token is authorised for every proxy, whatever the rules say.
\<close>

theorem empty_token_bypasses_rules:
  assumes "auth_validate c = Inr ()" "ac_token c = []"
    and "lg_privilege_key lg = sign pf [] (show_int (sint (lg_timestamp lg)))"
    and "check_timestamp now (lg_timestamp lg) = Inr ()"
  shows "verify_login pf (token_auth_new c) now lg = Inr [] \<and>
    authorize_proxy pf (token_auth_new c) [] pool_count msg = Inr ()"
proof -
  let ?a = "token_auth_new c"
  have r: "list_all (\<lambda>r. trim (ar_token r) \<noteq> []) (ac_rules c)"
    using assms(1) by (simp add: auth_validate_Inr auth_acceptable_def)
  have "matching_rule ?a [] = None"
  proof (subst matching_rule_None, rule notI)
    assume "[] \<in> ar_token ` set (ta_rules ?a)"
    with r show False by (auto simp: token_auth_new_def list_all_iff str_simps)
  qed
  moreover have "find_matching_token pf ?a (lg_privilege_key lg) (show_int (sint (lg_timestamp lg))) = Some []"
    using assms(2,3) by (simp add: find_matching_token_def token_auth_new_def verify_iff)
  ultimately show ?thesis
    using assms(2,4) by (simp add: verify_login_Inr authorize_proxy_Inr known_def token_auth_new_def
        token_allows_def)
qed

definition demo_rule :: auth_rule where
  "demo_rule =
     \<lparr>ar_token = ''tenant'', ar_allow_proxy_types = [''http''], ar_allow_ports = [],
      ar_allow_domain_suffixes = [''example.com''], ar_allow_subdomain_prefixes = [],
      ar_max_pool_count = 1, ar_max_connections = 0, ar_bandwidth_limit_bytes = 0\<rparr>"

definition demo_auth_config :: auth_config where
  "demo_auth_config = \<lparr>ac_method = ''token'', ac_token = [], ac_additional_tokens = [],
     ac_rules = [demo_rule], ac_oidc = oidc_default\<rparr>"

theorem empty_token_bypasses_rules_witness:
  "verify_login demo_platform (token_auth_new demo_auth_config) 100
      (demo_login 7 (sign demo_platform [] (show_int 7))) = Inr [] \<and>
   authorize_proxy demo_platform (token_auth_new demo_auth_config) [] 9 demo_proxy = Inr ()"
  by (rule empty_token_bypasses_rules)
    (simp_all add: auth_validate_def demo_auth_config_def demo_rule_def demo_login_def
      check_timestamp_Inr trim_visible visible_def ws_seqs_def)

end
