(* ===== verification/HttpHost.thy ===== *)
theory HttpHost
  imports Crypto
begin

text \<open>
  Host names of HTTP requests, from \<^verbatim>\<open>arp-server/src/proxy/vhost.rs\<close>: reading the request head
  (\<^verbatim>\<open>read_http_request_head\<close>), finding the \<^verbatim>\<open>Host\<close> header in it (\<^verbatim>\<open>extract_http_host\<close>) and the
  normal form under which routes are stored and looked up (\<^verbatim>\<open>normalize_host\<close>).
\<close>

subsection \<open>normalize_host\<close>

definition normalize_host :: "platform \<Rightarrow> string \<Rightarrow> string" where
  "normalize_host pf host =
     (let trimmed = to_lowercase pf (trim_end_matches CHR ''.'' (trim host)) in
      case strip_prefix ''['' trimmed of
        Some stripped \<Rightarrow> trim_end_matches CHR '']'' stripped
      | None \<Rightarrow>
          (case rsplit_once CHR '':'' trimmed of
             Some (name, _) \<Rightarrow> if CHR '':'' \<notin> set name then name else trimmed
           | None \<Rightarrow> trimmed))"

subsection \<open>extract_http_host\<close>

text \<open>\<^verbatim>\<open>str::lines\<close>: lines end at a line feed, which is dropped with a carriage return before it.\<close>

fun lines :: "string \<Rightarrow> string list" where
  "lines [] = []"
| "lines (c # cs) =
     (if c = CHR 0x0A then [] # lines cs
      else if c = CHR 0x0D \<and> cs \<noteq> [] \<and> hd cs = CHR 0x0A then [] # lines (tl cs)
      else (case lines cs of
              [] \<Rightarrow> [[c]]
            | l # ls \<Rightarrow> (c # l) # ls))"

fun find_host :: "string list \<Rightarrow> string option" where
  "find_host [] = None"
| "find_host (line # rest) =
     (case split_once CHR '':'' line of
        Some (name, val) \<Rightarrow>
          if eq_ignore_ascii_case name ''host'' then Some (trim val) else find_host rest
      | None \<Rightarrow> find_host rest)"

definition extract_http_host :: "bytes \<Rightarrow> string option" where
  "extract_http_host data =
     (case from_utf8 data of None \<Rightarrow> None | Some text \<Rightarrow> find_host (lines text))"

subsection \<open>read_http_request_head\<close>

definition http_header_max :: nat where
  "http_header_max = 16 * 1024"

definition crlf2 :: bytes where
  "crlf2 = [13, 10, 13, 10]"

fun has_terminator :: "bytes \<Rightarrow> bool" where
  "has_terminator [] = False"
| "has_terminator (b # bs) = (take 4 (b # bs) = crlf2 \<or> has_terminator bs)"

text \<open>
  The reads of the client socket: chunks of at most 1024 bytes, and then end of file, an error, or
  nothing until the deadline of ten seconds.
\<close>

datatype read_end = Eof | ReadError io_error | Stalled

fun read_head_loop :: "bytes \<Rightarrow> bytes list \<Rightarrow> read_end \<Rightarrow> bytes result" where
  "read_head_loop data [] fin =
     (case fin of
        Eof \<Rightarrow> Inl ConnectionClosed
      | ReadError e \<Rightarrow> Inl (Io e)
      | Stalled \<Rightarrow> Inl (Timeout ''http header read timeout''))"
| "read_head_loop data (chunk # chunks) fin =
     (if length chunk = 0 then Inl ConnectionClosed
      else
        let data = data @ chunk in
        if has_terminator data then Inr data
        else if length data \<ge> http_header_max then Inl (Protocol ''http header too large'')
        else read_head_loop data chunks fin)"

definition read_http_request_head :: "bytes list \<Rightarrow> read_end \<Rightarrow> bytes result" where
  "read_http_request_head chunks fin = read_head_loop [] chunks fin"

subsection \<open>Lemmas\<close>

lemma has_terminator_iff: "has_terminator bs \<longleftrightarrow> (\<exists>p s. bs = p @ crlf2 @ s)"
proof (induction bs)
  case (Cons b bs)
  show ?case
  proof
    assume "has_terminator (b # bs)"
    then consider "take 4 (b # bs) = crlf2" | "has_terminator bs" by auto
    then show "\<exists>p s. b # bs = p @ crlf2 @ s"
    proof cases
      case 1
      then have "b # bs = [] @ crlf2 @ drop 4 (b # bs)" by (metis append_Nil append_take_drop_id)
      then show ?thesis by blast
    next
      case 2
      with Cons.IH obtain p s where "bs = p @ crlf2 @ s" by blast
      then have "b # bs = (b # p) @ crlf2 @ s" by simp
      then show ?thesis by blast
    qed
  next
    assume "\<exists>p s. b # bs = p @ crlf2 @ s"
    then obtain p s where e: "b # bs = p @ crlf2 @ s" by blast
    show "has_terminator (b # bs)"
    proof (cases p)
      case Nil
      then have "take 4 (b # bs) = take 4 (crlf2 @ s)" using e by simp
      then show ?thesis by (simp add: crlf2_def)
    next
      case (Cons c q)
      with e Cons.IH show ?thesis by auto
    qed
  qed
qed (simp add: crlf2_def)

lemma read_head_loop_Inr:
  assumes "read_head_loop data chunks fin = Inr head" "\<not> has_terminator data"
    and "list_all (\<lambda>c. length c \<le> 1024) chunks" "length data < http_header_max"
  shows "\<exists>n. head = data @ concat (take n chunks) \<and> has_terminator head \<and>
    \<not> has_terminator (data @ concat (take (n - 1) chunks)) \<and> 0 < n \<and>
    length head < http_header_max + 1024"
  using assms
proof (induction data chunks fin rule: read_head_loop.induct)
  case (2 data c cs fin)
  show ?case
  proof (cases "has_terminator (data @ c)")
    case True
    with 2(2-) show ?thesis by (intro exI [of _ 1]) (auto simp: Let_def split: if_splits)
  next
    case False
    from 2(2) False have ne: "length c \<noteq> 0" "\<not> length (data @ c) \<ge> http_header_max"
      and rl: "read_head_loop (data @ c) cs fin = Inr head"
      by (auto simp: Let_def split: if_splits)
    from 2(1) [OF ne(1) refl False ne(2) rl False] 2(4) ne(2) obtain n where
      "head = (data @ c) @ concat (take n cs)" "has_terminator head" "0 < n"
      "\<not> has_terminator ((data @ c) @ concat (take (n - 1) cs))"
      "length head < http_header_max + 1024" by auto
    then show ?thesis
      by (intro exI [of _ "Suc n"]) (cases n, auto)
  qed
qed (auto split: read_end.splits)

abbreviation crlf :: string where
  "crlf \<equiv> [CHR 0x0D, CHR 0x0A]"

lemma lines_crlf: "CHR 0x0A \<notin> set l \<Longrightarrow> lines (l @ crlf @ rest) = l # lines rest"
proof (induction l)
  case (Cons c l)
  have "hd (l @ crlf @ rest) \<noteq> CHR 0x0A" using Cons.prems by (cases l) auto
  with Cons show ?case by auto
qed simp

definition is_host_line :: "string \<Rightarrow> bool" where
  "is_host_line l \<longleftrightarrow>
     (case split_once CHR '':'' l of None \<Rightarrow> False | Some (name, _) \<Rightarrow> eq_ignore_ascii_case name ''host'')"

lemma find_host_skip:
  "list_all (\<lambda>l. \<not> is_host_line l) ls \<Longrightarrow> find_host (ls @ rest) = find_host rest"
  by (induction ls) (auto simp: is_host_line_def split: option.splits)

lemma lines_head:
  "list_all (\<lambda>l. CHR 0x0A \<notin> set l) ls \<Longrightarrow> lines (concat (map (\<lambda>l. l @ crlf) ls) @ rest) = ls @ lines rest"
  by (induction ls) (simp_all add: lines_crlf [simplified])

lemma utf8_valid_no_FF: "utf8_valid bs \<Longrightarrow> 255 \<notin> set bs"
proof (induction bs rule: utf8_valid.induct)
  case (2 a as)
  have c: "b \<noteq> 255" if "utf8_cont b \<or> 0xA0 \<le> b \<and> b \<le> 0xBF \<or> 0x80 \<le> b \<and> b \<le> 0x9F
      \<or> 0x90 \<le> b \<and> b \<le> 0xBF \<or> 0x80 \<le> b \<and> b \<le> 0x8F" for b
    using that by (auto simp: utf8_cont_def)
  show ?case
  proof (cases "a < 0x80")
    case True
    with 2 show ?thesis by auto
  next
    case ge: False
    show ?thesis
    proof (cases "0xC2 \<le> a \<and> a \<le> 0xDF")
      case True
      with 2(2) [OF ge True] 2(5) ge c show ?thesis by (cases as) auto
    next
      case n2: False
      show ?thesis
      proof (cases "0xE0 \<le> a \<and> a \<le> 0xEF")
        case True
        with 2(3) [OF ge n2 True] 2(5) ge n2 c show ?thesis
          by (auto split: list.splits if_splits)
      next
        case n3: False
        with 2(4) [OF ge n2 n3] 2(5) ge n2 c show ?thesis
          by (auto split: list.splits if_splits)
      qed
    qed
  qed
qed simp

lemma trim_end_matches_id: "s = [] \<or> last s \<noteq> c \<Longrightarrow> trim_end_matches c s = s"
  by (cases s rule: rev_cases) (auto simp: trim_end_matches_def)

lemma to_lowercase_ascii: "is_ascii s \<Longrightarrow> to_lowercase pf s = map ascii_lower s"
  by (simp add: to_lowercase_def)

lemma ascii_lower_eq_iff:
  assumes "\<not> (97 \<le> (of_char d :: nat) \<and> (of_char d :: nat) \<le> 122)"
    and "\<not> (65 \<le> (of_char d :: nat) \<and> (of_char d :: nat) \<le> 90)"
  shows "ascii_lower c = d \<longleftrightarrow> c = d"
proof
  assume *: "ascii_lower c = d"
  show "c = d"
  proof (cases "65 \<le> (of_char c :: nat) \<and> (of_char c :: nat) \<le> 90")
    case True
    with * have "(of_char d :: nat) = of_char c + 32" by (auto simp: ascii_lower_def)
    with True assms(1) show ?thesis by simp
  next
    case False
    with * show ?thesis by (auto simp: ascii_lower_def Let_def)
  qed
qed (use assms in \<open>auto simp: ascii_lower_def Let_def\<close>)

lemma ascii_lower_punct [simp]:
  "ascii_lower c = CHR '':'' \<longleftrightarrow> c = CHR '':''" "ascii_lower c = CHR ''['' \<longleftrightarrow> c = CHR ''[''"
  "ascii_lower c = CHR ''.'' \<longleftrightarrow> c = CHR ''.''"
  by (rule ascii_lower_eq_iff; simp)+

lemma ascii_lower_punct_sym [simp]:
  "CHR '':'' = ascii_lower c \<longleftrightarrow> c = CHR '':''" "CHR ''['' = ascii_lower c \<longleftrightarrow> c = CHR ''[''"
  by (simp_all add: eq_commute [of "CHR '':''" "ascii_lower c"]
      eq_commute [of "CHR ''[''" "ascii_lower c"])

lemma ascii_lower_colon [simp]: "ascii_lower CHR '':'' = CHR '':''"
  by simp

lemma ws_codes: "list_all (\<lambda>w. list_all (\<lambda>d. (of_char d :: nat) \<le> 32 \<or> 128 \<le> (of_char d :: nat)) w) ws_seqs"
  by (simp add: ws_seqs_def)

lemma visible_code:
  assumes "33 \<le> (of_char c :: nat)" "(of_char c :: nat) < 128"
  shows "visible c"
  unfolding visible_def list_all_iff
proof (intro ballI notI)
  fix w assume "w \<in> set ws_seqs" "c \<in> set w"
  with ws_codes have "(of_char c :: nat) \<le> 32 \<or> 128 \<le> (of_char c :: nat)"
    unfolding list_all_iff by blast
  with assms show False by simp
qed

lemma ascii_lower_code:
  "(of_char (ascii_lower c) :: nat) =
     (if 65 \<le> (of_char c :: nat) \<and> (of_char c :: nat) \<le> 90 then of_char c + 32 else of_char c)"
  by (simp add: ascii_lower_def Let_def)

lemma visible_ascii_lower: "visible c \<Longrightarrow> visible (ascii_lower c)"
proof (cases "65 \<le> (of_char c :: nat) \<and> (of_char c :: nat) \<le> 90")
  case True
  then show ?thesis by (intro visible_code) (simp_all add: ascii_lower_code)
next
  case False
  then have "ascii_lower c = c" by (auto simp: ascii_lower_def Let_def)
  then show "visible c \<Longrightarrow> ?thesis" by simp
qed

lemma is_ascii_lower: "is_ascii s \<Longrightarrow> is_ascii (map ascii_lower s)"
  by (simp add: is_ascii_def list_all_iff ascii_lower_code)

text \<open>An ASCII host name or IPv4 address as it stands in a \<^verbatim>\<open>Host\<close> header, without the port.\<close>

definition plain_host :: "string \<Rightarrow> bool" where
  "plain_host h \<longleftrightarrow> h \<noteq> [] \<and> is_ascii h \<and> CHR '':'' \<notin> set h \<and> hd h \<noteq> CHR ''['' \<and>
     visible (hd h) \<and> visible (last h) \<and> last h \<noteq> CHR ''.''"

lemma normalize_plain:
  assumes "plain_host h"
  shows "normalize_host pf h = map ascii_lower h"
proof -
  have "strip_prefix ''['' (map ascii_lower h) = None"
    using assms by (cases h) (auto simp: plain_host_def strip_prefix_def)
  moreover have "rsplit_once CHR '':'' (map ascii_lower h) = None"
    using assms by (auto simp: plain_host_def rsplit_once_None)
  ultimately show ?thesis
    using assms by (simp add: normalize_host_def plain_host_def trim_visible trim_end_matches_id
        to_lowercase_ascii)
qed

lemma normalize_port:
  assumes "plain_host h" "p \<noteq> []" "is_ascii p" "CHR '':'' \<notin> set p" "visible (last p)" "last p \<noteq> CHR ''.''"
  shows "normalize_host pf (h @ '':'' @ p) = map ascii_lower h"
proof -
  let ?s = "h @ '':'' @ p"
  have t: "trim ?s = ?s" using assms by (intro trim_visible) (auto simp: plain_host_def)
  have "trim_end_matches CHR ''.'' ?s = ?s" using assms(2,6) by (intro trim_end_matches_id) auto
  moreover have "to_lowercase pf ?s = map ascii_lower h @ CHR '':'' # map ascii_lower p"
    using assms by (simp add: to_lowercase_def plain_host_def is_ascii_def ascii_lower_def)
  moreover have "strip_prefix ''['' (map ascii_lower h @ CHR '':'' # map ascii_lower p) = None"
    using assms(1) by (cases h) (auto simp: plain_host_def strip_prefix_def)
  moreover have "rsplit_once CHR '':'' (map ascii_lower h @ CHR '':'' # map ascii_lower p)
      = Some (map ascii_lower h, map ascii_lower p)"
    using assms(4) by (auto simp: rsplit_once_Some)
  ultimately show ?thesis
    using assms(1) t by (auto simp: normalize_host_def plain_host_def)
qed

subsection \<open>Claims\<close>

text \<open>
  The request head is read completely and nothing is lost. When the reader succeeds, what it
  returns is the concatenation of the chunks it consumed, it contains the blank line that ends the
  head, the chunks before the last one did not, and it is shorter than 17 KiB.
\<close>

theorem read_http_request_head_exact:
  assumes "read_http_request_head chunks fin = Inr head" "list_all (\<lambda>c. length c \<le> 1024) chunks"
  shows "\<exists>n > 0. head = concat (take n chunks) \<and> (\<exists>p s. head = p @ crlf2 @ s) \<and>
    \<not> (\<exists>p s. concat (take (n - 1) chunks) = p @ crlf2 @ s) \<and> length head < 17 * 1024"
proof -
  have "\<not> has_terminator []" "length ([] :: bytes) < http_header_max"
    by (simp_all add: http_header_max_def)
  from read_head_loop_Inr [OF assms(1) [unfolded read_http_request_head_def] this(1) assms(2) this(2)]
  show ?thesis by (auto simp: has_terminator_iff http_header_max_def)
qed

theorem read_http_request_head_exact_witness:
  "\<exists>n > 0. [71, 13, 10, 13, 10, 9] = concat (take n [[71, 13], [10, 13, 10, 9], [8 :: u8]]) \<and>
    (\<exists>p s. [71, 13, 10, 13, 10, 9] = p @ crlf2 @ s) \<and>
    \<not> (\<exists>p s. concat (take (n - 1) [[71, 13], [10, 13, 10, 9], [8]]) = p @ crlf2 @ s) \<and>
    length ([71, 13, 10, 13, 10, 9] :: bytes) < 17 * 1024"
  by (rule read_http_request_head_exact [where fin = Eof])
    (simp_all add: read_http_request_head_def crlf2_def http_header_max_def)

text \<open>
  The routing key of a request is the first \<^verbatim>\<open>Host\<close> header. For a request that consists of lines
  ended by CR LF, none of the lines before it being a \<^verbatim>\<open>Host\<close> header, and that is valid UTF-8 as a
  whole, the value of the first header whose name is \<^verbatim>\<open>host\<close> in any case is returned, trimmed.
\<close>

theorem extract_http_host_first:
  assumes "list_all (\<lambda>l. CHR 0x0A \<notin> set l \<and> \<not> is_host_line l) before"
    and "eq_ignore_ascii_case name ''host''" "CHR '':'' \<notin> set name"
    and "CHR 0x0A \<notin> set name" "CHR 0x0A \<notin> set v"
    and "text = concat (map (\<lambda>l. l @ crlf) (before @ [name @ '':'' @ v])) @ rest"
    and "utf8_valid (as_bytes text)"
  shows "extract_http_host (as_bytes text) = Some (trim v)"
proof -
  have "list_all (\<lambda>l. CHR 0x0A \<notin> set l) (before @ [name @ '':'' @ v])"
    using assms(1,4,5) by (auto simp: list_all_iff)
  then have "lines text = (before @ [name @ '':'' @ v]) @ lines rest"
    unfolding assms(6) by (rule lines_head)
  moreover have "find_host (before @ (name @ '':'' @ v) # lines rest) = find_host ((name @ '':'' @ v) # lines rest)"
    using assms(1) by (intro find_host_skip) (auto simp: list_all_iff)
  moreover have "split_once CHR '':'' (name @ '':'' @ v) = Some (name, v)"
    using assms(3) by (simp add: split_once_Some)
  ultimately show ?thesis
    using assms(2,7) by (simp add: extract_http_host_def from_utf8_as_bytes)
qed

theorem extract_http_host_first_witness:
  "extract_http_host (as_bytes (''GET / HTTP/1.1'' @ crlf @ ''HoSt:a.example'' @ crlf @ crlf)) = Some ''a.example''"
proof -
  have "extract_http_host (as_bytes (''GET / HTTP/1.1'' @ crlf @ ''HoSt:a.example'' @ crlf @ crlf))
      = Some (trim ''a.example'')"
    by (rule extract_http_host_first [where before = "[''GET / HTTP/1.1'']" and name = "''HoSt''"
          and v = "''a.example''" and rest = crlf])
      (simp_all add: is_host_line_def eq_ignore_ascii_case_def ascii_lower_def as_bytes_def as_byte_def
        char_of_eq_iff)
  then show ?thesis by (simp add: trim_visible visible_def ws_seqs_def)
qed

text \<open>
  The port and the case of a host name do not matter for routing: a plain host name, with or
  without a port, is normalised to the name in lower case, and normalising again changes nothing.
\<close>

theorem normalize_host_port:
  assumes "plain_host h" "p \<noteq> []" "list_all (\<lambda>c. c \<in> set ''0123456789'') p"
  shows "normalize_host pf (h @ '':'' @ p) = map ascii_lower h \<and>
    normalize_host pf h = map ascii_lower h \<and>
    normalize_host pf (map ascii_lower h) = map ascii_lower h"
proof -
  have d: "c \<in> set ''0123456789'' \<Longrightarrow> (of_char c :: nat) < 128 \<and> c \<noteq> CHR '':'' \<and> visible c \<and> c \<noteq> CHR ''.''" for c
    by (auto simp: visible_def ws_seqs_def)
  have "last p \<in> set ''0123456789''" using assms(2,3) unfolding list_all_iff by (blast intro: last_in_set)
  with assms d have "normalize_host pf (h @ '':'' @ p) = map ascii_lower h"
    by (intro normalize_port) (auto simp: is_ascii_def list_all_iff)
  moreover have "plain_host (map ascii_lower h)"
    using assms(1) visible_ascii_lower is_ascii_lower
    by (simp add: plain_host_def hd_map last_map image_iff)
  ultimately show ?thesis using assms(1) by (simp add: normalize_plain)
qed

theorem normalize_host_port_witness:
  "normalize_host demo_platform (''Example.COM'' @ '':'' @ ''8080'') = ''example.com''"
proof -
  have "map ascii_lower ''Example.COM'' = ''example.com''"
    by (simp add: ascii_lower_def char_of_eq_iff)
  then show ?thesis
    using normalize_host_port [of "''Example.COM''" "''8080''" demo_platform]
    by (simp add: plain_host_def is_ascii_def visible_def ws_seqs_def)
qed

text \<open>
  A request whose body is not UTF-8 text cannot be routed when the body arrives together with the
  head: the reader returns head and body bytes, and with a byte 255 among them no \<^verbatim>\<open>Host\<close> header is
  found, although there may be one in the head.
\<close>

theorem binary_body_hides_host:
  assumes "chunk = head @ crlf2 @ body" "255 \<in> set body"
  shows "read_http_request_head (chunk # chunks) fin = Inr chunk \<and> extract_http_host chunk = None"
proof -
  have "has_terminator chunk" using assms(1) by (auto simp: has_terminator_iff)
  moreover have "chunk \<noteq> []" using assms(1) by (simp add: crlf2_def)
  moreover have "\<not> utf8_valid chunk" using assms utf8_valid_no_FF by fastforce
  ultimately show ?thesis
    by (simp add: read_http_request_head_def extract_http_host_def from_utf8_def)
qed

theorem binary_body_hides_host_witness:
  "extract_http_host (as_bytes (''POST / HTTP/1.1'' @ crlf @ ''Host: a'') @ crlf2 @ [255]) = None"
  using binary_body_hides_host [OF refl, of "[255]"
      "as_bytes (''POST / HTTP/1.1'' @ crlf @ ''Host: a'')" "[]" Eof] by simp

end
