(* ===== verification/Sni.thy ===== *)
theory Sni
  imports Errors
begin

text \<open>
  \<^verbatim>\<open>parse_tls_sni\<close> and \<^verbatim>\<open>read_tls_client_hello\<close> of \<^verbatim>\<open>arp-server/src/proxy/vhost.rs\<close>: the server name of
  a TLS ClientHello, found by indexing into the record. An index outside the record panics; here
  the outer \<open>option\<close> is \<open>None\<close> for a panic and the inner one is the \<^verbatim>\<open>Option\<close> the function returns.
\<close>

definition be_at :: "nat \<Rightarrow> bytes \<Rightarrow> nat \<Rightarrow> nat option" where
  "be_at n hello pos =
     (if pos + n \<le> length hello then Some (of_be (take n (drop pos hello))) else None)"

definition slice_at :: "bytes \<Rightarrow> nat \<Rightarrow> nat \<Rightarrow> bytes option" where
  "slice_at hello i j =
     (if i \<le> j \<and> j \<le> length hello then Some (take (j - i) (drop i hello)) else None)"

function sni_names :: "bytes \<Rightarrow> nat \<Rightarrow> nat \<Rightarrow> string option option" where
  "sni_names hello sn_pos sn_end =
     (if sn_pos + 3 \<le> sn_end then
        case be_at 1 hello sn_pos of None \<Rightarrow> None | Some name_type \<Rightarrow>
        case be_at 2 hello (sn_pos + 1) of None \<Rightarrow> None | Some name_len \<Rightarrow>
          if sn_pos + 3 + name_len > sn_end then Some None
          else if name_type = 0 then
            (case slice_at hello (sn_pos + 3) (sn_pos + 3 + name_len) of
               None \<Rightarrow> None
             | Some name \<Rightarrow> Some (from_utf8 name))
          else sni_names hello (sn_pos + 3 + name_len) sn_end
      else Some None)"
  by pat_completeness auto
termination
  by (relation "measure (\<lambda>(_, sn_pos, sn_end). sn_end - sn_pos)") auto

function sni_extensions :: "bytes \<Rightarrow> nat \<Rightarrow> nat \<Rightarrow> string option option" where
  "sni_extensions hello pos extensions_end =
     (if pos + 4 \<le> extensions_end then
        case be_at 2 hello pos of None \<Rightarrow> None | Some ext_type \<Rightarrow>
        case be_at 2 hello (pos + 2) of None \<Rightarrow> None | Some ext_len \<Rightarrow>
          if pos + 4 + ext_len > extensions_end then Some None
          else if ext_type = 0 then
            if ext_len < 2 then Some None
            else sni_names hello (pos + 4 + 2) (pos + 4 + ext_len)
          else sni_extensions hello (pos + 4 + ext_len) extensions_end
      else Some None)"
  by pat_completeness auto
termination
  by (relation "measure (\<lambda>(_, pos, e). e - pos)") auto

declare sni_names.simps [simp del] sni_extensions.simps [simp del]

definition parse_tls_sni :: "bytes \<Rightarrow> string option option" where
  "parse_tls_sni hello =
     (if length hello < 5 then Some None else
      case be_at 1 hello 0 of None \<Rightarrow> None | Some b0 \<Rightarrow>
      if b0 \<noteq> 0x16 then Some None else
      case be_at 2 hello 3 of None \<Rightarrow> None | Some rec_len \<Rightarrow>
      if rec_len + 5 > length hello then Some None else
      let pos = 5 in
      if pos + 4 > length hello then Some None else
      case be_at 1 hello pos of None \<Rightarrow> None | Some hs_type \<Rightarrow>
      if hs_type \<noteq> 0x01 then Some None else
      case be_at 3 hello (pos + 1) of None \<Rightarrow> None | Some hs_len \<Rightarrow>
      let pos = pos + 4 in
      if pos + hs_len > length hello then Some None else
      let pos = pos + (2 + 32) in
      if pos \<ge> length hello then Some None else
      case be_at 1 hello pos of None \<Rightarrow> None | Some session_id_len \<Rightarrow>
      let pos = pos + (1 + session_id_len) in
      if pos + 2 > length hello then Some None else
      case be_at 2 hello pos of None \<Rightarrow> None | Some cipher_len \<Rightarrow>
      let pos = pos + (2 + cipher_len) in
      if pos \<ge> length hello then Some None else
      case be_at 1 hello pos of None \<Rightarrow> None | Some compression_len \<Rightarrow>
      let pos = pos + (1 + compression_len) in
      if pos + 2 > length hello then Some None else
      case be_at 2 hello pos of None \<Rightarrow> None | Some extensions_len \<Rightarrow>
      let pos = pos + 2; extensions_end = pos + extensions_len in
      if extensions_end > length hello then Some None else
      sni_extensions hello pos extensions_end)"

definition tls_hello_max :: nat where
  "tls_hello_max = 16 * 1024"

definition read_tls_client_hello :: "rstream \<Rightarrow> (bytes \<times> rstream) result" where
  "read_tls_client_hello stream =
     (case read_bytes 5 stream of
        Inl e \<Rightarrow> Inl e
      | Inr (header, stream) \<Rightarrow>
          if hd header \<noteq> 0x16 then Inl (Protocol ''not a TLS handshake record'')
          else
            let record_len = of_be (drop 3 header) in
            if record_len = 0 \<or> record_len > tls_hello_max then
              Inl (Protocol ''invalid TLS record length'')
            else
              (case read_bytes record_len stream of
                 Inl e \<Rightarrow> Inl e
               | Inr (payload, stream) \<Rightarrow> Inr (header @ payload, stream)))"

subsection \<open>No index is out of bounds\<close>

lemma be_at_Some [simp]: "pos + n \<le> length hello \<Longrightarrow> be_at n hello pos = Some (of_be (take n (drop pos hello)))"
  by (simp add: be_at_def)

lemma slice_at_Some [simp]:
  "i \<le> j \<Longrightarrow> j \<le> length hello \<Longrightarrow> slice_at hello i j = Some (take (j - i) (drop i hello))"
  by (simp add: slice_at_def)

lemma sni_names_total: "sn_end \<le> length hello \<Longrightarrow> \<exists>r. sni_names hello sn_pos sn_end = Some r"
proof (induction hello sn_pos sn_end rule: sni_names.induct)
  case (1 hello p e)
  show ?case
    by (subst sni_names.simps) (use 1 in \<open>simp add: Let_def\<close>)
qed

lemma sni_extensions_total: "e \<le> length hello \<Longrightarrow> \<exists>r. sni_extensions hello p e = Some r"
proof (induction hello p e rule: sni_extensions.induct)
  case (1 hello p e)
  show ?case
    by (subst sni_extensions.simps) (use 1 sni_names_total in \<open>simp add: Let_def\<close>)
qed

lemma parse_tls_sni_total: "\<exists>r. parse_tls_sni hello = Some r"
  by (simp add: parse_tls_sni_def Let_def sni_extensions_total not_less)

subsection \<open>A well-formed ClientHello\<close>

definition enc_extension :: "nat \<times> bytes \<Rightarrow> bytes" where
  "enc_extension x = to_be 2 (fst x) @ to_be 2 (length (snd x)) @ snd x"

definition server_name :: "string \<Rightarrow> bytes" where
  "server_name host = to_be 2 (3 + length host) @ [0] @ to_be 2 (length host) @ as_bytes host"

record hello_parts =
  hp_version :: bytes
  hp_random :: bytes
  hp_session_id :: bytes
  hp_ciphers :: bytes
  hp_compressions :: bytes
  hp_before :: "(nat \<times> bytes) list"
  hp_host :: string
  hp_after :: "(nat \<times> bytes) list"

definition hello_extensions :: "hello_parts \<Rightarrow> bytes" where
  "hello_extensions p =
     concat (map enc_extension (hp_before p @ (0, server_name (hp_host p)) # hp_after p))"

definition hello_prefix :: "hello_parts \<Rightarrow> bytes" where
  "hello_prefix p =
     hp_version p @ hp_random p @ [word_of_nat (length (hp_session_id p))] @ hp_session_id p
     @ to_be 2 (length (hp_ciphers p)) @ hp_ciphers p
     @ [word_of_nat (length (hp_compressions p))] @ hp_compressions p
     @ to_be 2 (length (hello_extensions p))"

definition client_hello :: "hello_parts \<Rightarrow> bytes" where
  "client_hello p =
     (let body = hello_prefix p @ hello_extensions p
      in [0x16, 0x03, 0x01] @ to_be 2 (4 + length body) @ [0x01] @ to_be 3 (length body) @ body)"

definition hello_ok :: "hello_parts \<Rightarrow> bool" where
  "hello_ok p \<longleftrightarrow>
     length (hp_version p) = 2 \<and> length (hp_random p) = 32 \<and> length (hp_session_id p) < 256 \<and>
     length (hp_compressions p) < 256 \<and> list_all (\<lambda>(t, d). 0 < t \<and> t < 65536) (hp_before p) \<and>
     utf8_valid (as_bytes (hp_host p)) \<and>
     4 + length (hello_prefix p) + length (hello_extensions p) < 65536"

lemma be_at_append:
  assumes "hello = pre @ x @ post" "length pre = pos" "length x = n"
  shows "be_at n hello pos = Some (of_be x)"
  using assms by auto

lemma of_be_2: "n < 65536 \<Longrightarrow> of_be (to_be 2 n) = n"
  by simp

lemma sni_names_server_name:
  assumes "hello = pre @ [0] @ to_be 2 (length host) @ as_bytes host @ post" "length host < 65536"
    and "utf8_valid (as_bytes host)"
  shows "sni_names hello (length pre) (length pre + 3 + length host) = Some (Some host)"
proof -
  have "be_at 1 hello (length pre) = Some 0"
    using be_at_append [OF assms(1) refl refl] by simp
  moreover have "be_at 2 hello (length pre + 1) = Some (length host)"
    using be_at_append [of hello "pre @ [0]" "to_be 2 (length host)" "as_bytes host @ post"] assms(1,2)
    by (simp del: be_at_Some)
  moreover have "slice_at hello (length pre + 3) (length pre + 3 + length host) = Some (as_bytes host)"
    using assms(1) by (simp add: slice_at_def)
  ultimately show ?thesis
    using assms(3) by (subst sni_names.simps) (simp add: from_utf8_as_bytes del: be_at_Some slice_at_Some)
qed

lemma sni_extensions_skip:
  assumes "hello = pre @ concat (map enc_extension exts) @ post"
    and "list_all (\<lambda>(t, d). 0 < t \<and> t < 65536) exts" "length hello < 65541" "5 \<le> length pre"
    and "e = length pre + length (concat (map enc_extension exts)) + k" "e \<le> length hello"
  shows "sni_extensions hello (length pre) e
    = sni_extensions hello (length pre + length (concat (map enc_extension exts))) e"
  using assms
proof (induction exts arbitrary: pre)
  case (Cons x exts)
  obtain t d where x: "x = (t, d)" by (cases x)
  have ex: "enc_extension x = to_be 2 t @ to_be 2 (length d) @ d" by (simp add: x enc_extension_def)
  let ?pre = "pre @ enc_extension x"
  have t: "0 < t" "t < 65536" using Cons.prems(2) by (simp_all add: x)
  have d: "length d < 65536" using Cons.prems(1,3,4) by (simp add: ex)
  have "be_at 2 hello (length pre) = Some t"
    using be_at_append [of hello pre "to_be 2 t"
        "to_be 2 (length d) @ d @ concat (map enc_extension exts) @ post"] Cons.prems(1) t(2)
    by (simp add: ex del: be_at_Some)
  moreover have "be_at 2 hello (length pre + 2) = Some (length d)"
    using be_at_append [of hello "pre @ to_be 2 t" "to_be 2 (length d)"
        "d @ concat (map enc_extension exts) @ post"] Cons.prems(1) d
    by (simp add: ex del: be_at_Some)
  moreover have lp: "length ?pre = length pre + 4 + length d" by (simp add: ex)
  moreover have "length pre + 4 + length d \<le> e" using Cons.prems(5) by (simp add: ex)
  ultimately have "sni_extensions hello (length pre) e = sni_extensions hello (length ?pre) e"
    using t(1) unfolding lp by (subst sni_extensions.simps) (simp del: be_at_Some)
  also have "\<dots> = sni_extensions hello (length ?pre + length (concat (map enc_extension exts))) e"
    by (rule Cons.IH) (use Cons.prems in \<open>simp_all\<close>)
  finally show ?case by (simp add: add.assoc)
qed simp

text \<open>Everything before the extensions is stepped over.\<close>

lemma parse_tls_sni_prefix:
  assumes ok: "hello_ok p" and h: "hello = client_hello p"
    and n: "n = 9 + length (hello_prefix p)"
  shows "parse_tls_sni hello = sni_extensions hello n (n + length (hello_extensions p))"
proof -
  let ?x = "hello_extensions p" and ?v = "hp_version p" and ?r = "hp_random p"
  let ?s = "hp_session_id p" and ?c = "hp_ciphers p" and ?k = "hp_compressions p"
  let ?body = "hello_prefix p @ ?x"
  let ?h = "[0x16, 0x03, 0x01] @ to_be 2 (4 + length ?body) @ [0x01] @ to_be 3 (length ?body)"
  have lens: "length ?v = 2" "length ?r = 32" "length ?s < 256" "length ?k < 256"
    "4 + length ?body < 65536" using ok by (simp_all add: hello_ok_def)
  have pl: "length (hello_prefix p) = 40 + length ?s + length ?c + length ?k"
    using lens by (simp add: hello_prefix_def)
  have hello: "hello = ?h @ ?v @ ?r @ [word_of_nat (length ?s)] @ ?s @ to_be 2 (length ?c) @ ?c
      @ [word_of_nat (length ?k)] @ ?k @ to_be 2 (length ?x) @ ?x"
    unfolding h client_hello_def Let_def by (simp add: hello_prefix_def)
  have len: "length hello = n + length ?x" using n by (simp add: h client_hello_def)
  have "be_at 1 hello 0 = Some 0x16" "be_at 1 hello 5 = Some 0x01"
    using be_at_append [of hello "[]" "[0x16]"]
      be_at_append [of hello "[0x16, 0x03, 0x01] @ to_be 2 (4 + length ?body)" "[0x01]"]
    by (simp_all add: hello del: be_at_Some)
  moreover have "be_at 2 hello 3 = Some (4 + length ?body)" "be_at 3 hello (5 + 1) = Some (length ?body)"
    using be_at_append [of hello "[0x16, 0x03, 0x01]" "to_be 2 (4 + length ?body)"]
      be_at_append [of hello "[0x16, 0x03, 0x01] @ to_be 2 (4 + length ?body) @ [0x01]"
        "to_be 3 (length ?body)"] lens(5)
    by (simp_all add: hello del: be_at_Some)
  moreover have "be_at 1 hello 43 = Some (length ?s)"
    using be_at_append [of hello "?h @ ?v @ ?r" "[word_of_nat (length ?s)]"] lens
    by (simp add: hello unat_of_nat del: be_at_Some)
  moreover have "be_at 2 hello (43 + (1 + length ?s)) = Some (length ?c)"
    using be_at_append [of hello "?h @ ?v @ ?r @ [word_of_nat (length ?s)] @ ?s" "to_be 2 (length ?c)"]
      lens pl by (simp add: hello del: be_at_Some)
  moreover have "be_at 1 hello (43 + (1 + length ?s) + (2 + length ?c)) = Some (length ?k)"
    using be_at_append [of hello "?h @ ?v @ ?r @ [word_of_nat (length ?s)] @ ?s @ to_be 2 (length ?c)
        @ ?c" "[word_of_nat (length ?k)]"] lens
    by (simp add: hello unat_of_nat del: be_at_Some)
  moreover have "be_at 2 hello (43 + (1 + length ?s) + (2 + length ?c) + (1 + length ?k))
      = Some (length ?x)"
    using be_at_append [of hello "?h @ ?v @ ?r @ [word_of_nat (length ?s)] @ ?s @ to_be 2 (length ?c)
        @ ?c @ [word_of_nat (length ?k)] @ ?k" "to_be 2 (length ?x)"] lens
    by (simp add: hello del: be_at_Some)
  ultimately show ?thesis
    using len pl n by (simp add: parse_tls_sni_def Let_def ac_simps del: be_at_Some)
qed

lemma length_server_name: "length (server_name host) = 5 + length host"
  by (simp add: server_name_def)

lemma sni_extensions_host:
  assumes "hello = pre @ enc_extension (0, server_name host) @ post" "length host + 5 < 65536"
    and "utf8_valid (as_bytes host)" "e = length pre + length (enc_extension (0, server_name host)) + k"
  shows "sni_extensions hello (length pre) e = Some (Some host)"
proof -
  let ?n = "length host"
  have ex: "enc_extension (0, server_name host)
      = to_be 2 0 @ to_be 2 (5 + ?n) @ to_be 2 (3 + ?n) @ [0] @ to_be 2 ?n @ as_bytes host"
    by (simp only: enc_extension_def fst_conv snd_conv length_server_name) (simp add: server_name_def)
  have "be_at 2 hello (length pre) = Some 0"
    using be_at_append [of hello pre "to_be 2 0"] assms(1) by (simp add: ex del: be_at_Some)
  moreover have "be_at 2 hello (length pre + 2) = Some (5 + ?n)"
    using be_at_append [of hello "pre @ to_be 2 0" "to_be 2 (5 + ?n)"] assms(1,2)
    by (simp add: ex del: be_at_Some)
  moreover have "sni_names hello (length pre + 4 + 2) (length pre + 4 + (5 + ?n)) = Some (Some host)"
    using sni_names_server_name [of hello "pre @ to_be 2 0 @ to_be 2 (5 + ?n) @ to_be 2 (3 + ?n)"]
      assms(1-3) by (simp add: ex ac_simps)
  moreover have "length pre + 4 + (5 + ?n) \<le> e" using assms(4) by (simp add: ex)
  ultimately show ?thesis by (subst sni_extensions.simps) (simp del: be_at_Some)
qed

lemma parse_tls_sni_finds:
  assumes "hello_ok p"
  shows "parse_tls_sni (client_hello p) = Some (Some (hp_host p))"
proof -
  let ?h = "client_hello p" and ?n = "9 + length (hello_prefix p)" and ?x = "hello_extensions p"
  let ?b = "concat (map enc_extension (hp_before p))"
  let ?s = "enc_extension (0, server_name (hp_host p))"
  let ?a = "concat (map enc_extension (hp_after p))"
  let ?pre = "[0x16, 0x03, 0x01] @ to_be 2 (4 + (length (hello_prefix p) + length ?x)) @ [0x01]
      @ to_be 3 (length (hello_prefix p) + length ?x) @ hello_prefix p"
  have x: "?x = ?b @ ?s @ ?a" by (simp add: hello_extensions_def)
  have h: "?h = ?pre @ ?b @ ?s @ ?a" "?h = (?pre @ ?b) @ ?s @ ?a"
    unfolding client_hello_def Let_def by (simp_all add: x)
  have n: "?n = length ?pre" by simp
  have len: "length ?h = ?n + length ?x" "length ?h < 65541"
    using assms by (simp_all add: client_hello_def hello_ok_def)
  have "parse_tls_sni ?h = sni_extensions ?h ?n (?n + length ?x)"
    by (rule parse_tls_sni_prefix [OF assms refl refl])
  also have "\<dots> = sni_extensions ?h (length ?pre + length ?b) (?n + length ?x)"
    unfolding n
  proof (rule sni_extensions_skip [OF h(1) _ len(2)])
    show "list_all (\<lambda>(t, d). 0 < t \<and> t < 65536) (hp_before p)" using assms by (simp add: hello_ok_def)
    show "length ?pre + length ?x = length ?pre + length ?b + (length ?s + length ?a)" by (simp add: x)
    show "length ?pre + length ?x \<le> length ?h" using len(1) by simp
  qed simp
  also have "\<dots> = Some (Some (hp_host p))"
  proof -
    have "length (hp_host p) + 5 < 65536"
      using assms by (simp add: hello_ok_def x enc_extension_def server_name_def)
    moreover have "utf8_valid (as_bytes (hp_host p))" using assms by (simp add: hello_ok_def)
    ultimately have "sni_extensions ?h (length (?pre @ ?b)) (length (?pre @ ?b) + length ?s + length ?a)
        = Some (Some (hp_host p))"
      by (rule sni_extensions_host [OF h(2) _ _ refl])
    then show ?thesis by (simp add: x ac_simps)
  qed
  finally show ?thesis .
qed

subsection \<open>Claims\<close>

text \<open>
  C26: The SNI parser never panics: whatever bytes arrive, every index and every slice it takes is
  within the record, and both of its loops end.
\<close>

theorem parse_tls_sni_never_panics: "\<exists>r. parse_tls_sni hello = Some r"
  by (rule parse_tls_sni_total)

text \<open>
  The SNI parser finds the name. From every well-formed ClientHello, with any session id,
  cipher suites, compression methods and extensions around the server name, it returns exactly the
  host name the client put there.
\<close>

theorem parse_tls_sni_finds_host:
  "hello_ok p \<Longrightarrow> parse_tls_sni (client_hello p) = Some (Some (hp_host p))"
  by (rule parse_tls_sni_finds)

definition demo_hello :: hello_parts where
  "demo_hello =
     \<lparr>hp_version = [3, 3], hp_random = replicate 32 0, hp_session_id = [1, 2], hp_ciphers = [0, 0x2f],
      hp_compressions = [0], hp_before = [(10, [0, 2, 0, 23])], hp_host = ''api.example.com'',
      hp_after = [(43, [2, 3, 4])]\<rparr>"

lemma demo_hello_ok: "hello_ok demo_hello"
  by (simp add: demo_hello_def hello_ok_def as_bytes_def as_byte_def hello_prefix_def
      hello_extensions_def enc_extension_def server_name_def)

theorem parse_tls_sni_finds_host_witness:
  "parse_tls_sni (client_hello demo_hello) = Some (Some ''api.example.com'')"
  using parse_tls_sni_finds_host [OF demo_hello_ok] by (simp add: demo_hello_def)

end
