(* ===== verification/WorkConn.thy ===== *)
theory WorkConn
  imports Messages
begin

text \<open>
  How a public connection obtains a work connection to the client: the proxy puts a
  \<^verbatim>\<open>WorkConnRequest\<close> (\<^verbatim>\<open>arp-server/src/proxy/mod.rs\<close>) on the queue of the client's session and waits at
  most ten seconds for the reply. A session's queue and a work connection are known by their
  numbers. The three callers (\<^verbatim>\<open>tcp.rs\<close>, \<^verbatim>\<open>vhost.rs\<close>, \<^verbatim>\<open>udp.rs\<close>) differ in their error texts and in what
  the \<^verbatim>\<open>StartWorkConn\<close> message carries.
\<close>

type_synonym chan = nat
type_synonym conn = nat

record work_conn_request =
  wq_proxy_name :: string
  wq_reply_tx :: nat

text \<open>What becomes of a request: the queue is gone, no reply in time, reply dropped, or granted.\<close>

datatype work_reply = QueueClosed | ReplyTimeout | ReplyDropped | Granted conn

fun await_reply :: "error \<Rightarrow> error \<Rightarrow> error \<Rightarrow> work_reply \<Rightarrow> conn result" where
  "await_reply closed timeout dropped QueueClosed = Inl closed"
| "await_reply closed timeout dropped ReplyTimeout = Inl timeout"
| "await_reply closed timeout dropped ReplyDropped = Inl dropped"
| "await_reply closed timeout dropped (Granted c) = Inr c"

definition start_work :: "string \<Rightarrow> string \<Rightarrow> string \<Rightarrow> message" where
  "start_work proxy_name src dst =
     StartWorkConn \<lparr>sw_proxy_name = proxy_name, sw_src_addr = src, sw_dst_addr = dst, sw_error = []\<rparr>"

definition request_work_transport ::
  "(conn \<Rightarrow> message \<Rightarrow> unit result) \<Rightarrow> string \<Rightarrow> u16 \<Rightarrow> work_reply \<Rightarrow> conn result" where
  "request_work_transport send proxy_name remote_port reply =
     (case await_reply (Transport ''Failed to request work connection'')
         (Timeout ''Work connection timeout'') (Transport ''Work connection channel closed'') reply of
        Inl e \<Rightarrow> Inl e
      | Inr work_transport \<Rightarrow>
          (case send work_transport
              (start_work proxy_name [] (''0.0.0.0:'' @ show_nat (unat remote_port))) of
             Inl e \<Rightarrow> Inl e
           | Inr _ \<Rightarrow> Inr work_transport))"

definition request_work_conn ::
  "(conn \<Rightarrow> message \<Rightarrow> unit result) \<Rightarrow> string \<Rightarrow> string \<Rightarrow> string \<Rightarrow> work_reply \<Rightarrow> conn result" where
  "request_work_conn send proxy_name src_addr dst_addr reply =
     (case await_reply (Transport ''failed to request work connection from control'')
         (Timeout ''work connection timeout'') (Transport ''work connection channel closed'') reply of
        Inl e \<Rightarrow> Inl e
      | Inr work_transport \<Rightarrow>
          (case send work_transport (start_work proxy_name src_addr dst_addr) of
             Inl e \<Rightarrow> Inl e
           | Inr _ \<Rightarrow> Inr work_transport))"

definition request_udp_work_conn ::
  "(conn \<Rightarrow> message \<Rightarrow> unit result) \<Rightarrow> string \<Rightarrow> u16 \<Rightarrow> work_reply \<Rightarrow> conn result" where
  "request_udp_work_conn send proxy_name remote_port reply =
     (case await_reply (Transport ''failed to request udp work connection'')
         (Timeout ''udp work connection timeout'') (Transport ''udp work connection channel closed'')
         reply of
        Inl e \<Rightarrow> Inl e
      | Inr work_transport \<Rightarrow>
          (case send work_transport
              (start_work proxy_name [] (''0.0.0.0:'' @ show_nat (unat remote_port))) of
             Inl e \<Rightarrow> Inl e
           | Inr _ \<Rightarrow> Inr work_transport))"

lemma await_reply_Inr: "await_reply c t d reply = Inr w \<longleftrightarrow> reply = Granted w"
  by (cases reply) auto

lemma await_reply_Inl: "await_reply c t d reply = Inl e \<Longrightarrow> e \<in> {c, t, d}"
  by (cases reply) auto

lemma request_work_transport_Inr:
  "request_work_transport send name port reply = Inr w \<Longrightarrow>
   reply = Granted w \<and> send w (start_work name [] (''0.0.0.0:'' @ show_nat (unat port))) = Inr ()"
  by (auto simp: request_work_transport_def await_reply_Inr split: sum.splits)

lemma request_work_conn_Inr:
  "request_work_conn send name src dst reply = Inr w \<Longrightarrow>
   reply = Granted w \<and> send w (start_work name src dst) = Inr ()"
  by (auto simp: request_work_conn_def await_reply_Inr split: sum.splits)

end
