(* ===== verification/Vhost.thy ===== *)
theory Vhost
  imports HttpHost Sni WorkConn
begin

text \<open>
  \<^verbatim>\<open>VhostManager\<close> of \<^verbatim>\<open>arp-server/src/proxy/vhost.rs\<close>: the tables that route HTTP requests by \<^verbatim>\<open>Host\<close>
  header and TLS connections by server name, with one round-robin counter per domain. The order in
  which a concurrent map is iterated is an argument. The locale \<open>route_table\<close> is the contract of a
  routing table, interpreted for the functions of the manager.
\<close>

record vhost_route =
  vr_route_key :: string
  vr_proxy_name :: string
  vr_work_conn_req_tx :: chan

type_synonym routes = "string \<rightharpoonup> vhost_route list"
type_synonym counters = "string \<rightharpoonup> u64"

record vhost_manager =
  vm_bind_addr :: string
  vm_subdomain_host :: string
  vm_http_port :: u16
  vm_https_port :: u16
  vm_http_routes :: routes
  vm_https_routes :: routes
  vm_http_rr :: counters
  vm_https_rr :: counters
  vm_http_started :: bool
  vm_https_started :: bool

definition vhost_new :: "platform \<Rightarrow> string \<Rightarrow> string \<Rightarrow> u16 \<Rightarrow> u16 \<Rightarrow> vhost_manager" where
  "vhost_new pf bind_addr subdomain_host http_port https_port =
     \<lparr>vm_bind_addr = bind_addr,
      vm_subdomain_host = to_lowercase pf (trim_end_matches CHR ''.'' (trim subdomain_host)),
      vm_http_port = http_port, vm_https_port = https_port,
      vm_http_routes = Map.empty, vm_https_routes = Map.empty,
      vm_http_rr = Map.empty, vm_https_rr = Map.empty,
      vm_http_started = False, vm_https_started = False\<rparr>"

definition collect_domains :: "platform \<Rightarrow> vhost_manager \<Rightarrow> new_proxy_msg \<Rightarrow> string list result" where
  "collect_domains pf vm msg =
     (let domains = filter (\<lambda>d. d \<noteq> []) (map (normalize_host pf) (np_custom_domains msg)) in
      if trim (np_subdomain msg) \<noteq> [] \<and> vm_subdomain_host vm = [] then
        Inl (Proxy ''subdomain is set but server subdomain_host is empty'')
      else
        let domains =
              (if trim (np_subdomain msg) \<noteq> []
               then domains @ [to_lowercase pf (trim (np_subdomain msg)) @ ''.'' @ vm_subdomain_host vm]
               else domains);
            domains = remdups_adj (sort domains)
        in if domains = [] then
             Inl (Proxy ''http/https proxy requires custom_domains or subdomain'')
           else Inr domains)"

definition add_route ::
  "string \<Rightarrow> string \<Rightarrow> chan \<Rightarrow> string \<Rightarrow> routes \<times> counters \<Rightarrow> routes \<times> counters" where
  "add_route route_key proxy_name tx domain t =
     (case t of (routes, rr) \<Rightarrow>
        let entry = (case routes domain of None \<Rightarrow> [] | Some rs \<Rightarrow> rs);
            entry = (if \<not> list_ex (\<lambda>r. vr_route_key r = route_key) entry
                     then entry @ [\<lparr>vr_route_key = route_key, vr_proxy_name = proxy_name,
                                    vr_work_conn_req_tx = tx\<rparr>]
                     else entry)
        in (routes(domain \<mapsto> entry),
            case rr domain of None \<Rightarrow> rr(domain \<mapsto> 0) | Some _ \<Rightarrow> rr))"

definition add_routes ::
  "string list \<Rightarrow> string \<Rightarrow> string \<Rightarrow> chan \<Rightarrow> routes \<times> counters \<Rightarrow> routes \<times> counters" where
  "add_routes domains route_key proxy_name tx t =
     fold (add_route route_key proxy_name tx) domains t"

definition register_http ::
  "platform \<Rightarrow> string \<Rightarrow> new_proxy_msg \<Rightarrow> chan \<Rightarrow> vhost_manager \<Rightarrow> string result \<times> vhost_manager" where
  "register_http pf run_id msg tx vm =
     (if vm_http_port vm = 0 then
        (Inl (Proxy ''vhost_http_port is 0, HTTP vhost proxy is disabled''), vm)
      else
        case collect_domains pf vm msg of
          Inl e \<Rightarrow> (Inl e, vm)
        | Inr domains \<Rightarrow>
            let route_key = run_id @ '':'' @ np_proxy_name msg;
                (routes, rr) = add_routes domains route_key (np_proxy_name msg) tx
                  (vm_http_routes vm, vm_http_rr vm)
            in (Inr (''http://'' @ domains ! 0 @ '':'' @ show_nat (unat (vm_http_port vm))),
                vm\<lparr>vm_http_routes := routes, vm_http_rr := rr, vm_http_started := True\<rparr>))"

definition register_https ::
  "platform \<Rightarrow> string \<Rightarrow> new_proxy_msg \<Rightarrow> chan \<Rightarrow> vhost_manager \<Rightarrow> string result \<times> vhost_manager" where
  "register_https pf run_id msg tx vm =
     (if vm_https_port vm = 0 then
        (Inl (Proxy ''vhost_https_port is 0, HTTPS vhost proxy is disabled''), vm)
      else
        case collect_domains pf vm msg of
          Inl e \<Rightarrow> (Inl e, vm)
        | Inr domains \<Rightarrow>
            let route_key = run_id @ '':'' @ np_proxy_name msg;
                (routes, rr) = add_routes domains route_key (np_proxy_name msg) tx
                  (vm_https_routes vm, vm_https_rr vm)
            in (Inr (''https://'' @ domains ! 0 @ '':'' @ show_nat (unat (vm_https_port vm))),
                vm\<lparr>vm_https_routes := routes, vm_https_rr := rr, vm_https_started := True\<rparr>))"

text \<open>The listener task of either port gave up: the next registration starts it again.\<close>

definition http_listener_stopped :: "vhost_manager \<Rightarrow> vhost_manager" where
  "http_listener_stopped vm = vm\<lparr>vm_http_started := False\<rparr>"

definition https_listener_stopped :: "vhost_manager \<Rightarrow> vhost_manager" where
  "https_listener_stopped vm = vm\<lparr>vm_https_started := False\<rparr>"

definition remove_at :: "string \<Rightarrow> string \<Rightarrow> routes \<times> counters \<Rightarrow> routes \<times> counters" where
  "remove_at route_key key t =
     (case t of (routes, rr) \<Rightarrow>
        case routes key of
          None \<Rightarrow> (routes(key := None), rr(key := None))
        | Some entry \<Rightarrow>
            let entry = filter (\<lambda>r. vr_route_key r \<noteq> route_key) entry in
            if entry \<noteq> [] then (routes(key \<mapsto> entry), rr)
            else (routes(key := None), rr(key := None)))"

definition remove_routes :: "string list \<Rightarrow> string \<Rightarrow> routes \<times> counters \<Rightarrow> routes \<times> counters" where
  "remove_routes order route_key t =
     (let keys = filter (\<lambda>k. case fst t k of None \<Rightarrow> False
                   | Some entry \<Rightarrow> list_ex (\<lambda>r. vr_route_key r = route_key) entry) order
      in fold (remove_at route_key) keys t)"

definition unregister_route ::
  "string list \<Rightarrow> string \<Rightarrow> string \<Rightarrow> vhost_manager \<Rightarrow> vhost_manager" where
  "unregister_route order route_key proxy_type vm =
     (if proxy_type = ''http'' then
        let (routes, rr) = remove_routes order route_key (vm_http_routes vm, vm_http_rr vm)
        in vm\<lparr>vm_http_routes := routes, vm_http_rr := rr\<rparr>
      else if proxy_type = ''https'' then
        let (routes, rr) = remove_routes order route_key (vm_https_routes vm, vm_https_rr vm)
        in vm\<lparr>vm_https_routes := routes, vm_https_rr := rr\<rparr>
      else vm)"

text \<open>The choice of a backend, the same for both tables.\<close>

definition pick_route :: "string \<Rightarrow> routes \<times> counters \<Rightarrow> vhost_route option \<times> counters" where
  "pick_route domain t =
     (case t of (routes, rr) \<Rightarrow>
        case routes domain of
          None \<Rightarrow> (None, rr)
        | Some rs \<Rightarrow>
            if rs = [] then (None, rr)
            else
              let c = (case rr domain of None \<Rightarrow> 0 | Some c \<Rightarrow> c)
              in (Some (rs ! (unat c mod length rs)), rr(domain \<mapsto> c + 1)))"

text \<open>
  A public connection: what the client sends first, its addresses, the fate of the work connection
  request, the outcome of writing the bytes read so far to the work connection and of the copying
  after that. The result carries the route and the bytes that open the work connection.
\<close>

record public_conn =
  pb_src :: string
  pb_dst :: string
  pb_reply :: work_reply
  pb_start :: "conn \<Rightarrow> message \<Rightarrow> unit result"
  pb_write :: "bytes \<Rightarrow> unit result"
  pb_copy :: "unit result"

definition forward :: "public_conn \<Rightarrow> vhost_route \<Rightarrow> bytes \<Rightarrow> unit result" where
  "forward pc route head =
     (case request_work_conn (pb_start pc) (vr_proxy_name route) (pb_src pc) (pb_dst pc) (pb_reply pc) of
        Inl e \<Rightarrow> Inl e
      | Inr _ \<Rightarrow>
          (case pb_write pc head of
             Inl e \<Rightarrow> Inl e
           | Inr _ \<Rightarrow> pb_copy pc))"

definition handle_http_conn ::
  "platform \<Rightarrow> bytes list \<Rightarrow> read_end \<Rightarrow> public_conn \<Rightarrow> vhost_manager \<Rightarrow>
   (unit result \<times> (vhost_route \<times> bytes) option) \<times> vhost_manager" where
  "handle_http_conn pf chunks fin pc vm =
     (case read_http_request_head chunks fin of
        Inl e \<Rightarrow> ((Inl e, None), vm)
      | Inr request_head \<Rightarrow>
          (case extract_http_host request_head of
             None \<Rightarrow> ((Inl (Protocol ''missing Host header''), None), vm)
           | Some host \<Rightarrow>
               let domain = normalize_host pf host in
               (case pick_route domain (vm_http_routes vm, vm_http_rr vm) of
                  (None, rr) \<Rightarrow>
                    ((Inl (Proxy (''no http route for host '' @ domain)), None), vm\<lparr>vm_http_rr := rr\<rparr>)
                | (Some route, rr) \<Rightarrow>
                    ((forward pc route request_head, Some (route, request_head)),
                     vm\<lparr>vm_http_rr := rr\<rparr>))))"

definition handle_https_conn ::
  "platform \<Rightarrow> rstream \<Rightarrow> public_conn \<Rightarrow> vhost_manager \<Rightarrow>
   (unit result \<times> (vhost_route \<times> bytes) option) \<times> vhost_manager" where
  "handle_https_conn pf stream pc vm =
     (case read_tls_client_hello stream of
        Inl e \<Rightarrow> ((Inl e, None), vm)
      | Inr (hello, _) \<Rightarrow>
          (case parse_tls_sni hello of
             Some (Some sni) \<Rightarrow>
               let domain = normalize_host pf sni in
               (case pick_route domain (vm_https_routes vm, vm_https_rr vm) of
                  (None, rr) \<Rightarrow>
                    ((Inl (Proxy (''no https route for sni '' @ domain)), None), vm\<lparr>vm_https_rr := rr\<rparr>)
                | (Some route, rr) \<Rightarrow>
                    ((forward pc route hello, Some (route, hello)),
                     vm\<lparr>vm_https_rr := rr\<rparr>))
           | _ \<Rightarrow> ((Inl (Protocol ''missing TLS SNI''), None), vm)))"

subsection \<open>What a table routes\<close>

definition routed :: "routes \<times> counters \<Rightarrow> string \<Rightarrow> string \<Rightarrow> bool" where
  "routed t domain key \<longleftrightarrow> (\<exists>rs. fst t domain = Some rs \<and> key \<in> vr_route_key ` set rs)"

definition table_inv :: "routes \<times> counters \<Rightarrow> bool" where
  "table_inv t \<longleftrightarrow> finite (dom (fst t)) \<and> dom (fst t) = dom (snd t) \<and>
     (\<forall>d rs. fst t d = Some rs \<longrightarrow> rs \<noteq> [] \<and> distinct (map vr_route_key rs))"

lemma table_inv_empty [inv_intros]: "table_inv (Map.empty, Map.empty)"
  by (simp add: table_inv_def)

lemma add_route_at:
  "fst (add_route k p tx d t) d' =
     (if d' = d then
        Some (let rs = (case fst t d of None \<Rightarrow> [] | Some rs \<Rightarrow> rs) in
          if k \<in> vr_route_key ` set rs then rs
          else rs @ [\<lparr>vr_route_key = k, vr_proxy_name = p, vr_work_conn_req_tx = tx\<rparr>])
      else fst t d')"
  by (auto simp: add_route_def Let_def list_ex_iff image_iff split: prod.splits)

lemma dom_add_route:
  "dom (fst (add_route k p tx d t)) = insert d (dom (fst t))"
  "dom (snd (add_route k p tx d t)) = insert d (dom (snd t))"
  by (auto simp: add_route_def Let_def split: prod.splits option.splits)

lemma table_inv_add_route [inv_intros]: "table_inv t \<Longrightarrow> table_inv (add_route k p tx d t)"
  by (auto simp: table_inv_def dom_add_route add_route_at Let_def split: if_splits option.splits)

lemma routed_add_route:
  "routed (add_route k p tx d t) d' k' \<longleftrightarrow> routed t d' k' \<or> d' = d \<and> k' = k"
  by (cases "fst t d") (auto simp: routed_def add_route_at Let_def)

lemma table_inv_add_routes [inv_intros]: "table_inv t \<Longrightarrow> table_inv (add_routes ds k p tx t)"
  unfolding add_routes_def by (induction ds arbitrary: t) (simp_all add: table_inv_add_route)

lemma routed_add_routes:
  "routed (add_routes ds k p tx t) d k' \<longleftrightarrow> routed t d k' \<or> d \<in> set ds \<and> k' = k"
  unfolding add_routes_def by (induction ds arbitrary: t) (auto simp: routed_add_route)

text \<open>Removal touches every domain on its own.\<close>

definition drop_key :: "string \<Rightarrow> vhost_route list option \<Rightarrow> vhost_route list option" where
  "drop_key k x =
     (case x of
        None \<Rightarrow> None
      | Some rs \<Rightarrow>
          let rs' = filter (\<lambda>r. vr_route_key r \<noteq> k) rs in if rs' = [] then None else Some rs')"

lemma drop_key_None [simp]: "drop_key k None = None"
  by (simp add: drop_key_def)

lemma remove_at_drop_key:
  "remove_at k d t =
     ((fst t)(d := drop_key k (fst t d)),
      (snd t)(d := if drop_key k (fst t d) = None then None else snd t d))"
  by (cases t) (auto simp: remove_at_def drop_key_def Let_def fun_eq_iff split: option.splits)

lemma drop_key_idem [simp]: "drop_key k (drop_key k x) = drop_key k x"
  by (auto simp: drop_key_def Let_def split: option.splits)

lemma fold_remove_at:
  "fold (remove_at k) ds t =
     (\<lambda>d. if d \<in> set ds then drop_key k (fst t d) else fst t d,
      \<lambda>d. if d \<in> set ds \<and> drop_key k (fst t d) = None then None else snd t d)"
proof (induction ds arbitrary: t)
  case (Cons d ds)
  have "fold (remove_at k) (d # ds) t = fold (remove_at k) ds (remove_at k d t)"
    by (simp only: fold_Cons o_apply)
  also note Cons.IH
  also have "(\<lambda>d'. if d' \<in> set ds then drop_key k (fst (remove_at k d t) d') else fst (remove_at k d t) d',
      \<lambda>d'. if d' \<in> set ds \<and> drop_key k (fst (remove_at k d t) d') = None then None
        else snd (remove_at k d t) d')
    = (\<lambda>d'. if d' \<in> set (d # ds) then drop_key k (fst t d') else fst t d',
       \<lambda>d'. if d' \<in> set (d # ds) \<and> drop_key k (fst t d') = None then None else snd t d')"
    by (auto simp: remove_at_drop_key fun_eq_iff)
  finally show ?case .
qed simp

lemma drop_key_other:
  "\<not> (\<exists>rs. x = Some rs \<and> k \<in> vr_route_key ` set rs) \<Longrightarrow> x \<noteq> Some [] \<Longrightarrow> drop_key k x = x"
proof (cases x)
  case (Some rs)
  assume *: "\<not> (\<exists>rs. x = Some rs \<and> k \<in> vr_route_key ` set rs)" "x \<noteq> Some []"
  with Some have "filter (\<lambda>r. vr_route_key r \<noteq> k) rs = rs" by (auto simp: filter_id_conv)
  with Some * show ?thesis by (simp add: drop_key_def)
qed (simp add: drop_key_def)

lemma remove_routes_eq:
  assumes "table_inv t" "dom (fst t) \<subseteq> set order"
  shows "remove_routes order k t =
     (\<lambda>d. drop_key k (fst t d), \<lambda>d. if drop_key k (fst t d) = None then None else snd t d)"
proof -
  let ?ks = "filter (\<lambda>d. case fst t d of None \<Rightarrow> False
      | Some e \<Rightarrow> list_ex (\<lambda>r. vr_route_key r = k) e) order"
  have inv: "fst t d \<noteq> Some []" for d using assms(1) by (auto simp: table_inv_def)
  have same: "fst t d = None \<longleftrightarrow> snd t d = None" for d
    using assms(1) unfolding table_inv_def by (metis domIff)
  have other: "drop_key k (fst t d) = fst t d" if "d \<notin> set ?ks" for d
  proof (rule drop_key_other)
    show "\<not> (\<exists>rs. fst t d = Some rs \<and> k \<in> vr_route_key ` set rs)"
    proof
      assume "\<exists>rs. fst t d = Some rs \<and> k \<in> vr_route_key ` set rs"
      then obtain rs where "fst t d = Some rs" "list_ex (\<lambda>r. vr_route_key r = k) rs"
        by (auto simp: list_ex_iff)
      with assms(2) have "d \<in> set ?ks" by auto
      with that show False by blast
    qed
  qed (rule inv)
  show ?thesis
    unfolding remove_routes_def Let_def fold_remove_at
    using other same by (auto simp: fun_eq_iff)
qed

lemma routed_drop_key:
  "(\<exists>rs. drop_key k x = Some rs \<and> k' \<in> vr_route_key ` set rs) \<longleftrightarrow>
   (\<exists>rs. x = Some rs \<and> k' \<in> vr_route_key ` set rs) \<and> k' \<noteq> k"
  by (cases x) (auto simp: drop_key_def Let_def filter_empty_conv split: if_splits)

lemma routed_remove_routes:
  assumes "table_inv t" "dom (fst t) \<subseteq> set order"
  shows "routed (remove_routes order k t) d k' \<longleftrightarrow> routed t d k' \<and> k' \<noteq> k"
  unfolding remove_routes_eq [OF assms] routed_def fst_conv by (rule routed_drop_key)

lemma table_inv_remove_routes [inv_intros]:
  assumes "table_inv t" "dom (fst t) \<subseteq> set order"
  shows "table_inv (remove_routes order k t)"
proof -
  have "dom (\<lambda>d. drop_key k (fst t d)) \<subseteq> dom (fst t)"
    by (auto simp: drop_key_def split: option.splits)
  then show ?thesis
    using assms(1) unfolding remove_routes_eq [OF assms] table_inv_def
    by (auto simp: dom_def drop_key_def Let_def distinct_map_filter
        intro: rev_finite_subset split: option.splits if_splits)
qed

lemma table_inv_pick_route [inv_intros]:
  "table_inv t \<Longrightarrow> table_inv (fst t, snd (pick_route d t))"
  by (cases t; cases "fst t d") (auto simp: table_inv_def pick_route_def Let_def)

lemma pick_route_None: "table_inv t \<Longrightarrow> fst (pick_route d t) = None \<longleftrightarrow> fst t d = None"
  by (auto simp: table_inv_def pick_route_def Let_def split: prod.splits option.splits)

lemma pick_route_Some:
  assumes "fst (pick_route d t) = Some r"
  shows "\<exists>rs. fst t d = Some rs \<and> r \<in> set rs"
  using assms by (auto simp: pick_route_def Let_def split: prod.splits option.splits if_splits)

subsection \<open>The contract of a routing table\<close>

text \<open>
  The abstract table is a set of pairs of a domain and the key of a proxy that serves it.
\<close>

datatype route_op =
    AddRoutes "string list" string string chan
  | RemoveRoutes string
  | PickRoute string

fun spec_op :: "route_op \<Rightarrow> (string \<times> string) set \<Rightarrow> (string \<times> string) set" where
  "spec_op (AddRoutes ds k p tx) A = A \<union> set ds \<times> {k}"
| "spec_op (RemoveRoutes k) A = {(d, k'). (d, k') \<in> A \<and> k' \<noteq> k}"
| "spec_op (PickRoute d) A = A"

fun run_route_op ::
  "(string list \<Rightarrow> string \<Rightarrow> string \<Rightarrow> chan \<Rightarrow> 't \<Rightarrow> 't) \<Rightarrow> (string \<Rightarrow> 't \<Rightarrow> 't) \<Rightarrow>
   (string \<Rightarrow> 't \<Rightarrow> string option \<times> 't) \<Rightarrow> route_op \<Rightarrow> 't \<Rightarrow> 't" where
  "run_route_op add remove pick (AddRoutes ds k p tx) t = add ds k p tx t"
| "run_route_op add remove pick (RemoveRoutes k) t = remove k t"
| "run_route_op add remove pick (PickRoute d) t = snd (pick d t)"

locale route_table =
  fixes inv :: "'t \<Rightarrow> bool"
    and serves :: "'t \<Rightarrow> string \<Rightarrow> string \<Rightarrow> bool"
    and add :: "string list \<Rightarrow> string \<Rightarrow> string \<Rightarrow> chan \<Rightarrow> 't \<Rightarrow> 't"
    and remove :: "string \<Rightarrow> 't \<Rightarrow> 't"
    and pick :: "string \<Rightarrow> 't \<Rightarrow> string option \<times> 't"
  assumes inv_add: "inv t \<Longrightarrow> inv (add ds k p tx t)"
    and inv_remove: "inv t \<Longrightarrow> inv (remove k t)"
    and inv_pick: "inv t \<Longrightarrow> inv (snd (pick d t))"
    and serves_add: "inv t \<Longrightarrow> serves (add ds k p tx t) d k' \<longleftrightarrow> serves t d k' \<or> d \<in> set ds \<and> k' = k"
    and serves_remove: "inv t \<Longrightarrow> serves (remove k t) d k' \<longleftrightarrow> serves t d k' \<and> k' \<noteq> k"
    and serves_pick: "inv t \<Longrightarrow> serves (snd (pick d t)) = serves t"
    and pick_Some: "inv t \<Longrightarrow> fst (pick d t) = Some k \<Longrightarrow> serves t d k"
    and pick_None: "inv t \<Longrightarrow> fst (pick d t) = None \<Longrightarrow> \<not> serves t d k"
begin

lemma run_op_refines:
  "inv t \<Longrightarrow> inv (run_route_op add remove pick op t) \<and>
   {(d, k). serves (run_route_op add remove pick op t) d k} = spec_op op {(d, k). serves t d k}"
  by (cases op) (auto simp: inv_add inv_remove inv_pick serves_add serves_remove serves_pick)

lemma run_ops_refine:
  "inv t \<Longrightarrow> inv (fold (run_route_op add remove pick) ops t) \<and>
   {(d, k). serves (fold (run_route_op add remove pick) ops t) d k}
     = fold spec_op ops {(d, k). serves t d k}"
  by (induction ops arbitrary: t) (simp_all add: run_op_refines)

lemma removed_never_picked:
  assumes "inv t" "fst (pick d (remove k t)) = Some k'"
  shows "k' \<noteq> k \<and> serves t d k'"
  using pick_Some [OF inv_remove [OF assms(1)] assms(2)] serves_remove [OF assms(1)] by blast

lemma added_is_served:
  assumes "inv t" "d \<in> set ds"
  shows "fst (pick d (add ds k p tx t)) \<noteq> None"
  using pick_None [OF inv_add [OF assms(1)]] serves_add [OF assms(1)] assms(2) by blast

end

definition all_domains :: "routes \<times> counters \<Rightarrow> string list" where
  "all_domains t = sorted_list_of_set (dom (fst t))"

lemma set_all_domains: "table_inv t \<Longrightarrow> dom (fst t) \<subseteq> set (all_domains t)"
  unfolding all_domains_def table_inv_def by (metis set_sorted_list_of_set order_refl)

lemma remove_routes_order:
  "table_inv t \<Longrightarrow> dom (fst t) \<subseteq> set order \<Longrightarrow> remove_routes order k t = remove_routes (all_domains t) k t"
  using set_all_domains by (simp add: remove_routes_eq)

definition pick_key :: "string \<Rightarrow> routes \<times> counters \<Rightarrow> string option \<times> (routes \<times> counters)" where
  "pick_key d t =
     (case pick_route d t of (r, rr) \<Rightarrow> (map_option vr_route_key r, (fst t, rr)))"

interpretation vt: route_table table_inv routed add_routes
  "\<lambda>k t. remove_routes (all_domains t) k t" pick_key
proof
  fix t ds k k' d p tx
  assume inv: "table_inv t"
  show "table_inv (add_routes ds k p tx t)" using inv by (rule table_inv_add_routes)
  show "routed (add_routes ds k p tx t) d k' \<longleftrightarrow> routed t d k' \<or> d \<in> set ds \<and> k' = k"
    by (rule routed_add_routes)
  show "table_inv (remove_routes (all_domains t) k t)"
    using inv set_all_domains [OF inv] by (rule table_inv_remove_routes)
  show "routed (remove_routes (all_domains t) k t) d k' \<longleftrightarrow> routed t d k' \<and> k' \<noteq> k"
    using inv set_all_domains [OF inv] by (rule routed_remove_routes)
  show "table_inv (snd (pick_key d t))"
    using table_inv_pick_route [OF inv, of d] by (cases "pick_route d t") (simp add: pick_key_def)
  show "routed (snd (pick_key d t)) = routed t"
    by (simp add: pick_key_def routed_def fun_eq_iff split: prod.splits)
  show "fst (pick_key d t) = Some k \<Longrightarrow> routed t d k"
    using pick_route_Some [of d t] by (force simp: pick_key_def routed_def split: prod.splits)
  show "fst (pick_key d t) = None \<Longrightarrow> \<not> routed t d k"
    using pick_route_None [OF inv, of d] by (auto simp: pick_key_def routed_def split: prod.splits)
qed

subsection \<open>Round robin\<close>

fun picks :: "nat \<Rightarrow> string \<Rightarrow> routes \<times> counters \<Rightarrow> vhost_route option list" where
  "picks 0 d t = []"
| "picks (Suc n) d t = (case pick_route d t of (r, rr) \<Rightarrow> r # picks n d (fst t, rr))"

lemma picks_nth:
  assumes "fst t d = Some rs" "rs \<noteq> []" "snd t d = Some c" "unat c + n < 2 ^ 64"
  shows "picks n d t = map (\<lambda>i. Some (rs ! ((unat c + i) mod length rs))) [0..<n]"
  using assms
proof (induction n arbitrary: t c)
  case (Suc n)
  obtain routes rr where t: "t = (routes, rr)" by (cases t)
  have c: "unat (c + 1) = Suc (unat c)" using Suc.prems(4) by (simp add: unat_word_ariths)
  have p: "pick_route d t = (Some (rs ! (unat c mod length rs)), rr(d \<mapsto> c + 1))"
    using Suc.prems by (simp add: t pick_route_def)
  have "picks n d (fst t, rr(d \<mapsto> c + 1))
      = map (\<lambda>i. Some (rs ! ((unat (c + 1) + i) mod length rs))) [0..<n]"
    using Suc.prems c by (intro Suc.IH) simp_all
  with p c show ?case by (simp add: upt_conv_Cons map_Suc_upt [symmetric] del: upt_Suc)
qed simp

subsection \<open>Claims\<close>

text \<open>
  C23: A routing table implements a set of pairs of a domain and the key of a proxy. Through any
  sequence of registrations, removals and requests, a registration adds its domains for its key, a
  removal deletes the key from every domain, a request changes nothing; the representation stays
  well formed: no empty entry, no key twice in an entry, a counter for exactly the routed domains.
\<close>

theorem route_table_refines:
  assumes "table_inv t"
  shows "let t' = fold (run_route_op add_routes (\<lambda>k t. remove_routes (all_domains t) k t) pick_key) ops t
    in table_inv t' \<and> {(d, k). routed t' d k} = fold spec_op ops {(d, k). routed t d k}"
  using vt.run_ops_refine [OF assms, of ops] by (simp add: Let_def)

theorem route_table_refines_witness:
  "let t' = fold (run_route_op add_routes (\<lambda>k t. remove_routes (all_domains t) k t) pick_key)
      [AddRoutes [''a.example'', ''b.example''] ''r1:web'' ''web'' 1, PickRoute ''a.example'',
       AddRoutes [''a.example''] ''r2:web'' ''web'' 2, RemoveRoutes ''r1:web'']
      (Map.empty, Map.empty)
   in table_inv t' \<and> {(d, k). routed t' d k} = {(''a.example'', ''r2:web'')}"
  using route_table_refines [OF table_inv_empty,
      of "[AddRoutes [''a.example'', ''b.example''] ''r1:web'' ''web'' 1, PickRoute ''a.example'',
        AddRoutes [''a.example''] ''r2:web'' ''web'' 2, RemoveRoutes ''r1:web'']"]
  by (simp add: Let_def routed_def) auto

text \<open>
  Closing a proxy takes it out of the routing whatever the order in which the concurrent map is
  walked: no later request is given to its key, and the other proxies keep their domains.
\<close>

theorem unregistered_never_picked:
  assumes "table_inv t" "dom (fst t) \<subseteq> set order"
  shows "(\<forall>r. fst (pick_route d (remove_routes order k t)) = Some r \<longrightarrow> vr_route_key r \<noteq> k) \<and>
    (\<forall>k'. k' \<noteq> k \<and> routed t d k' \<longrightarrow> fst (pick_route d (remove_routes order k t)) \<noteq> None)"
proof (intro conjI allI impI)
  fix r assume "fst (pick_route d (remove_routes order k t)) = Some r"
  then have "routed (remove_routes order k t) d (vr_route_key r)"
    using pick_route_Some by (fastforce simp: routed_def)
  then show "vr_route_key r \<noteq> k" using routed_remove_routes [OF assms] by blast
next
  fix k' assume "k' \<noteq> k \<and> routed t d k'"
  then have "routed (remove_routes order k t) d k'" using routed_remove_routes [OF assms] by blast
  then show "fst (pick_route d (remove_routes order k t)) \<noteq> None"
    using pick_route_None [OF table_inv_remove_routes [OF assms]] by (auto simp: routed_def)
qed

definition demo_table :: "routes \<times> counters" where
  "demo_table = add_routes [''a''] ''r2:w'' ''w'' 2 (add_routes [''a''] ''r1:w'' ''w'' 1 (Map.empty, Map.empty))"

lemma demo_table_inv: "table_inv demo_table" "dom (fst demo_table) \<subseteq> set [''a'']"
  unfolding demo_table_def
  by (intro inv_intros) (simp add: add_routes_def dom_add_route)

theorem unregistered_never_picked_witness:
  "(\<forall>r. fst (pick_route ''a'' (remove_routes [''a''] ''r1:w'' demo_table)) = Some r \<longrightarrow>
      vr_route_key r \<noteq> ''r1:w'') \<and>
   (\<forall>k'. k' \<noteq> ''r1:w'' \<and> routed demo_table ''a'' k' \<longrightarrow>
      fst (pick_route ''a'' (remove_routes [''a''] ''r1:w'' demo_table)) \<noteq> None)"
  using demo_table_inv by (rule unregistered_never_picked)

text \<open>
  Requests for a domain are spread evenly over the proxies that serve it. As long as the table
  entry does not change and the 64-bit counter does not wrap, of \<open>n\<close> times as many requests as there
  are proxies every proxy gets exactly \<open>n\<close>.
\<close>

theorem round_robin_fair:
  assumes "table_inv t" "fst t d = Some rs" "snd t d = Some c"
    and "unat c + n * length rs < 2 ^ 64" "r \<in> set rs"
  shows "count_list (picks (n * length rs) d t) (Some r) = n"
proof -
  have "distinct (map vr_route_key rs)" "rs \<noteq> []" using assms(1,2) by (auto simp: table_inv_def)
  then have "distinct rs" by (simp add: distinct_map)
  have "picks (n * length rs) d t
      = map Some (map (\<lambda>i. rs ! ((unat c + i) mod length rs)) [0..<n * length rs])"
    using picks_nth [OF assms(2) \<open>rs \<noteq> []\<close> assms(3,4)] by simp
  moreover have "count_list (map Some xs) (Some x) = count_list xs x" for xs :: "vhost_route list" and x
    by (induction xs) auto
  ultimately show ?thesis using count_periods [OF \<open>distinct rs\<close> assms(5)] by (simp only:)
qed

theorem round_robin_fair_witness:
  "count_list (picks (3 * length (the (fst demo_table ''a''))) ''a'' demo_table)
     (Some \<lparr>vr_route_key = ''r2:w'', vr_proxy_name = ''w'', vr_work_conn_req_tx = 2\<rparr>) = 3"
  by (rule round_robin_fair [where c = 0, OF demo_table_inv(1)])
    (simp_all add: demo_table_def add_routes_def add_route_def)


definition demo_vm :: vhost_manager where
  "demo_vm = \<lparr>vm_bind_addr = [], vm_subdomain_host = [], vm_http_port = 80, vm_https_port = 443,
     vm_http_routes = fst demo_table, vm_https_routes = Map.empty, vm_http_rr = snd demo_table,
     vm_https_rr = Map.empty, vm_http_started = True, vm_https_started = False\<rparr>"

definition demo_conn :: public_conn where
  "demo_conn = \<lparr>pb_src = [], pb_dst = [], pb_reply = Granted 1, pb_start = (\<lambda>_ _. Inr ()),
     pb_write = (\<lambda>_. Inr ()), pb_copy = Inr ()\<rparr>"

definition demo_request :: bytes where
  "demo_request = as_bytes (''Host:a'' @ crlf @ crlf)"

lemma demo_request_head:
  "read_http_request_head [demo_request] Eof = Inr demo_request"
  "extract_http_host demo_request = Some ''a''"
  by (simp_all add: demo_request_def read_http_request_head_def extract_http_host_def from_utf8_def
      as_bytes_def as_byte_def crlf2_def of_bytes_def of_byte_def eq_ignore_ascii_case_def
      ascii_lower_def char_of_eq_iff trim_visible visible_def ws_seqs_def)

lemma demo_host: "normalize_host demo_platform ''a'' = ''a''"
  by (simp add: normalize_plain plain_host_def is_ascii_def visible_def ws_seqs_def ascii_lower_def)


lemma read_client_hello:
  assumes "4 + length (hello_prefix p) + length (hello_extensions p) \<le> tls_hello_max"
  shows "read_tls_client_hello (r\<lparr>rs_data := client_hello p @ rest\<rparr>)
    = Inr (client_hello p, r\<lparr>rs_data := rest\<rparr>)"
proof -
  let ?n = "4 + length (hello_prefix p @ hello_extensions p)"
  let ?header = "[0x16, 0x03, 0x01] @ to_be 2 ?n"
  let ?payload = "[0x01] @ to_be 3 (length (hello_prefix p @ hello_extensions p))
      @ hello_prefix p @ hello_extensions p"
  have h: "client_hello p = ?header @ ?payload" by (simp add: client_hello_def Let_def)
  have "?n < 65536" using assms by (simp add: tls_hello_max_def)
  moreover have "drop 3 ?header = to_be 2 ?n" by simp
  ultimately have n: "of_be (drop 3 ?header) = ?n" by (simp only: of_be_2)
  have "read_bytes 5 (r\<lparr>rs_data := ?header @ ?payload @ rest\<rparr>)
      = Inr (?header, r\<lparr>rs_data := ?payload @ rest\<rparr>)"
    by (rule read_bytes_append) simp
  moreover have "read_bytes ?n (r\<lparr>rs_data := ?payload @ rest\<rparr>) = Inr (?payload, r\<lparr>rs_data := rest\<rparr>)"
    by (rule read_bytes_append) simp
  moreover have "\<not> (?n = 0 \<or> tls_hello_max < ?n)" using assms by simp
  ultimately show ?thesis
    unfolding h append_assoc read_tls_client_hello_def Let_def
    by (simp only: sum.case prod.case n if_False) simp
qed

text \<open>
  A TLS connection reaches a proxy of the server name in its ClientHello. For every well-formed
  ClientHello that fits the 16 KiB record limit and names a host with a route, the handler forwards
  the unchanged record on a route of that host.
\<close>

theorem https_conn_routed:
  assumes "table_inv (vm_https_routes vm, vm_https_rr vm)" "hello_ok p"
    and "4 + length (hello_prefix p) + length (hello_extensions p) \<le> tls_hello_max"
    and "routed (vm_https_routes vm, vm_https_rr vm) (normalize_host pf (hp_host p)) k"
  shows "\<exists>route. snd (fst (handle_https_conn pf (r\<lparr>rs_data := client_hello p @ rest\<rparr>) pc vm))
      = Some (route, client_hello p) \<and>
    routed (vm_https_routes vm, vm_https_rr vm) (normalize_host pf (hp_host p)) (vr_route_key route)"
proof -
  let ?t = "(vm_https_routes vm, vm_https_rr vm)" and ?d = "normalize_host pf (hp_host p)"
  have "fst (pick_route ?d ?t) \<noteq> None"
    using pick_route_None [OF assms(1), of ?d] assms(4) by (auto simp: routed_def)
  then obtain route rr where p: "pick_route ?d ?t = (Some route, rr)"
    by (cases "pick_route ?d ?t") auto
  then have "routed ?t ?d (vr_route_key route)"
    using pick_route_Some [of ?d ?t route] by (force simp: routed_def)
  with p show ?thesis
    by (simp add: handle_https_conn_def read_client_hello [OF assms(3)]
        parse_tls_sni_finds [OF assms(2)] Let_def)
qed

definition demo_tls_vm :: vhost_manager where
  "demo_tls_vm = demo_vm\<lparr>
     vm_https_routes := fst (add_routes [''api.example.com''] ''r1:w'' ''w'' 1 (Map.empty, Map.empty)),
     vm_https_rr := snd (add_routes [''api.example.com''] ''r1:w'' ''w'' 1 (Map.empty, Map.empty))\<rparr>"

theorem https_conn_routed_witness:
  "\<exists>route. snd (fst (handle_https_conn demo_platform
      (\<lparr>rs_data = [], rs_end = None\<rparr>\<lparr>rs_data := client_hello demo_hello @ [1, 2]\<rparr>) demo_conn demo_tls_vm))
      = Some (route, client_hello demo_hello) \<and>
    routed (vm_https_routes demo_tls_vm, vm_https_rr demo_tls_vm)
      (normalize_host demo_platform (hp_host demo_hello)) (vr_route_key route)"
proof (rule https_conn_routed [where k = "''r1:w''"])
  show "table_inv (vm_https_routes demo_tls_vm, vm_https_rr demo_tls_vm)"
    by (simp add: demo_tls_vm_def) (intro inv_intros)
  show "hello_ok demo_hello" by (rule demo_hello_ok)
  show "4 + length (hello_prefix demo_hello) + length (hello_extensions demo_hello) \<le> tls_hello_max"
    by (simp add: demo_hello_def hello_prefix_def hello_extensions_def enc_extension_def
        server_name_def tls_hello_max_def)
  have "normalize_host demo_platform ''api.example.com'' = ''api.example.com''"
    by (simp add: normalize_plain plain_host_def is_ascii_def visible_def ws_seqs_def ascii_lower_def)
  then show "routed (vm_https_routes demo_tls_vm, vm_https_rr demo_tls_vm)
      (normalize_host demo_platform (hp_host demo_hello)) ''r1:w''"
    by (simp add: demo_tls_vm_def demo_hello_def routed_add_routes)
qed

end
