(* ===== verification/Ports.thy ===== *)
theory Ports
  imports Settings
begin

text \<open>
  \<^verbatim>\<open>arp-server/src/resource/mod.rs\<close>: the table of public ports in use. One table serves TCP
  listeners and UDP sockets. The locale \<open>port_allocator\<close> is what the proxies rely on; it is
  interpreted for the controller.
\<close>

record resource_controller =
  rc_tcp_ports :: "u16 \<rightharpoonup> string"
  rc_next_dynamic_port :: u16
  rc_allow_ports :: "(u16 \<times> u16) list"

definition resource_new :: "server_config \<Rightarrow> resource_controller" where
  "resource_new config =
     \<lparr>rc_tcp_ports = Map.empty,
      rc_next_dynamic_port = 10000,
      rc_allow_ports =
        (if srv_allow_ports config = [] then [(10000, 65535)]
         else map (\<lambda>range. if pr_single range > 0 then (pr_single range, pr_single range)
                           else (pr_start range, pr_end range)) (srv_allow_ports config))\<rparr>"

fun in_allowed :: "(u16 \<times> u16) list \<Rightarrow> u16 \<Rightarrow> bool" where
  "in_allowed [] port = False"
| "in_allowed ((start, end) # rest) port =
     (if start \<le> port \<and> port \<le> end then True else in_allowed rest port)"

definition is_port_allowed :: "resource_controller \<Rightarrow> u16 \<Rightarrow> bool" where
  "is_port_allowed rc port = in_allowed (rc_allow_ports rc) port"

definition allocate_tcp_port :: "u16 \<Rightarrow> resource_controller \<Rightarrow> u16 result \<times> resource_controller" where
  "allocate_tcp_port port rc =
     (if \<not> is_port_allowed rc port then
        (Inl (Proxy (''Port '' @ show_nat (unat port) @ '' is not in allowed range'')), rc)
      else if rc_tcp_ports rc port \<noteq> None then
        (Inl (Proxy (''Port '' @ show_nat (unat port) @ '' is already allocated'')), rc)
      else (Inr port, rc\<lparr>rc_tcp_ports := (rc_tcp_ports rc)(port \<mapsto> [])\<rparr>))"

fun random_loop :: "nat \<Rightarrow> resource_controller \<Rightarrow> u16 result \<times> resource_controller" where
  "random_loop 0 rc =
     (Inl (Proxy ''Failed to allocate random port after 1000 attempts''), rc)"
| "random_loop (Suc n) rc =
     (let port = rc_next_dynamic_port rc;
          rc = rc\<lparr>rc_next_dynamic_port := port + 1\<rparr>
      in if port \<ge> 65535 then random_loop n (rc\<lparr>rc_next_dynamic_port := 10000\<rparr>)
         else if is_port_allowed rc port \<and> rc_tcp_ports rc port = None then
           (Inr port, rc\<lparr>rc_tcp_ports := (rc_tcp_ports rc)(port \<mapsto> [])\<rparr>)
         else random_loop n rc)"

definition allocate_random_tcp_port :: "resource_controller \<Rightarrow> u16 result \<times> resource_controller" where
  "allocate_random_tcp_port rc = random_loop 1000 rc"

definition release_tcp_port :: "u16 \<Rightarrow> resource_controller \<Rightarrow> unit result \<times> resource_controller" where
  "release_tcp_port port rc = (Inr (), rc\<lparr>rc_tcp_ports := (rc_tcp_ports rc)(port := None)\<rparr>)"

text \<open>
  The choice \<^verbatim>\<open>TcpProxy::new\<close> and \<^verbatim>\<open>UdpProxy::new\<close> make: the port the client asked for, or any.
\<close>

definition allocate_port :: "u16 \<Rightarrow> resource_controller \<Rightarrow> u16 result \<times> resource_controller" where
  "allocate_port remote_port rc =
     (if remote_port > 0 then allocate_tcp_port remote_port rc else allocate_random_tcp_port rc)"

subsection \<open>The contract of the allocator\<close>

text \<open>
  A history of allocations (\<open>Inl\<close>) and releases (\<open>Inr\<close>), with the ports that were handed out and not
  given back yet.
\<close>

fun port_history ::
  "(u16 \<Rightarrow> 's \<Rightarrow> u16 result \<times> 's) \<Rightarrow> (u16 \<Rightarrow> 's \<Rightarrow> 's) \<Rightarrow> (u16 + u16) list \<Rightarrow> 's \<Rightarrow> u16 list \<Rightarrow>
   's \<times> u16 list" where
  "port_history alloc release [] s held = (s, held)"
| "port_history alloc release (Inl p # ops) s held =
     (case alloc p s of
        (Inr q, s') \<Rightarrow> port_history alloc release ops s' (q # held)
      | (Inl _, s') \<Rightarrow> port_history alloc release ops s' held)"
| "port_history alloc release (Inr p # ops) s held =
     port_history alloc release ops (release p s) (removeAll p held)"

locale port_allocator =
  fixes used :: "'s \<Rightarrow> u16 set"
    and permitted :: "'s \<Rightarrow> u16 \<Rightarrow> bool"
    and alloc :: "u16 \<Rightarrow> 's \<Rightarrow> u16 result \<times> 's"
    and release :: "u16 \<Rightarrow> 's \<Rightarrow> 's"
  assumes alloc_Inr: "alloc p s = (Inr q, s') \<Longrightarrow>
      q \<notin> used s \<and> permitted s q \<and> used s' = insert q (used s) \<and> (p \<noteq> 0 \<longrightarrow> q = p)"
    and alloc_Inl: "alloc p s = (Inl e, s') \<Longrightarrow> used s' = used s"
    and alloc_permitted: "permitted (snd (alloc p s)) = permitted s"
    and used_release: "used (release p s) = used s - {p}"
    and permitted_release: "permitted (release p s) = permitted s"
begin

lemma alloc_release:
  "alloc p s = (Inr q, s') \<Longrightarrow> used (release q s') = used s"
  using alloc_Inr by (simp add: used_release)

lemma used_permitted_step:
  assumes "\<forall>q \<in> used s. permitted s q"
  shows "\<forall>q \<in> used (snd (alloc p s)). permitted (snd (alloc p s)) q"
proof (cases "alloc p s")
  case (Pair r s')
  then have "permitted s' = permitted s" using alloc_permitted [of p s] by simp
  with Pair assms show ?thesis
    by (cases r) (use alloc_Inr alloc_Inl in fastforce)+
qed

lemma history_distinct:
  "distinct held \<Longrightarrow> set held = used s \<Longrightarrow> \<forall>q \<in> used s. permitted s q \<Longrightarrow>
   port_history alloc release ops s held = (s', held') \<Longrightarrow>
   distinct held' \<and> set held' = used s' \<and> (\<forall>q \<in> used s'. permitted s' q) \<and> permitted s' = permitted s"
proof (induction ops arbitrary: s held)
  case (Cons op ops)
  note IH = Cons.IH and prems = Cons.prems
  show ?case
  proof (cases op)
    case (Inl p)
    obtain r t where a: "alloc p s = (r, t)" by (cases "alloc p s")
    have pt: "permitted t = permitted s" "\<forall>q \<in> used t. permitted t q"
      using alloc_permitted [of p s] used_permitted_step [OF prems(3), of p] a by simp_all
    show ?thesis
    proof (cases r)
      case err: (Inl e)
      with a have u: "used t = used s" using alloc_Inl by blast
      have "port_history alloc release ops t held = (s', held')"
        using prems(4) Inl a err by simp
      from IH [OF prems(1) _ pt(2) this] u prems(2) pt(1) show ?thesis by auto
    next
      case (Inr q)
      with a have u: "q \<notin> used s" "used t = insert q (used s)" using alloc_Inr by blast+
      have "port_history alloc release ops t (q # held) = (s', held')"
        using prems(4) Inl a Inr by simp
      from IH [OF _ _ pt(2) this] u prems(1,2) pt(1) show ?thesis by auto
    qed
  next
    case (Inr p)
    have "port_history alloc release ops (release p s) (removeAll p held) = (s', held')"
      using prems(4) Inr by simp
    from IH [OF _ _ _ this] prems(1-3) show ?thesis
      by (auto simp: used_release permitted_release distinct_removeAll)
  qed
qed simp

end

definition used_ports :: "resource_controller \<Rightarrow> u16 set" where
  "used_ports rc = dom (rc_tcp_ports rc)"

abbreviation release_port :: "u16 \<Rightarrow> resource_controller \<Rightarrow> resource_controller" where
  "release_port p rc \<equiv> snd (release_tcp_port p rc)"

lemma is_port_allowed_update [simp]:
  "is_port_allowed (rc\<lparr>rc_tcp_ports := m\<rparr>) = is_port_allowed rc"
  "is_port_allowed (rc\<lparr>rc_next_dynamic_port := n\<rparr>) = is_port_allowed rc"
  by (simp_all add: is_port_allowed_def fun_eq_iff)

lemma random_loop_Inr:
  "random_loop n rc = (Inr q, rc') \<Longrightarrow>
   rc_tcp_ports rc q = None \<and> is_port_allowed rc q \<and>
   rc_tcp_ports rc' = (rc_tcp_ports rc)(q \<mapsto> []) \<and> is_port_allowed rc' = is_port_allowed rc"
  by (induction n rc rule: random_loop.induct) (auto simp: Let_def split: if_splits)

lemma random_loop_Inl:
  "random_loop n rc = (Inl e, rc') \<Longrightarrow>
   rc_tcp_ports rc' = rc_tcp_ports rc \<and> is_port_allowed rc' = is_port_allowed rc"
  by (induction n rc rule: random_loop.induct) (auto simp: Let_def split: if_splits)

lemma allocate_port_Inr:
  assumes "allocate_port p rc = (Inr q, rc')"
  shows "q \<notin> used_ports rc \<and> is_port_allowed rc q \<and> used_ports rc' = insert q (used_ports rc)
    \<and> (p \<noteq> 0 \<longrightarrow> q = p) \<and> is_port_allowed rc' = is_port_allowed rc"
  using assms
  by (auto simp: allocate_port_def allocate_tcp_port_def allocate_random_tcp_port_def used_ports_def
      word_gt_0 dest!: random_loop_Inr split: if_splits)

lemma allocate_port_Inl:
  "allocate_port p rc = (Inl e, rc') \<Longrightarrow>
   used_ports rc' = used_ports rc \<and> is_port_allowed rc' = is_port_allowed rc"
  by (auto simp: allocate_port_def allocate_tcp_port_def allocate_random_tcp_port_def used_ports_def
      dest!: random_loop_Inl split: if_splits)

interpretation ports: port_allocator used_ports is_port_allowed allocate_port release_port
proof
  fix p q e rc rc'
  show "allocate_port p rc = (Inr q, rc') \<Longrightarrow>
      q \<notin> used_ports rc \<and> is_port_allowed rc q \<and> used_ports rc' = insert q (used_ports rc)
      \<and> (p \<noteq> 0 \<longrightarrow> q = p)"
    using allocate_port_Inr by blast
  show "allocate_port p rc = (Inl e, rc') \<Longrightarrow> used_ports rc' = used_ports rc"
    using allocate_port_Inl by blast
  show "is_port_allowed (snd (allocate_port p rc)) = is_port_allowed rc"
    using allocate_port_Inr allocate_port_Inl
    by (cases "allocate_port p rc"; cases "fst (allocate_port p rc)") fastforce+
  show "used_ports (release_port p rc) = used_ports rc - {p}"
    by (auto simp: release_tcp_port_def used_ports_def)
  show "is_port_allowed (release_port p rc) = is_port_allowed rc"
    by (simp add: release_tcp_port_def)
qed

subsection \<open>The cursor of the random allocation\<close>

abbreviation cursor :: "resource_controller \<Rightarrow> nat" where
  "cursor rc \<equiv> unat (rc_next_dynamic_port rc)"

definition port_free :: "resource_controller \<Rightarrow> u16 \<Rightarrow> bool" where
  "port_free rc p \<longleftrightarrow> is_port_allowed rc p \<and> rc_tcp_ports rc p = None"

lemma port_free_cursor [simp]: "port_free (rc\<lparr>rc_next_dynamic_port := n\<rparr>) = port_free rc"
  by (simp add: port_free_def fun_eq_iff)

lemma unat_Suc_u16: "unat (p :: u16) < 65535 \<Longrightarrow> unat (p + 1) = Suc (unat p)"
  by (simp add: unat_word_ariths)

lemma unat_of_nat_u16: "n < 65536 \<Longrightarrow> unat (word_of_nat n :: u16) = n"
  by (simp add: unat_of_nat)

lemma last_port_iff: "(p :: u16) \<ge> 65535 \<longleftrightarrow> \<not> unat p < 65535"
  by (simp add: word_le_nat_alt not_less)

lemma random_loop_bounds:
  "10000 \<le> cursor rc \<Longrightarrow> random_loop n rc = (r, rc') \<Longrightarrow>
   10000 \<le> cursor rc' \<and> (\<forall>q. r = Inr q \<longrightarrow> 10000 \<le> unat q \<and> unat q < 65535)"
proof (induction n rc rule: random_loop.induct)
  case (2 n rc)
  show ?case
  proof (cases "unat (rc_next_dynamic_port rc) < 65535")
    case True
    with 2(2,4) "2.prems" show ?thesis
      by (auto simp: Let_def last_port_iff unat_Suc_u16 split: if_splits)
  next
    case False
    with 2 show ?thesis by (auto simp: Let_def last_port_iff)
  qed
qed auto

text \<open>The loop looks at the ports from the cursor on, in order, and takes the first free one.\<close>

lemma random_loop_skip:
  assumes "cursor rc + k \<le> 65535" "k \<le> n"
    and "\<And>i. i < k \<Longrightarrow> \<not> port_free rc (word_of_nat (cursor rc + i))"
  shows "random_loop n rc
    = random_loop (n - k) (rc\<lparr>rc_next_dynamic_port := word_of_nat (cursor rc + k)\<rparr>)"
  using assms
proof (induction k arbitrary: n rc)
  case (Suc k)
  obtain m where n: "n = Suc m" using Suc.prems(2) by (cases n) auto
  let ?p = "rc_next_dynamic_port rc" and ?rc = "rc\<lparr>rc_next_dynamic_port := rc_next_dynamic_port rc + 1\<rparr>"
  have lt: "unat ?p < 65535" using Suc.prems(1) by simp
  have c: "cursor ?rc = Suc (cursor rc)" using unat_Suc_u16 [OF lt] by simp
  have "\<not> port_free rc ?p" using Suc.prems(3) [of 0] by simp
  then have "random_loop n rc = random_loop m ?rc"
    using lt by (auto simp: n Let_def last_port_iff port_free_def)
  also have "\<dots> = random_loop (m - k) (?rc\<lparr>rc_next_dynamic_port := word_of_nat (cursor ?rc + k)\<rparr>)"
  proof (rule Suc.IH)
    show "cursor ?rc + k \<le> 65535" "k \<le> m" using Suc.prems(1,2) by (simp_all only: c n)
    show "\<not> port_free ?rc (word_of_nat (cursor ?rc + i))" if "i < k" for i
      using Suc.prems(3) [of "Suc i"] that unfolding c by simp
  qed
  also have "\<dots> = random_loop (n - Suc k) (rc\<lparr>rc_next_dynamic_port := word_of_nat (cursor rc + Suc k)\<rparr>)"
    unfolding c by (simp add: n)
  finally show ?case .
qed simp

lemma random_loop_take:
  assumes "cursor rc < 65535" "port_free rc (rc_next_dynamic_port rc)" "0 < n"
  shows "fst (random_loop n rc) = Inr (rc_next_dynamic_port rc)"
  using assms by (cases n) (auto simp: Let_def last_port_iff port_free_def)

subsection \<open>Claims\<close>

text \<open>
  No port is ever handed out twice. After any sequence of allocations (of a fixed port or of any
  port) and releases on a fresh controller, the ports held are pairwise different, they are exactly
  the entries of the table, and each of them lies in one of the configured ranges.
\<close>

theorem port_history_distinct:
  assumes "port_history allocate_port release_port ops (resource_new config) [] = (rc, held)"
  shows "distinct held \<and> set held = used_ports rc \<and>
    (\<forall>q \<in> set held. is_port_allowed (resource_new config) q)"
  using ports.history_distinct [OF _ _ _ assms] by (auto simp: used_ports_def resource_new_def)

definition demo_server_config :: server_config where
  "demo_server_config =
     \<lparr>srv_bind_addr = ''0.0.0.0'', srv_bind_port = 7000, srv_kcp_bind_port = 0, srv_quic_bind_port = 0,
      srv_vhost_http_port = 0, srv_vhost_https_port = 0, srv_dashboard_addr = [],
      srv_dashboard_port = 0, srv_dashboard_user = [], srv_dashboard_pwd = [], srv_log_level = [],
      srv_log_file = [], srv_log_max_days = 1, srv_auth = load_auth None,
      srv_transport = transport_default, srv_allow_ports = [], srv_max_pool_count = 0,
      srv_max_ports_per_client = 0, srv_subdomain_host = [], srv_tcp_mux = False,
      srv_custom = Map.empty\<rparr>"

theorem port_history_distinct_witness:
  "distinct (snd (port_history allocate_port release_port
     [Inl 0, Inl 20000, Inl 20000, Inr 10000, Inl 10000] (resource_new demo_server_config) []))"
  using port_history_distinct [of "[Inl 0, Inl 20000, Inl 20000, Inr 10000, Inl 10000]"
      demo_server_config] by (metis prod.collapse)

text \<open>
  Random allocation, from a cursor that is at least 10000 as it is at the start and stays, yields
  a port from 10000 to 65534, and it is the first free allowed port from the cursor on whenever
  there is one among the thousand ports it looks at before the cursor wraps.
\<close>

theorem random_port_first_free:
  "(10000 \<le> cursor rc \<longrightarrow>
      10000 \<le> cursor (snd (allocate_random_tcp_port rc)) \<and>
      (\<forall>q. fst (allocate_random_tcp_port rc) = Inr q \<longrightarrow> 10000 \<le> unat q \<and> unat q \<le> 65534)) \<and>
   (k < 1000 \<and> cursor rc + k < 65535 \<and> port_free rc (word_of_nat (cursor rc + k)) \<and>
      (\<forall>i < k. \<not> port_free rc (word_of_nat (cursor rc + i))) \<longrightarrow>
      fst (allocate_random_tcp_port rc) = Inr (word_of_nat (cursor rc + k)))"
proof (intro conjI impI)
  assume *: "10000 \<le> cursor rc"
  obtain r rc' where r: "allocate_random_tcp_port rc = (r, rc')"
    by (cases "allocate_random_tcp_port rc")
  note b = random_loop_bounds [OF * r [unfolded allocate_random_tcp_port_def]]
  from b show "10000 \<le> cursor (snd (allocate_random_tcp_port rc))" by (simp only: r snd_conv)
  from b show "\<forall>q. fst (allocate_random_tcp_port rc) = Inr q \<longrightarrow> 10000 \<le> unat q \<and> unat q \<le> 65534"
    by (auto simp: r)
next
  assume *: "k < 1000 \<and> cursor rc + k < 65535 \<and> port_free rc (word_of_nat (cursor rc + k)) \<and>
      (\<forall>i < k. \<not> port_free rc (word_of_nat (cursor rc + i)))"
  let ?rc = "rc\<lparr>rc_next_dynamic_port := word_of_nat (cursor rc + k)\<rparr>"
  have c: "cursor ?rc = cursor rc + k"
    using * unat_of_nat_u16 [of "cursor rc + k"] by (simp del: of_nat_add)
  have "allocate_random_tcp_port rc = random_loop (1000 - k) ?rc"
    unfolding allocate_random_tcp_port_def using * by (intro random_loop_skip) auto
  moreover have "fst (random_loop (1000 - k) ?rc) = Inr (rc_next_dynamic_port ?rc)"
    using * c by (intro random_loop_take) (simp_all del: of_nat_add)
  ultimately show "fst (allocate_random_tcp_port rc) = Inr (word_of_nat (cursor rc + k))" by simp
qed

theorem random_port_first_free_witness:
  "fst (allocate_random_tcp_port (resource_new demo_server_config)) = Inr 10000"
  using random_port_first_free [of "resource_new demo_server_config" 0]
  by (simp add: port_free_def is_port_allowed_def resource_new_def demo_server_config_def)

text \<open>
  Random allocation looks at a thousand ports only. If none of the thousand ports from the cursor
  on is free and allowed, it fails, however many free ports the configured ranges have elsewhere;
  and if all configured ranges lie below 10000 it fails on every call.
\<close>

theorem random_port_gives_up:
  "(cursor rc + 1000 \<le> 65535 \<and> (\<forall>i < 1000. \<not> port_free rc (word_of_nat (cursor rc + i))) \<longrightarrow>
      (\<exists>e. fst (allocate_random_tcp_port rc) = Inl e)) \<and>
   (10000 \<le> cursor rc \<and> (\<forall>p. is_port_allowed rc p \<longrightarrow> unat p < 10000) \<longrightarrow>
      (\<exists>e. fst (allocate_random_tcp_port rc) = Inl e))"
proof (intro conjI impI)
  assume "cursor rc + 1000 \<le> 65535 \<and> (\<forall>i < 1000. \<not> port_free rc (word_of_nat (cursor rc + i)))"
  then show "\<exists>e. fst (allocate_random_tcp_port rc) = Inl e"
    using random_loop_skip [of rc 1000 1000] by (simp add: allocate_random_tcp_port_def)
next
  assume *: "10000 \<le> cursor rc \<and> (\<forall>p. is_port_allowed rc p \<longrightarrow> unat p < 10000)"
  obtain r rc' where r: "random_loop 1000 rc = (r, rc')" by (cases "random_loop 1000 rc")
  show "\<exists>e. fst (allocate_random_tcp_port rc) = Inl e"
  proof (cases r)
    case (Inr q)
    with r * random_loop_bounds [of rc 1000 r rc'] random_loop_Inr [of 1000 rc q rc'] show ?thesis
      by fastforce
  qed (simp add: allocate_random_tcp_port_def r)
qed

theorem random_port_gives_up_witness:
  "\<exists>e. fst (allocate_random_tcp_port (resource_new (demo_server_config
      \<lparr>srv_allow_ports := [\<lparr>pr_start = 6000, pr_end = 6100, pr_single = 0\<rparr>]\<rparr>))) = Inl e"
  by (rule random_port_gives_up [THEN conjunct2, rule_format])
    (auto simp: is_port_allowed_def resource_new_def word_le_nat_alt split: if_splits)

end
