(* ===== verification/Backends.thy ===== *)
theory Backends
  imports WorkConn Ports
begin

text \<open>
  \<^verbatim>\<open>GroupedTcpProxy\<close> of \<^verbatim>\<open>arp-server/src/proxy/tcp.rs\<close>: several clients behind one public port. New
  connections go round robin over the backends, and a backend whose connection failed is left out
  for five seconds. Instants are natural numbers of nanoseconds and an argument of the operations
  that read the clock.
\<close>

definition backend_eject :: nat where
  "backend_eject = 5 * 1000000000"

definition backend_fail_threshold :: u32 where
  "backend_fail_threshold = 1"

record grouped_backend =
  gb_backend_id :: string
  gb_proxy_name :: string
  gb_work_conn_req_tx :: chan
  gb_stcp :: bool
  gb_secret :: string

record backend_state =
  bs_snapshot :: grouped_backend
  bs_failures :: u32
  bs_ejected_until :: "nat option"

record tcp_group =
  tg_group_id :: string
  tg_remote_port :: u16
  tg_started :: bool
  tg_rr :: u32
  tg_backends :: "backend_state list"

text \<open>The outcome of \<^verbatim>\<open>TcpListener::bind\<close> on a port is an argument.\<close>

definition group_new ::
  "(u16 \<Rightarrow> io_error option) \<Rightarrow> string \<Rightarrow> u16 \<Rightarrow> resource_controller \<Rightarrow>
   tcp_group result \<times> resource_controller" where
  "group_new bind group_id remote_port rc =
     (case allocate_tcp_port remote_port rc of
        (Inl e, rc) \<Rightarrow> (Inl e, rc)
      | (Inr remote_port, rc) \<Rightarrow>
          (case bind remote_port of
             Some e \<Rightarrow> (Inl (Io e), release_port remote_port rc)
           | None \<Rightarrow>
               (Inr \<lparr>tg_group_id = group_id, tg_remote_port = remote_port, tg_started = False,
                     tg_rr = 0, tg_backends = []\<rparr>, rc)))"

text \<open>\<^verbatim>\<open>ensure_started\<close>: the flag says whether this call spawned the accept loop.\<close>

definition ensure_started :: "tcp_group \<Rightarrow> bool \<times> tcp_group" where
  "ensure_started g = (\<not> tg_started g, g\<lparr>tg_started := True\<rparr>)"

definition add_backend :: "grouped_backend \<Rightarrow> tcp_group \<Rightarrow> tcp_group" where
  "add_backend backend g =
     (if \<not> list_ex (\<lambda>v. gb_backend_id (bs_snapshot v) = gb_backend_id backend) (tg_backends g)
      then g\<lparr>tg_backends := tg_backends g @
               [\<lparr>bs_snapshot = backend, bs_failures = 0, bs_ejected_until = None\<rparr>]\<rparr>
      else g)"

definition remove_backend ::
  "string \<Rightarrow> tcp_group \<Rightarrow> resource_controller \<Rightarrow> bool \<times> tcp_group \<times> resource_controller" where
  "remove_backend backend_id g rc =
     (let backends = filter (\<lambda>v. gb_backend_id (bs_snapshot v) \<noteq> backend_id) (tg_backends g);
          empty = (backends = []);
          rc = (if empty then release_port (tg_remote_port g) rc else rc)
      in (empty, g\<lparr>tg_backends := backends\<rparr>, rc))"

definition ejected :: "nat \<Rightarrow> backend_state \<Rightarrow> bool" where
  "ejected now b = (case bs_ejected_until b of None \<Rightarrow> False | Some deadline \<Rightarrow> deadline > now)"

fun pick_loop :: "nat \<Rightarrow> nat list \<Rightarrow> backend_state list \<Rightarrow> grouped_backend option \<times> backend_state list" where
  "pick_loop now [] backends = (None, backends)"
| "pick_loop now (idx # rest) backends =
     (let state = backends ! idx in
      if ejected now state then pick_loop now rest backends
      else (Some (bs_snapshot state), backends[idx := state\<lparr>bs_ejected_until := None\<rparr>]))"

definition pick_backend :: "nat \<Rightarrow> tcp_group \<Rightarrow> grouped_backend option \<times> tcp_group" where
  "pick_backend now g =
     (if tg_backends g = [] then (None, g)
      else
        let len = length (tg_backends g);
            start = unat (tg_rr g) mod len;
            (r, backends) = pick_loop now (map (\<lambda>i. (start + i) mod len) [0..<len]) (tg_backends g)
        in (r, g\<lparr>tg_rr := tg_rr g + 1, tg_backends := backends\<rparr>))"

fun update_first :: "string \<Rightarrow> (backend_state \<Rightarrow> backend_state) \<Rightarrow> backend_state list \<Rightarrow> backend_state list" where
  "update_first backend_id f [] = []"
| "update_first backend_id f (b # bs) =
     (if gb_backend_id (bs_snapshot b) = backend_id then f b # bs
      else b # update_first backend_id f bs)"

definition mark_backend_success :: "string \<Rightarrow> tcp_group \<Rightarrow> tcp_group" where
  "mark_backend_success backend_id g =
     g\<lparr>tg_backends := update_first backend_id
         (\<lambda>s. s\<lparr>bs_failures := 0, bs_ejected_until := None\<rparr>) (tg_backends g)\<rparr>"

definition mark_backend_failure :: "nat \<Rightarrow> string \<Rightarrow> tcp_group \<Rightarrow> tcp_group" where
  "mark_backend_failure now backend_id g =
     g\<lparr>tg_backends := update_first backend_id
         (\<lambda>s. let s = s\<lparr>bs_failures := bs_failures s + 1\<rparr> in
              if bs_failures s \<ge> backend_fail_threshold
              then s\<lparr>bs_ejected_until := Some (now + backend_eject)\<rparr> else s) (tg_backends g)\<rparr>"

text \<open>
  One public connection: the backend picked at \<open>now\<close>, the outcome of relaying, and the time at
  which a failure is recorded.
\<close>

definition handle_client ::
  "nat \<Rightarrow> (grouped_backend \<Rightarrow> unit result) \<Rightarrow> nat \<Rightarrow> tcp_group \<Rightarrow> unit result \<times> tcp_group" where
  "handle_client now relay later g =
     (case pick_backend now g of
        (None, g) \<Rightarrow>
          (Inl (Proxy (''tcp group '' @ tg_group_id g @ '' has no healthy backend available'')), g)
      | (Some backend, g) \<Rightarrow>
          (case relay backend of
             Inr _ \<Rightarrow> (Inr (), mark_backend_success (gb_backend_id backend) g)
           | Inl e \<Rightarrow> (Inl e, mark_backend_failure later (gb_backend_id backend) g)))"

subsection \<open>Invariant\<close>

abbreviation backend_ids :: "tcp_group \<Rightarrow> string list" where
  "backend_ids g \<equiv> map (\<lambda>b. gb_backend_id (bs_snapshot b)) (tg_backends g)"

definition group_inv :: "tcp_group \<Rightarrow> bool" where
  "group_inv g \<longleftrightarrow> distinct (backend_ids g)"

lemma ids_add_backend:
  "backend_ids (add_backend b g) =
     (if gb_backend_id b \<in> set (backend_ids g) then backend_ids g
      else backend_ids g @ [gb_backend_id b])"
  by (simp add: add_backend_def list_ex_iff image_iff) metis

lemma ids_remove_backend:
  "backend_ids (fst (snd (remove_backend k g rc))) = filter (\<lambda>i. i \<noteq> k) (backend_ids g)"
  by (simp add: remove_backend_def Let_def filter_map comp_def)

lemma ids_update_first [simp]:
  "(\<And>s. bs_snapshot (f s) = bs_snapshot s) \<Longrightarrow>
   map (\<lambda>b. gb_backend_id (bs_snapshot b)) (update_first k f bs)
     = map (\<lambda>b. gb_backend_id (bs_snapshot b)) bs"
  by (induction bs) auto

lemma pick_loop_snapshots:
  "set is \<subseteq> {..<length bs} \<Longrightarrow> map bs_snapshot (snd (pick_loop now is bs)) = map bs_snapshot bs"
  by (induction now "is" bs rule: pick_loop.induct)
    (auto simp: Let_def map_update list_update_same_conv)

lemma ids_of_snapshots:
  "map bs_snapshot xs = map bs_snapshot ys \<Longrightarrow>
   map (\<lambda>b. gb_backend_id (bs_snapshot b)) xs = map (\<lambda>b. gb_backend_id (bs_snapshot b)) ys"
  by (metis (no_types) list.map_comp comp_def map_eq_conv)

lemma ids_pick_backend [simp]: "backend_ids (snd (pick_backend now g)) = backend_ids g"
proof (cases "tg_backends g = []")
  case False
  let ?is = "map (\<lambda>i. (unat (tg_rr g) mod length (tg_backends g) + i) mod length (tg_backends g))
      [0..<length (tg_backends g)]"
  have "set ?is \<subseteq> {..<length (tg_backends g)}" using False by auto
  from pick_loop_snapshots [OF this, of now] False show ?thesis
    by (auto simp: pick_backend_def Let_def split: prod.splits intro: ids_of_snapshots)
qed (simp add: pick_backend_def)

lemma ids_mark [simp]:
  "backend_ids (mark_backend_success k g) = backend_ids g"
  "backend_ids (mark_backend_failure now k g) = backend_ids g"
  by (simp_all add: mark_backend_success_def mark_backend_failure_def Let_def)

lemma ids_handle_client [simp]: "backend_ids (snd (handle_client now relay later g)) = backend_ids g"
  using ids_pick_backend [of now g]
  by (auto simp: handle_client_def split: prod.splits option.splits sum.splits
      simp del: ids_pick_backend)

lemma group_inv_ops [inv_intros]:
  "group_inv g \<Longrightarrow> group_inv (add_backend b g)"
  "group_inv g \<Longrightarrow> group_inv (fst (snd (remove_backend k g rc)))"
  "group_inv g \<Longrightarrow> group_inv (snd (pick_backend now g))"
  "group_inv g \<Longrightarrow> group_inv (snd (handle_client now relay later g))"
  by (simp_all add: group_inv_def ids_add_backend ids_remove_backend)

subsection \<open>The choice of a backend\<close>

lemma pick_loop_find:
  "fst (pick_loop now is bs) =
     map_option (\<lambda>i. bs_snapshot (bs ! i)) (find (\<lambda>i. \<not> ejected now (bs ! i)) is)"
  by (induction now "is" bs rule: pick_loop.induct) (simp_all add: Let_def)

lemma turn_set: "0 < len \<Longrightarrow> set (map (\<lambda>i. (s + i) mod len) [0..<len]) = {..<len}"
proof -
  assume "0 < len"
  then have "map (\<lambda>i. (s + i) mod len) [0..<len] = rotate s [0..<len]"
    using rotate_conv_map [of "[0..<len]" s] by (simp cong: map_cong)
  then show ?thesis by (simp add: lessThan_atLeast0)
qed

abbreviation turn :: "tcp_group \<Rightarrow> nat list" where
  "turn g \<equiv> map (\<lambda>i. (unat (tg_rr g) mod length (tg_backends g) + i) mod length (tg_backends g))
     [0..<length (tg_backends g)]"

lemma pick_backend_find:
  "tg_backends g \<noteq> [] \<Longrightarrow>
   fst (pick_backend now g) =
     map_option (\<lambda>i. bs_snapshot (tg_backends g ! i))
       (find (\<lambda>i. \<not> ejected now (tg_backends g ! i)) (turn g))"
  by (simp add: pick_backend_def Let_def pick_loop_find [symmetric] split: prod.splits)

lemma pick_backend_Some:
  assumes "fst (pick_backend now g) = Some b"
  shows "\<exists>s \<in> set (tg_backends g). bs_snapshot s = b \<and> \<not> ejected now s"
proof (cases "tg_backends g = []")
  case False
  then obtain i where i: "find (\<lambda>i. \<not> ejected now (tg_backends g ! i)) (turn g) = Some i"
    "bs_snapshot (tg_backends g ! i) = b"
    using assms by (auto simp: pick_backend_find)
  then have "i \<in> set (turn g)" "\<not> ejected now (tg_backends g ! i)"
    by (auto simp: find_Some_iff in_set_conv_nth)
  moreover have "set (turn g) = {..<length (tg_backends g)}" using False by (intro turn_set) simp
  ultimately show ?thesis using i(2) by auto
qed (use assms in \<open>simp add: pick_backend_def\<close>)

lemma pick_backend_None:
  "fst (pick_backend now g) = None \<longleftrightarrow> list_all (ejected now) (tg_backends g)"
proof (cases "tg_backends g = []")
  case False
  then have t: "set (turn g) = {..<length (tg_backends g)}" by (intro turn_set) simp
  have "fst (pick_backend now g) = None \<longleftrightarrow>
      \<not> (\<exists>i. i \<in> set (turn g) \<and> \<not> ejected now (tg_backends g ! i))"
    unfolding pick_backend_find [OF False] map_option_is_None find_None_iff by (rule refl)
  also have "\<dots> \<longleftrightarrow> list_all (ejected now) (tg_backends g)"
    unfolding t by (auto simp: list_all_length)
  finally show ?thesis .
qed (simp add: pick_backend_def)

lemma in_update_first:
  assumes "distinct (map (\<lambda>b. gb_backend_id (bs_snapshot b)) bs)"
    and "x \<in> set (update_first k f bs)" "\<And>s. bs_snapshot (f s) = bs_snapshot s"
  shows "(gb_backend_id (bs_snapshot x) \<noteq> k \<and> x \<in> set bs) \<or>
    (\<exists>s \<in> set bs. gb_backend_id (bs_snapshot s) = k \<and> x = f s)"
  using assms(1,2)
proof (induction bs)
  case (Cons b bs)
  then show ?case by (auto simp: image_iff split: if_splits)
qed simp

subsection \<open>Even distribution\<close>

fun group_picks :: "nat list \<Rightarrow> tcp_group \<Rightarrow> grouped_backend option list" where
  "group_picks [] g = []"
| "group_picks (now # ts) g = (case pick_backend now g of (b, g') \<Rightarrow> b # group_picks ts g')"

definition all_healthy :: "tcp_group \<Rightarrow> bool" where
  "all_healthy g \<longleftrightarrow> list_all (\<lambda>s. bs_ejected_until s = None) (tg_backends g)"

lemma pick_backend_healthy:
  assumes "all_healthy g" "tg_backends g \<noteq> []"
  shows "pick_backend now g =
    (Some (bs_snapshot (tg_backends g ! (unat (tg_rr g) mod length (tg_backends g)))),
     g\<lparr>tg_rr := tg_rr g + 1\<rparr>)"
proof -
  let ?n = "length (tg_backends g)"
  have n: "0 < ?n" using assms(2) by simp
  then have "[0..<?n] = 0 # [Suc 0..<?n]" by (rule upt_conv_Cons)
  moreover have "bs_ejected_until (tg_backends g ! (unat (tg_rr g) mod ?n)) = None"
    using assms(1) n by (simp add: all_healthy_def list_all_length)
  ultimately show ?thesis
    using assms(2) n
    by (simp add: pick_backend_def Let_def ejected_def list_update_same_conv)
qed

lemma group_picks_nth:
  assumes "all_healthy g" "tg_backends g \<noteq> []" "unat (tg_rr g) + length ts < 2 ^ 32"
  shows "group_picks ts g = map (\<lambda>i. Some (bs_snapshot
      (tg_backends g ! ((unat (tg_rr g) + i) mod length (tg_backends g))))) [0..<length ts]"
  using assms
proof (induction ts arbitrary: g)
  case (Cons now ts)
  let ?g = "g\<lparr>tg_rr := tg_rr g + 1\<rparr>"
  have c: "unat (tg_rr g + 1) = Suc (unat (tg_rr g))"
    using Cons.prems(3) by (simp add: unat_word_ariths)
  have "all_healthy ?g" using Cons.prems(1) by (simp add: all_healthy_def)
  from Cons.IH [OF this] Cons.prems c
  have "group_picks ts ?g = map (\<lambda>i. Some (bs_snapshot
      (tg_backends g ! ((Suc (unat (tg_rr g)) + i) mod length (tg_backends g))))) [0..<length ts]"
    by simp
  then show ?case
    by (simp add: pick_backend_healthy [OF Cons.prems(1,2)] upt_conv_Cons map_Suc_upt [symmetric]
        del: upt_Suc)
qed simp

subsection \<open>Claims\<close>

text \<open>
  A connection to a group goes to a backend that is not ejected whenever there is one, and is
  refused only when every backend is ejected or there is none.
\<close>

theorem pick_backend_exact:
  "(\<forall>b. fst (pick_backend now g) = Some b \<longrightarrow>
      (\<exists>s \<in> set (tg_backends g). bs_snapshot s = b \<and> \<not> ejected now s)) \<and>
   (fst (pick_backend now g) = None \<longleftrightarrow> list_all (ejected now) (tg_backends g))"
  using pick_backend_Some pick_backend_None by blast

definition demo_backend :: "string \<Rightarrow> grouped_backend" where
  "demo_backend i = \<lparr>gb_backend_id = i, gb_proxy_name = ''web'', gb_work_conn_req_tx = 0, gb_stcp = False,
     gb_secret = []\<rparr>"

definition demo_group :: tcp_group where
  "demo_group = add_backend (demo_backend ''r2:web'') (add_backend (demo_backend ''r1:web'')
     \<lparr>tg_group_id = ''g'', tg_remote_port = 9000, tg_started = True, tg_rr = 0, tg_backends = []\<rparr>)"

theorem pick_backend_exact_witness:
  "fst (pick_backend 0 demo_group) \<noteq> None"
  using pick_backend_exact [of 0 demo_group]
  by (simp add: demo_group_def demo_backend_def add_backend_def ejected_def)

text \<open>
  A failed connection ejects its backend for exactly five seconds. After the failure of backend
  \<open>k\<close> is recorded at time \<open>now\<close>, no connection before \<open>now\<close> plus five seconds is given to \<open>k\<close>, and from
  that time on the group accepts connections again even if all its other backends are ejected.
  (The failure counter of the backend must not be at its 32-bit maximum.)
\<close>

theorem failure_ejects_backend:
  assumes "group_inv g" "s \<in> set (tg_backends g)" "gb_backend_id (bs_snapshot s) = k"
    and "bs_failures s \<noteq> - 1"
  shows "(\<forall>t b. t < now + backend_eject \<and> fst (pick_backend t (mark_backend_failure now k g)) = Some b \<longrightarrow>
      gb_backend_id b \<noteq> k) \<and>
    (\<forall>t. now + backend_eject \<le> t \<longrightarrow> fst (pick_backend t (mark_backend_failure now k g)) \<noteq> None)"
proof -
  let ?f = "\<lambda>s. let s = s\<lparr>bs_failures := bs_failures s + 1\<rparr> in
      if bs_failures s \<ge> backend_fail_threshold
      then s\<lparr>bs_ejected_until := Some (now + backend_eject)\<rparr> else s"
  let ?g = "mark_backend_failure now k g"
  have ids: "distinct (backend_ids g)" using assms(1) by (simp add: group_inv_def)
  have same: "s' = s" if "s' \<in> set (tg_backends g)" "gb_backend_id (bs_snapshot s') = k" for s'
    using ids that assms(2,3) by (auto simp: distinct_map inj_on_def)
  have "bs_failures s + 1 \<noteq> 0" using assms(4) by (simp add: eq_neg_iff_add_eq_0)
  then have "\<not> bs_failures s + 1 < 1" by (simp only: word_less_1 not_False_eq_True)
  then have "1 \<le> bs_failures s + 1" by (simp only: not_less)
  then have e: "bs_ejected_until (?f s) = Some (now + backend_eject)"
    by (simp add: backend_fail_threshold_def Let_def)
  have B: "tg_backends ?g = update_first k ?f (tg_backends g)" by (simp add: mark_backend_failure_def)
  have snap: "bs_snapshot (?f s') = bs_snapshot s'" for s' by (simp add: Let_def)
  have k_in: "bs_ejected_until x = Some (now + backend_eject)"
    if x: "x \<in> set (tg_backends ?g)" "gb_backend_id (bs_snapshot x) = k" for x
  proof -
    have "\<exists>s' \<in> set (tg_backends g). gb_backend_id (bs_snapshot s') = k \<and> x = ?f s'"
      using in_update_first [OF ids x(1) [unfolded B] snap] x(2) by blast
    then obtain s' where "s' \<in> set (tg_backends g)" "gb_backend_id (bs_snapshot s') = k" "x = ?f s'"
      by blast
    with same [OF this(1,2)] e show ?thesis by simp
  qed
  show ?thesis
  proof (intro conjI allI impI)
    fix t b assume *: "t < now + backend_eject \<and> fst (pick_backend t ?g) = Some b"
    then obtain x where "x \<in> set (tg_backends ?g)" "bs_snapshot x = b" "\<not> ejected t x"
      using pick_backend_Some by blast
    with k_in [of x] * show "gb_backend_id b \<noteq> k" by (auto simp: ejected_def)
  next
    fix t assume t: "now + backend_eject \<le> t"
    have "k \<in> set (backend_ids ?g)" using assms(2,3) by (simp only: ids_mark) auto
    then obtain x where "x \<in> set (tg_backends ?g)" "gb_backend_id (bs_snapshot x) = k"
      by (auto simp del: ids_mark)
    with k_in [of x] t have "x \<in> set (tg_backends ?g)" "\<not> ejected t x" by (auto simp: ejected_def)
    then show "fst (pick_backend t ?g) \<noteq> None" by (auto simp: pick_backend_None list_all_iff)
  qed
qed

theorem failure_ejects_backend_witness:
  "fst (pick_backend 8 (mark_backend_failure 7 ''r1:web'' demo_group)) \<noteq> Some (demo_backend ''r1:web'') \<and>
   fst (pick_backend (7 + backend_eject) (mark_backend_failure 7 ''r1:web'' demo_group)) \<noteq> None"
proof -
  have "\<lparr>bs_snapshot = demo_backend ''r1:web'', bs_failures = 0, bs_ejected_until = None\<rparr>
      \<in> set (tg_backends demo_group)" "group_inv demo_group"
    by (simp_all add: demo_group_def demo_backend_def add_backend_def group_inv_def)
  from failure_ejects_backend [OF this(2,1), of "''r1:web''" 7]
  have *: "t < 7 + backend_eject \<and> fst (pick_backend t (mark_backend_failure 7 ''r1:web'' demo_group)) = Some b \<longrightarrow>
      gb_backend_id b \<noteq> ''r1:web''"
    "fst (pick_backend (7 + backend_eject) (mark_backend_failure 7 ''r1:web'' demo_group)) \<noteq> None" for t b
    by (simp_all add: demo_backend_def)
  from *(1) [of 8 "demo_backend ''r1:web''"] *(2) show ?thesis
    by (simp add: demo_backend_def backend_eject_def)
qed

text \<open>
  While all backends of a group are healthy, connections are spread evenly: of \<open>n\<close> times as many
  connections as backends each backend gets exactly \<open>n\<close>, as long as the 32-bit counter does not wrap.
\<close>

theorem group_round_robin_fair:
  assumes "group_inv g" "all_healthy g" "s \<in> set (tg_backends g)"
    and "length ts = n * length (tg_backends g)" "unat (tg_rr g) + length ts < 2 ^ 32"
  shows "count_list (group_picks ts g) (Some (bs_snapshot s)) = n"
proof -
  let ?bs = "map bs_snapshot (tg_backends g)"
  have ne: "tg_backends g \<noteq> []" using assms(3) by auto
  have "distinct (map gb_backend_id ?bs)" using assms(1) by (simp add: group_inv_def comp_def)
  then have d: "distinct ?bs" by (simp only: distinct_map)
  have "group_picks ts g
      = map Some (map (\<lambda>i. ?bs ! ((unat (tg_rr g) + i) mod length ?bs)) [0..<n * length ?bs])"
    unfolding group_picks_nth [OF assms(2) ne assms(5)] assms(4) using ne by simp
  moreover have "count_list (map Some xs) (Some x) = count_list xs x" for xs :: "grouped_backend list" and x
    by (induction xs) auto
  moreover have "bs_snapshot s \<in> set ?bs" using assms(3) by simp
  ultimately show ?thesis using count_periods [OF d] by (simp only:)
qed

theorem group_round_robin_fair_witness:
  "count_list (group_picks [1, 2, 3, 4] demo_group) (Some (demo_backend ''r2:web'')) = 2"
  using group_round_robin_fair [of demo_group "\<lparr>bs_snapshot = demo_backend ''r2:web'', bs_failures = 0,
      bs_ejected_until = None\<rparr>" "[1, 2, 3, 4]" 2]
  by (simp add: demo_group_def demo_backend_def add_backend_def group_inv_def all_healthy_def)

end
