(* ===== verification/Proxies.thy ===== *)
theory Proxies
  imports Vhost Backends "HOL-Library.Char_ord" "HOL-Library.List_Lexorder" "HOL-Library.Product_Lexorder"
begin

text \<open>
  \<^verbatim>\<open>ProxyManager\<close> of \<^verbatim>\<open>arp-server/src/proxy/mod.rs\<close> with the constructors and \<^verbatim>\<open>close\<close> methods of the
  proxies it manages (\<^verbatim>\<open>tcp.rs\<close>, \<^verbatim>\<open>udp.rs\<close>, \<^verbatim>\<open>vhost.rs\<close>): registration of a proxy, its removal by name,
  by owner or by eviction, and the ports, groups, routes and registry entries it holds. The shared
  maps are fields of one record; the outcome of binding a socket and the order in which a map is
  walked are arguments. A member of a group refers to the group by its key in the table of groups.
\<close>

record tcp_proxy =
  tp_name :: string
  tp_remote_port :: u16
  tp_work_conn_req_tx :: chan
  tp_tcp_mux :: bool
  tp_stcp :: bool
  tp_secret :: string

record udp_proxy =
  ud_name :: string
  ud_remote_port :: u16
  ud_work_conn_req_tx :: chan
  ud_use_compression :: bool
  ud_use_encryption :: bool
  ud_secret :: string

datatype proxy =
    PTcp tcp_proxy
  | PMember string string string
  | PStcp string
  | PHttp string
  | PHttps string
  | PUdp udp_proxy
  | PXtcp string "tcp_proxy option"

record proxy_record =
  rec_run_id :: string
  rec_proxy_name :: string
  rec_proxy_type :: string
  rec_remote_addr :: string

record xtcp_info =
  xi_run_id :: string
  xi_sk :: string
  xi_relay_addr :: string

record stcp_info =
  si_run_id :: string
  si_sk :: string
  si_work_conn_req_tx :: chan

record proxy_manager =
  pm_proxies :: "string \<rightharpoonup> proxy"
  pm_records :: "string \<rightharpoonup> proxy_record"
  pm_vhost :: vhost_manager
  pm_groups :: "string \<rightharpoonup> tcp_group"
  pm_xtcp :: "string \<rightharpoonup> xtcp_info"
  pm_stcp :: "string \<rightharpoonup> stcp_info"
  pm_ports :: resource_controller

text \<open>What the operating system answers to a bind, for TCP and for UDP.\<close>

record os =
  os_tcp_bind :: "u16 \<Rightarrow> io_error option"
  os_udp_bind :: "u16 \<Rightarrow> io_error option"

definition manager_new ::
  "platform \<Rightarrow> string \<Rightarrow> string \<Rightarrow> u16 \<Rightarrow> u16 \<Rightarrow> resource_controller \<Rightarrow> proxy_manager" where
  "manager_new pf bind_addr subdomain_host http_port https_port rc =
     \<lparr>pm_proxies = Map.empty, pm_records = Map.empty,
      pm_vhost = vhost_new pf bind_addr subdomain_host http_port https_port,
      pm_groups = Map.empty, pm_xtcp = Map.empty, pm_stcp = Map.empty, pm_ports = rc\<rparr>"

subsection \<open>Constructors\<close>

definition tcp_proxy_new ::
  "os \<Rightarrow> new_proxy_msg \<Rightarrow> chan \<Rightarrow> resource_controller \<Rightarrow> tcp_proxy result \<times> resource_controller" where
  "tcp_proxy_new os msg tx rc =
     (let stcp = (np_proxy_type msg = ''stcp'') in
      case allocate_port (np_remote_port msg) rc of
        (Inl e, rc) \<Rightarrow> (Inl e, rc)
      | (Inr remote_port, rc) \<Rightarrow>
          (case os_tcp_bind os remote_port of
             Some e \<Rightarrow> (Inl (Io e), release_port remote_port rc)
           | None \<Rightarrow>
               (Inr \<lparr>tp_name = np_proxy_name msg, tp_remote_port = remote_port,
                     tp_work_conn_req_tx = tx,
                     tp_tcp_mux = (np_multiplexer msg \<in> {''tcp_mux'', ''mux'', ''smux'', ''yamux''} \<and> \<not> stcp),
                     tp_stcp = stcp, tp_secret = np_sk msg\<rparr>, rc)))"

definition udp_proxy_new ::
  "os \<Rightarrow> new_proxy_msg \<Rightarrow> chan \<Rightarrow> resource_controller \<Rightarrow> udp_proxy result \<times> resource_controller" where
  "udp_proxy_new os msg tx rc =
     (let force_secure = (np_proxy_type msg = ''sudp'') in
      case allocate_port (np_remote_port msg) rc of
        (Inl e, rc) \<Rightarrow> (Inl e, rc)
      | (Inr remote_port, rc) \<Rightarrow>
          (case os_udp_bind os remote_port of
             Some e \<Rightarrow> (Inl (Io e), release_port remote_port rc)
           | None \<Rightarrow>
               (Inr \<lparr>ud_name = np_proxy_name msg, ud_remote_port = remote_port,
                     ud_work_conn_req_tx = tx, ud_use_compression = np_use_compression msg,
                     ud_use_encryption = (np_use_encryption msg \<or> force_secure),
                     ud_secret = np_sk msg\<rparr>, rc)))"

definition str_field :: "(string \<times> json) list \<Rightarrow> string \<Rightarrow> string option" where
  "str_field obj k = (case map_of obj k of None \<Rightarrow> None | Some v \<Rightarrow> as_str v)"

definition parse_lb_group :: "new_proxy_msg \<Rightarrow> string \<times> string" where
  "parse_lb_group msg =
     (case as_object (np_extra msg) of
        None \<Rightarrow> ([], [])
      | Some obj \<Rightarrow>
          let group = (case str_field obj ''group'' of None \<Rightarrow> [] | Some v \<Rightarrow> trim v);
              group_key = (case str_field obj ''group_key'' of None \<Rightarrow> [] | Some v \<Rightarrow> trim v)
          in (case (case map_of obj ''load_balancer'' of None \<Rightarrow> None | Some v \<Rightarrow> as_object v) of
                None \<Rightarrow> (group, group_key)
              | Some lb \<Rightarrow>
                  (if group = [] then (case str_field lb ''group'' of None \<Rightarrow> [] | Some v \<Rightarrow> trim v)
                   else group,
                   if group_key = [] then (case str_field lb ''group_key'' of None \<Rightarrow> [] | Some v \<Rightarrow> trim v)
                   else group_key)))"

definition listen_addr :: "u16 \<Rightarrow> string" where
  "listen_addr port = ''0.0.0.0:'' @ show_nat (unat port)"

subsection \<open>Registration\<close>

text \<open>One function per arm of the \<^verbatim>\<open>match\<close> on the proxy type: the new proxy and its address.\<close>

definition register_tcp ::
  "os \<Rightarrow> string \<Rightarrow> new_proxy_msg \<Rightarrow> chan \<Rightarrow> proxy_manager \<Rightarrow> (proxy \<times> string) result \<times> proxy_manager" where
  "register_tcp os key msg tx pm =
     (let (lb_group, lb_group_key) = parse_lb_group msg in
      if lb_group = [] then
        (case tcp_proxy_new os msg tx (pm_ports pm) of
           (Inl e, rc) \<Rightarrow> (Inl e, pm\<lparr>pm_ports := rc\<rparr>)
         | (Inr p, rc) \<Rightarrow> (Inr (PTcp p, listen_addr (tp_remote_port p)), pm\<lparr>pm_ports := rc\<rparr>))
      else if np_remote_port msg = 0 then
        (Inl (Proxy ''tcp/stcp load_balancer.group requires fixed remote_port''), pm)
      else
        let group_id = np_proxy_type msg @ '':'' @ show_nat (unat (np_remote_port msg)) @ '':''
              @ lb_group @ '':'' @ lb_group_key;
            (grouped, rc) =
              (case pm_groups pm group_id of
                 Some existing \<Rightarrow> (Inr existing, pm_ports pm)
               | None \<Rightarrow> group_new (os_tcp_bind os) group_id (np_remote_port msg) (pm_ports pm))
        in (case grouped of
              Inl e \<Rightarrow> (Inl e, pm\<lparr>pm_ports := rc\<rparr>)
            | Inr grouped \<Rightarrow>
                let grouped = add_backend \<lparr>gb_backend_id = key, gb_proxy_name = np_proxy_name msg,
                      gb_work_conn_req_tx = tx, gb_stcp = (np_proxy_type msg = ''stcp''),
                      gb_secret = np_sk msg\<rparr> grouped;
                    (_, grouped) = ensure_started grouped
                in (Inr (PMember (np_proxy_name msg) group_id key, listen_addr (tg_remote_port grouped)),
                    pm\<lparr>pm_groups := (pm_groups pm)(group_id \<mapsto> grouped), pm_ports := rc\<rparr>)))"

definition register_stcp ::
  "string \<Rightarrow> new_proxy_msg \<Rightarrow> chan \<Rightarrow> proxy_manager \<Rightarrow> (proxy \<times> string) result \<times> proxy_manager" where
  "register_stcp run_id msg tx pm =
     (if trim (np_sk msg) = [] then (Inl (Proxy ''stcp proxy requires sk''), pm)
      else if pm_stcp pm (np_proxy_name msg) \<noteq> None then
        (Inl (Proxy (''stcp proxy '' @ np_proxy_name msg @ '' already exists'')), pm)
      else
        (Inr (PStcp (np_proxy_name msg), ''stcp''),
         pm\<lparr>pm_stcp := (pm_stcp pm)(np_proxy_name msg \<mapsto>
               \<lparr>si_run_id = run_id, si_sk = np_sk msg, si_work_conn_req_tx = tx\<rparr>)\<rparr>))"

definition register_vhost ::
  "platform \<Rightarrow> string \<Rightarrow> new_proxy_msg \<Rightarrow> chan \<Rightarrow> proxy_manager \<Rightarrow>
   (proxy \<times> string) result \<times> proxy_manager" where
  "register_vhost pf run_id msg tx pm =
     (let route_key = run_id @ '':'' @ np_proxy_name msg;
          https = (np_proxy_type msg = ''https'');
          (r, vm) = (if https then register_https pf run_id msg tx (pm_vhost pm)
                     else register_http pf run_id msg tx (pm_vhost pm))
      in (case r of
            Inl e \<Rightarrow> (Inl e, pm\<lparr>pm_vhost := vm\<rparr>)
          | Inr remote_addr \<Rightarrow>
              (Inr (if https then PHttps route_key else PHttp route_key, remote_addr),
               pm\<lparr>pm_vhost := vm\<rparr>)))"

definition register_udp ::
  "os \<Rightarrow> new_proxy_msg \<Rightarrow> chan \<Rightarrow> proxy_manager \<Rightarrow> (proxy \<times> string) result \<times> proxy_manager" where
  "register_udp os msg tx pm =
     (case udp_proxy_new os msg tx (pm_ports pm) of
        (Inl e, rc) \<Rightarrow> (Inl e, pm\<lparr>pm_ports := rc\<rparr>)
      | (Inr p, rc) \<Rightarrow> (Inr (PUdp p, listen_addr (ud_remote_port p)), pm\<lparr>pm_ports := rc\<rparr>))"

definition register_xtcp ::
  "os \<Rightarrow> string \<Rightarrow> new_proxy_msg \<Rightarrow> chan \<Rightarrow> proxy_manager \<Rightarrow> (proxy \<times> string) result \<times> proxy_manager" where
  "register_xtcp os run_id msg tx pm =
     (if trim (np_sk msg) = [] then (Inl (Proxy ''xtcp proxy requires sk''), pm)
      else if pm_xtcp pm (np_proxy_name msg) \<noteq> None then
        (Inl (Proxy (''xtcp proxy '' @ np_proxy_name msg @ '' already exists'')), pm)
      else
        let relay_msg = msg\<lparr>np_proxy_name := np_proxy_name msg @ ''__relay'', np_proxy_type := ''tcp'',
              np_sk := [], np_multiplexer := []\<rparr>;
            (relay, rc) =
              (if np_fallback_to_relay msg then
                 (case tcp_proxy_new os relay_msg tx (pm_ports pm) of
                    (Inl e, rc) \<Rightarrow> (Inl e, rc)
                  | (Inr p, rc) \<Rightarrow> (Inr (Some p), rc))
               else (Inr None, pm_ports pm))
        in (case relay of
              Inl e \<Rightarrow> (Inl e, pm\<lparr>pm_ports := rc\<rparr>)
            | Inr relay_proxy \<Rightarrow>
                let relay_addr = (case relay_proxy of None \<Rightarrow> [] | Some p \<Rightarrow> listen_addr (tp_remote_port p));
                    remote_addr = (if relay_addr = [] then ''xtcp'' else ''xtcp(relay='' @ relay_addr @ '')'')
                in (Inr (PXtcp (np_proxy_name msg) relay_proxy, remote_addr),
                    pm\<lparr>pm_ports := rc,
                       pm_xtcp := (pm_xtcp pm)(np_proxy_name msg \<mapsto>
                         \<lparr>xi_run_id = run_id, xi_sk = np_sk msg, xi_relay_addr = relay_addr\<rparr>)\<rparr>)))"

definition proxy_key :: "string \<Rightarrow> string \<Rightarrow> string" where
  "proxy_key run_id proxy_name = run_id @ '':'' @ proxy_name"

definition register_proxy ::
  "platform \<Rightarrow> os \<Rightarrow> string \<Rightarrow> new_proxy_msg \<Rightarrow> chan \<Rightarrow> proxy_manager \<Rightarrow> string result \<times> proxy_manager" where
  "register_proxy pf os run_id msg tx pm =
     (let key = proxy_key run_id (np_proxy_name msg); ty = np_proxy_type msg in
      if pm_proxies pm key \<noteq> None then
        (Inl (Proxy (''Proxy '' @ np_proxy_name msg @ '' already exists'')), pm)
      else
        let (r, pm) =
              (if ty = ''tcp'' then register_tcp os key msg tx pm
               else if ty = ''stcp'' then register_stcp run_id msg tx pm
               else if ty = ''http'' \<or> ty = ''https'' then register_vhost pf run_id msg tx pm
               else if ty = ''udp'' \<or> ty = ''sudp'' then register_udp os msg tx pm
               else if ty = ''xtcp'' then register_xtcp os run_id msg tx pm
               else (Inl (Proxy (''Unsupported proxy type: '' @ ty)), pm))
        in (case r of
              Inl e \<Rightarrow> (Inl e, pm)
            | Inr (proxy, remote_addr) \<Rightarrow>
                (Inr remote_addr,
                 pm\<lparr>pm_proxies := (pm_proxies pm)(key \<mapsto> proxy),
                    pm_records := (pm_records pm)(key \<mapsto>
                      \<lparr>rec_run_id = run_id, rec_proxy_name = np_proxy_name msg, rec_proxy_type = ty,
                       rec_remote_addr = remote_addr\<rparr>)\<rparr>)))"

subsection \<open>Removal\<close>

definition tcp_close :: "tcp_proxy \<Rightarrow> proxy_manager \<Rightarrow> proxy_manager" where
  "tcp_close p pm = pm\<lparr>pm_ports := release_port (tp_remote_port p) (pm_ports pm)\<rparr>"

fun proxy_close :: "string list \<Rightarrow> proxy \<Rightarrow> proxy_manager \<Rightarrow> proxy_manager" where
  "proxy_close order (PTcp p) pm = tcp_close p pm"
| "proxy_close order (PMember name group_id backend_id) pm =
     (case pm_groups pm group_id of
        None \<Rightarrow> pm
      | Some g \<Rightarrow>
          let (empty, g, rc) = remove_backend backend_id g (pm_ports pm) in
          pm\<lparr>pm_groups := (pm_groups pm)(group_id := if empty then None else Some g), pm_ports := rc\<rparr>)"
| "proxy_close order (PStcp name) pm = pm\<lparr>pm_stcp := (pm_stcp pm)(name := None)\<rparr>"
| "proxy_close order (PHttp route_key) pm =
     pm\<lparr>pm_vhost := unregister_route order route_key ''http'' (pm_vhost pm)\<rparr>"
| "proxy_close order (PHttps route_key) pm =
     pm\<lparr>pm_vhost := unregister_route order route_key ''https'' (pm_vhost pm)\<rparr>"
| "proxy_close order (PUdp p) pm =
     pm\<lparr>pm_ports := release_port (ud_remote_port p) (pm_ports pm)\<rparr>"
| "proxy_close order (PXtcp name relay) pm =
     (let pm = (case relay of None \<Rightarrow> pm | Some p \<Rightarrow> tcp_close p pm)
      in pm\<lparr>pm_xtcp := (pm_xtcp pm)(name := None)\<rparr>)"

text \<open>Take a key out of both maps and close what was there.\<close>

definition remove_key :: "string list \<Rightarrow> string \<Rightarrow> proxy_manager \<Rightarrow> proxy_manager" where
  "remove_key order key pm =
     (case pm_proxies pm key of
        None \<Rightarrow> pm
      | Some proxy \<Rightarrow>
          proxy_close order proxy
            (pm\<lparr>pm_proxies := (pm_proxies pm)(key := None),
                pm_records := (pm_records pm)(key := None)\<rparr>))"

definition unregister_proxy :: "string list \<Rightarrow> string \<Rightarrow> string \<Rightarrow> proxy_manager \<Rightarrow> proxy_manager" where
  "unregister_proxy order run_id proxy_name pm = remove_key order (proxy_key run_id proxy_name) pm"

text \<open>\<open>keys\<close> is the order in which the map of proxies is walked.\<close>

definition evict_proxy_by_name ::
  "string list \<Rightarrow> string list \<Rightarrow> string \<Rightarrow> proxy_manager \<Rightarrow> string option \<times> proxy_manager" where
  "evict_proxy_by_name keys order proxy_name pm =
     (case find (\<lambda>key. ends_with key ('':'' @ proxy_name)) keys of
        None \<Rightarrow> (None, pm)
      | Some key \<Rightarrow>
          let owner_run_id = (case split_once CHR '':'' key of None \<Rightarrow> key | Some (a, _) \<Rightarrow> a);
              pm = remove_key order key pm
          in (Some owner_run_id, pm\<lparr>pm_xtcp := (pm_xtcp pm)(proxy_name := None)\<rparr>))"

definition unregister_run_proxies ::
  "string list \<Rightarrow> string list \<Rightarrow> string \<Rightarrow> proxy_manager \<Rightarrow> proxy_manager" where
  "unregister_run_proxies keys order run_id pm =
     fold (remove_key order) (filter (\<lambda>key. starts_with key (run_id @ '':'')) keys) pm"

subsection \<open>Queries\<close>

definition list_records :: "string list \<Rightarrow> proxy_manager \<Rightarrow> proxy_record list" where
  "list_records keys pm =
     sort_key (\<lambda>r. (rec_proxy_name r, rec_run_id r)) (List.map_filter (pm_records pm) keys)"

definition get_record :: "string list \<Rightarrow> string \<Rightarrow> proxy_manager \<Rightarrow> proxy_record option" where
  "get_record keys proxy_name pm =
     find (\<lambda>r. rec_proxy_name r = proxy_name) (List.map_filter (pm_records pm) keys)"

definition get_xtcp_owner :: "string \<Rightarrow> proxy_manager \<Rightarrow> xtcp_info option" where
  "get_xtcp_owner proxy_name pm = pm_xtcp pm proxy_name"

definition get_stcp_info :: "string \<Rightarrow> proxy_manager \<Rightarrow> stcp_info option" where
  "get_stcp_info proxy_name pm = pm_stcp pm proxy_name"

subsection \<open>Who holds which port\<close>

fun held_port :: "proxy \<Rightarrow> u16 option" where
  "held_port (PTcp p) = Some (tp_remote_port p)"
| "held_port (PUdp p) = Some (ud_remote_port p)"
| "held_port (PXtcp _ (Some p)) = Some (tp_remote_port p)"
| "held_port _ = None"

text \<open>A port belongs to a proxy (\<open>Inl\<close>) or to a group (\<open>Inr\<close>).\<close>

fun port_map :: "(string \<rightharpoonup> proxy) \<Rightarrow> (string \<rightharpoonup> tcp_group) \<Rightarrow> (string + string) \<rightharpoonup> u16" where
  "port_map proxies groups (Inl key) = Option.bind (proxies key) held_port"
| "port_map proxies groups (Inr group_id) = map_option tg_remote_port (groups group_id)"

definition port_of :: "proxy_manager \<Rightarrow> (string + string) \<rightharpoonup> u16" where
  "port_of pm = port_map (pm_proxies pm) (pm_groups pm)"

lemma port_map_update [simp]:
  "port_map (proxies(k := x)) groups = (port_map proxies groups)(Inl k := Option.bind x held_port)"
  "port_map proxies (groups(g := y)) = (port_map proxies groups)(Inr g := map_option tg_remote_port y)"
  by (rule ext, rename_tac h, case_tac h; simp)+

definition ports_inv :: "proxy_manager \<Rightarrow> bool" where
  "ports_inv pm \<longleftrightarrow> inj_map (port_of pm) \<and> ran (port_of pm) = used_ports (pm_ports pm)"

definition members_inv :: "proxy_manager \<Rightarrow> bool" where
  "members_inv pm \<longleftrightarrow>
     (\<forall>k n g b. pm_proxies pm k = Some (PMember n g b) \<longrightarrow>
        b = k \<and> (\<exists>t. pm_groups pm g = Some t \<and> k \<in> set (backend_ids t))) \<and>
     (\<forall>g t. pm_groups pm g = Some t \<longrightarrow>
        group_inv t \<and> tg_started t \<and> tg_backends t \<noteq> [] \<and>
        (\<forall>k \<in> set (backend_ids t). \<exists>n. pm_proxies pm k = Some (PMember n g k)))"

abbreviation http_table :: "proxy_manager \<Rightarrow> routes \<times> counters" where
  "http_table pm \<equiv> (vm_http_routes (pm_vhost pm), vm_http_rr (pm_vhost pm))"

abbreviation https_table :: "proxy_manager \<Rightarrow> routes \<times> counters" where
  "https_table pm \<equiv> (vm_https_routes (pm_vhost pm), vm_https_rr (pm_vhost pm))"

definition routes_inv :: "proxy_manager \<Rightarrow> bool" where
  "routes_inv pm \<longleftrightarrow> table_inv (http_table pm) \<and> table_inv (https_table pm) \<and>
     (\<forall>d k. routed (http_table pm) d k \<longrightarrow> pm_proxies pm k = Some (PHttp k)) \<and>
     (\<forall>d k. routed (https_table pm) d k \<longrightarrow> pm_proxies pm k = Some (PHttps k)) \<and>
     (\<forall>k k'. pm_proxies pm k = Some (PHttp k') \<or> pm_proxies pm k = Some (PHttps k') \<longrightarrow> k' = k)"

definition registry_inv :: "proxy_manager \<Rightarrow> bool" where
  "registry_inv pm \<longleftrightarrow>
     (\<forall>n i. pm_stcp pm n = Some i \<longrightarrow> pm_proxies pm (proxy_key (si_run_id i) n) = Some (PStcp n)) \<and>
     (\<forall>n k. pm_proxies pm k = Some (PStcp n) \<longrightarrow>
        (\<exists>i. pm_stcp pm n = Some i \<and> k = proxy_key (si_run_id i) n)) \<and>
     (\<forall>n i. pm_xtcp pm n = Some i \<longrightarrow>
        (\<exists>r. pm_proxies pm (proxy_key (xi_run_id i) n) = Some (PXtcp n r)))"

definition manager_inv :: "proxy_manager \<Rightarrow> bool" where
  "manager_inv pm \<longleftrightarrow> dom (pm_records pm) = dom (pm_proxies pm) \<and>
     ports_inv pm \<and> members_inv pm \<and> routes_inv pm \<and> registry_inv pm"

lemmas manager_inv_defs = ports_inv_def members_inv_def routes_inv_def registry_inv_def

subsection \<open>What a successful registration did\<close>

lemma allocated_ports:
  "allocate_port p rc = (Inr q, rc') \<Longrightarrow>
   rc_tcp_ports rc q = None \<and> rc_tcp_ports rc' = (rc_tcp_ports rc)(q \<mapsto> [])"
  "allocate_port p rc = (Inl e, rc') \<Longrightarrow> rc_tcp_ports rc' = rc_tcp_ports rc"
  by (auto simp: allocate_port_def allocate_tcp_port_def allocate_random_tcp_port_def
      dest!: random_loop_Inr random_loop_Inl split: if_splits)

lemma release_ports [simp]: "rc_tcp_ports (release_port q rc) = (rc_tcp_ports rc)(q := None)"
  by (simp add: release_tcp_port_def)

text \<open>\<open>took q rc rc'\<close>: the free port \<open>q\<close> was put into the table.\<close>

definition took :: "u16 \<Rightarrow> resource_controller \<Rightarrow> resource_controller \<Rightarrow> bool" where
  "took q rc rc' \<longleftrightarrow> rc_tcp_ports rc q = None \<and> rc_tcp_ports rc' = (rc_tcp_ports rc)(q \<mapsto> [])"

lemma took_used: "took q rc rc' \<Longrightarrow> q \<notin> used_ports rc \<and> used_ports rc' = insert q (used_ports rc)"
  by (auto simp: took_def used_ports_def)

lemma took_release: "took q rc rc' \<Longrightarrow> rc_tcp_ports (release_port q rc') = rc_tcp_ports rc"
  by (auto simp: took_def fun_eq_iff)

lemma tcp_proxy_new_ports:
  "tcp_proxy_new os msg tx rc = (Inr p, rc') \<Longrightarrow> took (tp_remote_port p) rc rc'"
  "tcp_proxy_new os msg tx rc = (Inl e, rc') \<Longrightarrow> rc_tcp_ports rc' = rc_tcp_ports rc"
  by (auto simp: tcp_proxy_new_def took_def Let_def fun_eq_iff dest!: allocated_ports
      split: prod.splits sum.splits option.splits)

lemma udp_proxy_new_ports:
  "udp_proxy_new os msg tx rc = (Inr p, rc') \<Longrightarrow> took (ud_remote_port p) rc rc'"
  "udp_proxy_new os msg tx rc = (Inl e, rc') \<Longrightarrow> rc_tcp_ports rc' = rc_tcp_ports rc"
  by (auto simp: udp_proxy_new_def took_def Let_def fun_eq_iff dest!: allocated_ports
      split: prod.splits sum.splits option.splits)

lemma group_new_ports:
  "group_new bind g p rc = (Inr t, rc') \<Longrightarrow>
     took (tg_remote_port t) rc rc' \<and> tg_remote_port t = p \<and> tg_backends t = []"
  "group_new bind g p rc = (Inl e, rc') \<Longrightarrow> rc_tcp_ports rc' = rc_tcp_ports rc"
  by (auto simp: group_new_def took_def allocate_tcp_port_def fun_eq_iff
      split: prod.splits sum.splits option.splits if_splits)

text \<open>
  What the arm for the type of the proxy added to the shared tables before the proxy itself is
  entered under its key.
\<close>

inductive gained :: "string \<Rightarrow> string \<Rightarrow> proxy \<Rightarrow> proxy_manager \<Rightarrow> proxy_manager \<Rightarrow> bool"
  for run_id name where
  tcp: "took (tp_remote_port p) (pm_ports pm) rc \<Longrightarrow>
    gained run_id name (PTcp p) pm (pm\<lparr>pm_ports := rc\<rparr>)"
| udp: "took (ud_remote_port p) (pm_ports pm) rc \<Longrightarrow>
    gained run_id name (PUdp p) pm (pm\<lparr>pm_ports := rc\<rparr>)"
| new_group: "pm_groups pm g = None \<Longrightarrow> took (tg_remote_port t) (pm_ports pm) rc \<Longrightarrow>
    backend_ids t = [proxy_key run_id name] \<Longrightarrow> tg_started t \<Longrightarrow>
    gained run_id name (PMember name g (proxy_key run_id name)) pm
      (pm\<lparr>pm_groups := (pm_groups pm)(g \<mapsto> t), pm_ports := rc\<rparr>)"
| old_group: "pm_groups pm g = Some t \<Longrightarrow> proxy_key run_id name \<notin> set (backend_ids t) \<Longrightarrow>
    gb_backend_id (bs_snapshot b) = proxy_key run_id name \<Longrightarrow>
    gained run_id name (PMember name g (proxy_key run_id name)) pm
      (pm\<lparr>pm_groups := (pm_groups pm)(g \<mapsto> t\<lparr>tg_backends := tg_backends t @ [b]\<rparr>)\<rparr>)"
| stcp: "pm_stcp pm name = None \<Longrightarrow> si_run_id i = run_id \<Longrightarrow>
    gained run_id name (PStcp name) pm (pm\<lparr>pm_stcp := (pm_stcp pm)(name \<mapsto> i)\<rparr>)"
| http: "t = add_routes ds (proxy_key run_id name) name tx (http_table pm) \<Longrightarrow>
    gained run_id name (PHttp (proxy_key run_id name)) pm
      (pm\<lparr>pm_vhost := (pm_vhost pm)\<lparr>vm_http_routes := fst t, vm_http_rr := snd t, vm_http_started := True\<rparr>\<rparr>)"
| https: "t = add_routes ds (proxy_key run_id name) name tx (https_table pm) \<Longrightarrow>
    gained run_id name (PHttps (proxy_key run_id name)) pm
      (pm\<lparr>pm_vhost := (pm_vhost pm)\<lparr>vm_https_routes := fst t, vm_https_rr := snd t, vm_https_started := True\<rparr>\<rparr>)"
| xtcp: "pm_xtcp pm name = None \<Longrightarrow> xi_run_id i = run_id \<Longrightarrow>
    gained run_id name (PXtcp name None) pm (pm\<lparr>pm_xtcp := (pm_xtcp pm)(name \<mapsto> i)\<rparr>)"
| xtcp_relay: "pm_xtcp pm name = None \<Longrightarrow> xi_run_id i = run_id \<Longrightarrow>
    took (tp_remote_port p) (pm_ports pm) rc \<Longrightarrow>
    gained run_id name (PXtcp name (Some p)) pm
      (pm\<lparr>pm_ports := rc, pm_xtcp := (pm_xtcp pm)(name \<mapsto> i)\<rparr>)"

lemma register_tcp_gained:
  assumes reg: "register_tcp os (proxy_key run_id (np_proxy_name msg)) msg tx pm = (Inr (p, a), pm1)"
    and inv: "members_inv pm" and new: "pm_proxies pm (proxy_key run_id (np_proxy_name msg)) = None"
  shows "gained run_id (np_proxy_name msg) p pm pm1"
proof (cases "fst (parse_lb_group msg) = []")
  case True
  then show ?thesis using reg
    by (auto simp: register_tcp_def split: prod.splits sum.splits
        dest!: tcp_proxy_new_ports(1) intro: gained.tcp)
next
  case False
  let ?key = "proxy_key run_id (np_proxy_name msg)"
  let ?b = "\<lparr>gb_backend_id = ?key, gb_proxy_name = np_proxy_name msg, gb_work_conn_req_tx = tx,
      gb_stcp = (np_proxy_type msg = ''stcp''), gb_secret = np_sk msg\<rparr>"
  define g where "g = np_proxy_type msg @ '':'' @ show_nat (unat (np_remote_port msg)) @ '':''
      @ fst (parse_lb_group msg) @ '':'' @ snd (parse_lb_group msg)"
  from reg False have port: "np_remote_port msg \<noteq> 0"
    by (auto simp: register_tcp_def split: prod.splits if_splits)
  show ?thesis
  proof (cases "pm_groups pm g")
    case None
    with reg False port obtain t rc where t: "group_new (os_tcp_bind os) g (np_remote_port msg) (pm_ports pm) = (Inr t, rc)"
      and p: "p = PMember (np_proxy_name msg) g ?key"
      and pm1: "pm1 = pm\<lparr>pm_groups := (pm_groups pm)(g \<mapsto> (add_backend ?b t)\<lparr>tg_started := True\<rparr>), pm_ports := rc\<rparr>"
      by (auto simp: register_tcp_def g_def ensure_started_def Let_def split: prod.splits sum.splits if_splits)
    show ?thesis unfolding p pm1
      by (rule gained.new_group) (use group_new_ports(1) [OF t] None in \<open>auto simp: add_backend_def\<close>)
  next
    case (Some t)
    with reg False port have p: "p = PMember (np_proxy_name msg) g ?key"
      and pm1: "pm1 = pm\<lparr>pm_groups := (pm_groups pm)(g \<mapsto> (add_backend ?b t)\<lparr>tg_started := True\<rparr>)\<rparr>"
      by (auto simp: register_tcp_def g_def ensure_started_def Let_def split: prod.splits sum.splits if_splits)
    have notin: "?key \<notin> set (backend_ids t)" and started: "tg_started t"
      using inv new Some unfolding members_inv_def by fastforce+
    then have "(add_backend ?b t)\<lparr>tg_started := True\<rparr> = t\<lparr>tg_backends := tg_backends t @
        [\<lparr>bs_snapshot = ?b, bs_failures = 0, bs_ejected_until = None\<rparr>]\<rparr>"
      by (cases t) (auto simp: add_backend_def list_ex_iff image_iff)
    then show ?thesis unfolding p pm1
      using gained.old_group [OF Some notin] by simp
  qed
qed

lemma register_other_gained:
  "register_stcp run_id msg tx pm = (Inr (p, a), pm1) \<Longrightarrow> gained run_id (np_proxy_name msg) p pm pm1"
  "register_vhost pf run_id msg tx pm = (Inr (p, a), pm1) \<Longrightarrow> gained run_id (np_proxy_name msg) p pm pm1"
  "register_udp os msg tx pm = (Inr (p, a), pm1) \<Longrightarrow> gained run_id (np_proxy_name msg) p pm pm1"
  "register_xtcp os run_id msg tx pm = (Inr (p, a), pm1) \<Longrightarrow> gained run_id (np_proxy_name msg) p pm pm1"
proof -
  show "register_stcp run_id msg tx pm = (Inr (p, a), pm1) \<Longrightarrow> gained run_id (np_proxy_name msg) p pm pm1"
    by (auto simp: register_stcp_def split: if_splits intro: gained.stcp)
  show "register_udp os msg tx pm = (Inr (p, a), pm1) \<Longrightarrow> gained run_id (np_proxy_name msg) p pm pm1"
    by (auto simp: register_udp_def split: prod.splits sum.splits
        dest!: udp_proxy_new_ports(1) intro: gained.udp)
  show "register_xtcp os run_id msg tx pm = (Inr (p, a), pm1) \<Longrightarrow> gained run_id (np_proxy_name msg) p pm pm1"
    by (auto simp: register_xtcp_def Let_def split: if_splits prod.splits sum.splits
        dest!: tcp_proxy_new_ports(1) intro: gained.xtcp gained.xtcp_relay)
  assume "register_vhost pf run_id msg tx pm = (Inr (p, a), pm1)"
  then show "gained run_id (np_proxy_name msg) p pm pm1"
    using gained.http [OF refl, of run_id "np_proxy_name msg" pm _ tx]
      gained.https [OF refl, of run_id "np_proxy_name msg" pm _ tx]
    by (auto simp: register_vhost_def register_http_def register_https_def Let_def proxy_key_def
        case_prod_unfold split: if_splits sum.splits)
qed

abbreviation entered :: "string \<Rightarrow> proxy \<Rightarrow> proxy_record \<Rightarrow> proxy_manager \<Rightarrow> proxy_manager" where
  "entered key p r pm \<equiv> pm\<lparr>pm_proxies := (pm_proxies pm)(key \<mapsto> p), pm_records := (pm_records pm)(key \<mapsto> r)\<rparr>"

lemma register_proxy_Inr:
  assumes "register_proxy pf os run_id msg tx pm = (Inr a, pm')" and "members_inv pm"
  obtains p pm1 where "gained run_id (np_proxy_name msg) p pm pm1"
    and "pm_proxies pm (proxy_key run_id (np_proxy_name msg)) = None"
    and "pm' = entered (proxy_key run_id (np_proxy_name msg)) p
      \<lparr>rec_run_id = run_id, rec_proxy_name = np_proxy_name msg, rec_proxy_type = np_proxy_type msg,
       rec_remote_addr = a\<rparr> pm1"
  using assms
  by (auto simp: register_proxy_def Let_def split: if_splits prod.splits sum.splits
      dest: register_tcp_gained register_other_gained)

lemma register_proxy_Inl:
  assumes "register_proxy pf os run_id msg tx pm = (Inl e, pm')"
  shows "pm' = pm\<lparr>pm_ports := pm_ports pm'\<rparr>" "rc_tcp_ports (pm_ports pm') = rc_tcp_ports (pm_ports pm)"
  using assms
  by (auto simp: register_proxy_def register_tcp_def register_stcp_def register_vhost_def register_http_def
      register_https_def register_udp_def register_xtcp_def Let_def
      split: if_splits prod.splits sum.splits option.splits
      dest: tcp_proxy_new_ports udp_proxy_new_ports group_new_ports)

subsection \<open>The invariant is kept\<close>

lemma gained_ports_inv:
  assumes "gained run_id name p pm pm1" "pm_proxies pm (proxy_key run_id name) = None" "ports_inv pm"
  shows "ports_inv (entered (proxy_key run_id name) p r pm1)"
  using assms
proof cases
  case (tcp tp rc)
  with took_used [OF tcp(3)] assms show ?thesis
    by (auto simp: ports_inv_def port_of_def ran_acquire intro: inj_map_acquire)
next
  case (udp up rc)
  with took_used [OF udp(3)] assms show ?thesis
    by (auto simp: ports_inv_def port_of_def ran_acquire intro: inj_map_acquire)
next
  case (new_group g t rc)
  with took_used [OF new_group(4)] assms show ?thesis
    by (auto simp: ports_inv_def port_of_def ran_acquire fun_upd_idem intro: inj_map_acquire)
next
  case (xtcp_relay i tp rc)
  with took_used [OF xtcp_relay(5)] assms show ?thesis
    by (auto simp: ports_inv_def port_of_def ran_acquire intro: inj_map_acquire)
qed (simp_all add: ports_inv_def port_of_def fun_upd_idem)

lemma members_inv_iff:
  "members_inv pm \<longleftrightarrow>
     (\<forall>k n g b. pm_proxies pm k = Some (PMember n g b) \<longrightarrow>
        b = k \<and> (\<exists>t. pm_groups pm g = Some t \<and> k \<in> set (backend_ids t))) \<and>
     (\<forall>g t. pm_groups pm g = Some t \<longrightarrow> group_inv t \<and> tg_started t \<and> tg_backends t \<noteq> []) \<and>
     (\<forall>g t k. pm_groups pm g = Some t \<longrightarrow> k \<in> set (backend_ids t) \<longrightarrow>
        (\<exists>n. pm_proxies pm k = Some (PMember n g k)))"
  unfolding members_inv_def by blast

lemma members_invI:
  assumes "\<And>k n g b. pm_proxies pm k = Some (PMember n g b) \<Longrightarrow>
      b = k \<and> (\<exists>t. pm_groups pm g = Some t \<and> k \<in> set (backend_ids t))"
    and "\<And>g t. pm_groups pm g = Some t \<Longrightarrow> group_inv t \<and> tg_started t \<and> tg_backends t \<noteq> []"
    and "\<And>g t k. pm_groups pm g = Some t \<Longrightarrow> k \<in> set (backend_ids t) \<Longrightarrow>
      \<exists>n. pm_proxies pm k = Some (PMember n g k)"
  shows "members_inv pm"
  using assms unfolding members_inv_iff by blast

lemma members_invD:
  assumes "members_inv pm"
  shows "pm_proxies pm k = Some (PMember n g b) \<Longrightarrow>
      b = k \<and> (\<exists>t. pm_groups pm g = Some t \<and> k \<in> set (backend_ids t))"
    and "pm_groups pm g = Some t \<Longrightarrow> group_inv t \<and> tg_started t \<and> tg_backends t \<noteq> []"
    and "pm_groups pm g = Some t \<Longrightarrow> k \<in> set (backend_ids t) \<Longrightarrow>
      \<exists>n. pm_proxies pm k = Some (PMember n g k)"
  using assms unfolding members_inv_iff by blast+

text \<open>A proxy outside every group comes or goes without touching the groups.\<close>

lemma members_inv_upd:
  assumes inv: "members_inv pm"
    and old: "\<And>n g b. pm_proxies pm key \<noteq> Some (PMember n g b)"
    and new: "\<And>n g b. x \<noteq> Some (PMember n g b)"
    and upd: "pm_proxies pm' = (pm_proxies pm)(key := x)" "pm_groups pm' = pm_groups pm"
  shows "members_inv pm'"
proof (rule members_invI)
  show "b = k \<and> (\<exists>t. pm_groups pm' g = Some t \<and> k \<in> set (backend_ids t))"
    if "pm_proxies pm' k = Some (PMember n g b)" for k n g b
    using that new members_invD(1) [OF inv] by (auto simp: upd split: if_splits)
  show "group_inv t \<and> tg_started t \<and> tg_backends t \<noteq> []" if "pm_groups pm' g = Some t" for g t
    using that members_invD(2) [OF inv] by (simp add: upd)
  show "\<exists>n. pm_proxies pm' k = Some (PMember n g k)"
    if "pm_groups pm' g = Some t" "k \<in> set (backend_ids t)" for g t k
    using that members_invD(3) [OF inv, of g t k] old by (auto simp: upd)
qed

lemma gained_members_inv:
  assumes g: "gained run_id name p pm pm1" and new: "pm_proxies pm (proxy_key run_id name) = None"
    and inv: "members_inv pm"
  shows "members_inv (entered (proxy_key run_id name) p r pm1)"
  using g
proof cases
  case (new_group g t rc)
  have other: "k \<noteq> proxy_key run_id name" if "pm_groups pm g' = Some t'" "k \<in> set (backend_ids t')" for g' t' k
    using members_invD(3) [OF inv that] new by auto
  show ?thesis unfolding new_group(1,2)
  proof (rule members_invI, goal_cases)
    case (1 k n g' b)
    then show ?case using new_group members_invD(1) [OF inv, of k n g' b] by (fastforce split: if_splits)
  next
    case (2 g' t')
    then show ?case using new_group members_invD(2) [OF inv, of g' t']
      by (auto simp: group_inv_def split: if_splits)
  next
    case (3 g' t' k)
    then show ?case using new_group members_invD(3) [OF inv, of g' t' k] other [of g' t' k]
      by (auto split: if_splits)
  qed
next
  case (old_group g t b)
  have other: "k \<noteq> proxy_key run_id name" if "pm_groups pm g' = Some t'" "k \<in> set (backend_ids t')" for g' t' k
    using members_invD(3) [OF inv that] new by auto
  show ?thesis unfolding old_group(1,2)
  proof (rule members_invI, goal_cases)
    case (1 k n g' b)
    then show ?case using old_group members_invD(1) [OF inv, of k n g' b] by (fastforce split: if_splits)
  next
    case (2 g' t')
    then show ?case using old_group members_invD(2) [OF inv, of g' t'] members_invD(2) [OF inv, of g t]
      by (auto simp: group_inv_def split: if_splits)
  next
    case (3 g' t' k)
    then show ?case using old_group members_invD(3) [OF inv, of g' _ k] other [of g' _ k]
      by (auto split: if_splits)
  qed
qed (rule members_inv_upd [OF inv, of "proxy_key run_id name" "Some p"]; simp add: new)+

lemma registry_invD:
  assumes "registry_inv pm"
  shows "pm_stcp pm n = Some i \<Longrightarrow> pm_proxies pm (proxy_key (si_run_id i) n) = Some (PStcp n)"
    and "pm_proxies pm k = Some (PStcp n) \<Longrightarrow> \<exists>i. pm_stcp pm n = Some i \<and> k = proxy_key (si_run_id i) n"
    and "pm_xtcp pm n = Some j \<Longrightarrow> \<exists>r. pm_proxies pm (proxy_key (xi_run_id j) n) = Some (PXtcp n r)"
  using assms unfolding registry_inv_def by blast+

lemma gained_registry_inv:
  assumes g: "gained run_id name p pm pm1" and new: "pm_proxies pm (proxy_key run_id name) = None"
    and inv: "registry_inv pm"
  shows "registry_inv (entered (proxy_key run_id name) p r pm1)"
proof -
  note D = registry_invD [OF inv]
  have s: "proxy_key (si_run_id i) n \<noteq> proxy_key run_id name" if "pm_stcp pm n = Some i" for n i
    using D(1) [OF that] new by auto
  have x: "proxy_key (xi_run_id i) n \<noteq> proxy_key run_id name" if "pm_xtcp pm n = Some i" for n i
    using D(3) [OF that] new by auto
  show ?thesis using g
    by cases (auto simp: registry_inv_def dest: D s x split: if_splits)
qed

lemma gained_routes_inv:
  assumes "gained run_id name p pm pm1" "pm_proxies pm (proxy_key run_id name) = None" "routes_inv pm"
  shows "routes_inv (entered (proxy_key run_id name) p r pm1)"
  using assms
proof cases
  case (http t ds tx)
  then show ?thesis using assms(2,3) table_inv_add_routes routed_add_routes
    by (auto simp: routes_inv_def)
next
  case (https t ds tx)
  then show ?thesis using assms(2,3) table_inv_add_routes routed_add_routes
    by (auto simp: routes_inv_def)
qed (use assms(2,3) in \<open>auto simp: routes_inv_def\<close>)

lemma register_proxy_inv [inv_intros]:
  assumes "manager_inv pm"
  shows "manager_inv (snd (register_proxy pf os run_id msg tx pm))"
proof (cases "register_proxy pf os run_id msg tx pm")
  case (Pair res pm')
  show ?thesis
  proof (cases res)
    case (Inl e)
    note same = register_proxy_Inl [OF Pair [unfolded Inl]]
    have "manager_inv (pm\<lparr>pm_ports := pm_ports pm'\<rparr>)"
      using assms same(2)
      by (simp add: manager_inv_def manager_inv_defs port_of_def used_ports_def)
    with same(1) Pair show ?thesis by simp
  next
    case (Inr a)
    from assms have inv: "dom (pm_records pm) = dom (pm_proxies pm)" "ports_inv pm" "members_inv pm"
        "routes_inv pm" "registry_inv pm"
      by (simp_all add: manager_inv_def)
    obtain p pm1 where g: "gained run_id (np_proxy_name msg) p pm pm1"
      and new: "pm_proxies pm (proxy_key run_id (np_proxy_name msg)) = None"
      and pm': "pm' = entered (proxy_key run_id (np_proxy_name msg)) p
        \<lparr>rec_run_id = run_id, rec_proxy_name = np_proxy_name msg, rec_proxy_type = np_proxy_type msg,
         rec_remote_addr = a\<rparr> pm1"
      using register_proxy_Inr [OF Pair [unfolded Inr] inv(3)] by blast
    have "pm_records pm1 = pm_records pm" "pm_proxies pm1 = pm_proxies pm"
      using g by (cases; simp)+
    with inv(1) have "dom (pm_records pm') = dom (pm_proxies pm')" by (simp add: pm')
    then show ?thesis
      unfolding Pair snd_conv manager_inv_def pm'
      using gained_ports_inv [OF g new inv(2)] gained_members_inv [OF g new inv(3)]
        gained_routes_inv [OF g new inv(4)] gained_registry_inv [OF g new inv(5)] by blast
  qed
qed

text \<open>\<open>order\<close> lists every domain of both routing tables.\<close>

definition covers :: "string list \<Rightarrow> proxy_manager \<Rightarrow> bool" where
  "covers order pm \<longleftrightarrow>
     dom (vm_http_routes (pm_vhost pm)) \<union> dom (vm_https_routes (pm_vhost pm)) \<subseteq> set order"

lemma proxy_close_maps [simp]:
  "pm_proxies (proxy_close order p pm) = pm_proxies pm"
  "pm_records (proxy_close order p pm) = pm_records pm"
  by (cases p; simp add: tcp_close_def Let_def split: option.split prod.split)+

lemma remove_key_maps [simp]:
  "pm_proxies (remove_key order key pm) = (pm_proxies pm)(key := None)"
  "dom (pm_records pm) = dom (pm_proxies pm) \<Longrightarrow>
   pm_records (remove_key order key pm) = (pm_records pm)(key := None)"
  by (cases "pm_proxies pm key"; auto simp: remove_key_def fun_upd_idem domIff)+

lemma remove_member:
  assumes inv: "members_inv pm" and p: "pm_proxies pm key = Some (PMember n g b)"
  obtains t where "pm_groups pm g = Some t" "key \<in> set (backend_ids t)"
    "remove_key order key pm =
      (let t' = t\<lparr>tg_backends := filter (\<lambda>v. gb_backend_id (bs_snapshot v) \<noteq> key) (tg_backends t)\<rparr> in
       pm\<lparr>pm_proxies := (pm_proxies pm)(key := None), pm_records := (pm_records pm)(key := None),
          pm_groups := (pm_groups pm)(g := if tg_backends t' = [] then None else Some t'),
          pm_ports := if tg_backends t' = [] then release_port (tg_remote_port t) (pm_ports pm) else pm_ports pm\<rparr>)"
proof -
  obtain t where t: "b = key" "pm_groups pm g = Some t" "key \<in> set (backend_ids t)"
    using members_invD(1) [OF inv p] by blast
  then show thesis
    by (intro that [of t]) (auto simp: remove_key_def p remove_backend_def Let_def)
qed

lemma used_release [simp]: "used_ports (release_port q rc) = used_ports rc - {q}"
  by (rule ports.used_release)

lemma remove_key_ports_inv:
  assumes inv: "ports_inv pm" "members_inv pm"
  shows "ports_inv (remove_key order key pm)"
proof (cases "\<exists>n g b. pm_proxies pm key = Some (PMember n g b)")
  case True
  then obtain n g b where p: "pm_proxies pm key = Some (PMember n g b)" by blast
  from remove_member [OF inv(2) p, of order] obtain t where t: "pm_groups pm g = Some t"
    and rm: "remove_key order key pm =
      (let t' = t\<lparr>tg_backends := filter (\<lambda>v. gb_backend_id (bs_snapshot v) \<noteq> key) (tg_backends t)\<rparr> in
       pm\<lparr>pm_proxies := (pm_proxies pm)(key := None), pm_records := (pm_records pm)(key := None),
          pm_groups := (pm_groups pm)(g := if tg_backends t' = [] then None else Some t'),
          pm_ports := if tg_backends t' = [] then release_port (tg_remote_port t) (pm_ports pm) else pm_ports pm\<rparr>)"
    by blast
  have "port_map (pm_proxies pm) (pm_groups pm) (Inl key) = None"
    "port_map (pm_proxies pm) (pm_groups pm) (Inr g) = Some (tg_remote_port t)" by (simp_all add: p t)
  with inv(1) show ?thesis
    by (simp add: rm Let_def ports_inv_def port_of_def inj_map_release ran_release fun_upd_idem t)
next
  case False
  let ?m = "port_map (pm_proxies pm) (pm_groups pm)"
  have m: "inj_map ?m" "ran ?m = used_ports (pm_ports pm)" using inv(1) by (simp_all add: ports_inv_def port_of_def)
  show ?thesis
  proof (cases "pm_proxies pm key")
    case None
    then show ?thesis using inv by (simp add: remove_key_def)
  next
    case (Some p)
    have "?m (Inl key) = held_port p" by (simp add: Some)
    with m Some False show ?thesis
      by (cases p) (auto simp: remove_key_def ports_inv_def port_of_def tcp_close_def Let_def
          inj_map_release ran_release split: option.splits)
  qed
qed

lemma remove_key_members_inv:
  assumes inv: "members_inv pm"
  shows "members_inv (remove_key order key pm)"
proof (cases "\<exists>n g b. pm_proxies pm key = Some (PMember n g b)")
  case True
  then obtain n g b where p: "pm_proxies pm key = Some (PMember n g b)" by blast
  obtain t where t: "pm_groups pm g = Some t"
    and rm: "pm_groups (remove_key order key pm) =
      (pm_groups pm)(g := if filter (\<lambda>v. gb_backend_id (bs_snapshot v) \<noteq> key) (tg_backends t) = [] then None
         else Some (t\<lparr>tg_backends := filter (\<lambda>v. gb_backend_id (bs_snapshot v) \<noteq> key) (tg_backends t)\<rparr>))"
    by (rule remove_member [OF inv p, of order]) (rule that, assumption, simp add: Let_def)
  have only: "key \<notin> set (backend_ids t')" if "pm_groups pm g' = Some t'" "g' \<noteq> g" for g' t'
    using members_invD(3) [OF inv that(1)] p that(2) by fastforce
  show ?thesis
  proof (rule members_invI, goal_cases)
    case (1 k n g' b)
    then have k: "k \<noteq> key" "pm_proxies pm k = Some (PMember n g' b)" by (auto split: if_splits)
    with members_invD(1) [OF inv k(2)] t show ?case
      by (auto simp: rm filter_empty_conv)
  next
    case (2 g' t')
    with members_invD(2) [OF inv, of g' t'] members_invD(2) [OF inv t] show ?case
      by (auto simp: rm group_inv_def distinct_map inj_on_def split: if_splits)
  next
    case (3 g' t' k)
    then show ?case
      using members_invD(3) [OF inv, of g' t' k] members_invD(3) [OF inv t, of k] only
      by (auto simp: rm split: if_splits)
  qed
next
  case False
  show ?thesis
  proof (rule members_inv_upd [OF inv])
    show "pm_groups (remove_key order key pm) = pm_groups pm"
    proof (cases "pm_proxies pm key")
      case (Some p)
      with False show ?thesis by (cases p) (auto simp: remove_key_def tcp_close_def Let_def split: option.splits)
    qed (simp add: remove_key_def)
  qed (use False in auto)
qed

lemma remove_key_registry_inv:
  assumes inv: "registry_inv pm"
  shows "registry_inv (remove_key order key pm)"
proof (cases "pm_proxies pm key")
  case None
  with inv show ?thesis by (simp add: remove_key_def)
next
  case (Some p)
  note D = registry_invD [OF inv]
  have regs: "pm_stcp (remove_key order key pm) = (case p of PStcp n \<Rightarrow> (pm_stcp pm)(n := None) | _ \<Rightarrow> pm_stcp pm)"
    "pm_xtcp (remove_key order key pm) = (case p of PXtcp n _ \<Rightarrow> (pm_xtcp pm)(n := None) | _ \<Rightarrow> pm_xtcp pm)"
    using Some by (cases p; auto simp: remove_key_def tcp_close_def Let_def split: option.splits prod.splits)+
  have s: "p = PStcp n" if "pm_stcp pm n = Some i" "proxy_key (si_run_id i) n = key" for n i
    using D(1) [OF that(1)] Some that by auto
  have x: "\<exists>r. p = PXtcp n r" if "pm_xtcp pm n = Some i" "proxy_key (xi_run_id i) n = key" for n i
    using D(3) [OF that(1)] Some that by auto
  show ?thesis unfolding registry_inv_def
  proof (intro conjI allI impI, goal_cases)
    case (1 n i)
    then have "pm_stcp pm n = Some i" "p \<noteq> PStcp n" by (auto simp: regs split: proxy.splits if_splits)
    then show ?case using D(1) s by auto
  next
    case (2 n k)
    then have k: "k \<noteq> key" "pm_proxies pm k = Some (PStcp n)" by (auto split: if_splits)
    from D(2) [OF k(2)] obtain i where i: "pm_stcp pm n = Some i" "k = proxy_key (si_run_id i) n" by blast
    then have "p \<noteq> PStcp n" using D(2) [of key n] Some k(1) by auto
    then have "pm_stcp (remove_key order key pm) n = pm_stcp pm n" by (auto simp: regs split: proxy.splits)
    with i show ?case by auto
  next
    case (3 n i)
    then have "pm_xtcp pm n = Some i" "\<nexists>r. p = PXtcp n r" by (auto simp: regs split: proxy.splits if_splits)
    then show ?case using D(3) [of n i] x [of n i] by auto
  qed
qed

lemma unregister_route_tables:
  "(vm_http_routes (unregister_route order k ''http'' vm), vm_http_rr (unregister_route order k ''http'' vm)) =
     remove_routes order k (vm_http_routes vm, vm_http_rr vm)"
  "(vm_https_routes (unregister_route order k ''http'' vm), vm_https_rr (unregister_route order k ''http'' vm)) =
     (vm_https_routes vm, vm_https_rr vm)"
  "(vm_https_routes (unregister_route order k ''https'' vm), vm_https_rr (unregister_route order k ''https'' vm)) =
     remove_routes order k (vm_https_routes vm, vm_https_rr vm)"
  "(vm_http_routes (unregister_route order k ''https'' vm), vm_http_rr (unregister_route order k ''https'' vm)) =
     (vm_http_routes vm, vm_http_rr vm)"
  by (simp_all add: unregister_route_def case_prod_unfold Let_def)

lemma remove_key_vhost:
  "pm_vhost (remove_key order key pm) =
     (case pm_proxies pm key of
        Some (PHttp k) \<Rightarrow> unregister_route order k ''http'' (pm_vhost pm)
      | Some (PHttps k) \<Rightarrow> unregister_route order k ''https'' (pm_vhost pm)
      | _ \<Rightarrow> pm_vhost pm)"
  by (auto simp: remove_key_def tcp_close_def Let_def split: option.splits proxy.splits prod.splits)

lemma routed_live:
  assumes "routes_inv pm"
  shows "routed (http_table pm) d k \<Longrightarrow> pm_proxies pm k = Some (PHttp k)"
    and "routed (https_table pm) d k \<Longrightarrow> pm_proxies pm k = Some (PHttps k)"
    and "pm_proxies pm k = Some (PHttp k') \<Longrightarrow> k' = k"
    and "pm_proxies pm k = Some (PHttps k') \<Longrightarrow> k' = k"
    and "table_inv (http_table pm)" "table_inv (https_table pm)"
  using assms unfolding routes_inv_def by blast+

lemma routed_remove_key:
  assumes inv: "routes_inv pm" and cov: "covers order pm"
  shows "routed (http_table (remove_key order key pm)) d k \<longleftrightarrow> routed (http_table pm) d k \<and> k \<noteq> key"
    and "routed (https_table (remove_key order key pm)) d k \<longleftrightarrow> routed (https_table pm) d k \<and> k \<noteq> key"
    and "table_inv (http_table (remove_key order key pm))"
    and "table_inv (https_table (remove_key order key pm))"
proof -
  note L = routed_live [OF inv]
  have doms: "dom (fst (http_table pm)) \<subseteq> set order" "dom (fst (https_table pm)) \<subseteq> set order"
    using cov by (simp_all add: covers_def)
  note rm = routed_remove_routes [OF L(5) doms(1)] routed_remove_routes [OF L(6) doms(2)]
    table_inv_remove_routes [OF L(5) doms(1)] table_inv_remove_routes [OF L(6) doms(2)]
  show "routed (http_table (remove_key order key pm)) d k \<longleftrightarrow> routed (http_table pm) d k \<and> k \<noteq> key"
    "routed (https_table (remove_key order key pm)) d k \<longleftrightarrow> routed (https_table pm) d k \<and> k \<noteq> key"
    "table_inv (http_table (remove_key order key pm))" "table_inv (https_table (remove_key order key pm))"
    using L(1-4) [of _ k] L(3,4) [of key] L(5,6) rm
    by (auto simp: remove_key_vhost unregister_route_tables split: option.splits proxy.splits)
qed

lemma remove_key_inv [inv_intros]:
  assumes inv: "manager_inv pm" and cov: "covers order pm"
  shows "manager_inv (remove_key order key pm)" and "covers order (remove_key order key pm)"
proof -
  have i: "dom (pm_records pm) = dom (pm_proxies pm)" "ports_inv pm" "members_inv pm"
    "routes_inv pm" "registry_inv pm" using inv by (simp_all add: manager_inv_def)
  note R = routed_remove_key [OF i(4) cov, where key = key]
  have "routes_inv (remove_key order key pm)"
    unfolding routes_inv_def using R routed_live [OF i(4)] by auto
  with i remove_key_ports_inv remove_key_members_inv remove_key_registry_inv
  show "manager_inv (remove_key order key pm)" by (simp add: manager_inv_def)
  show "covers order (remove_key order key pm)"
  proof -
    have "routes d \<noteq> None \<longleftrightarrow> (\<exists>k. routed (routes, rr) d k)" if "table_inv (routes, rr)" for routes rr d
      using that by (cases "routes d") (auto simp: table_inv_def routed_def neq_Nil_conv)
    with R routed_live [OF i(4)] cov show ?thesis
      by (simp add: covers_def dom_def) blast
  qed
qed

subsection \<open>Registration undone\<close>

lemma drop_key_add_routes: "drop_key k (fst (add_routes ds k p tx t) d) = drop_key k (fst t d)"
  unfolding add_routes_def
proof (induction ds arbitrary: t)
  case (Cons a ds)
  have "drop_key k (fst (add_route k p tx a t) d) = drop_key k (fst t d)"
    by (cases "fst t a") (auto simp: add_route_at drop_key_def Let_def)
  with Cons show ?case by simp
qed simp

lemma counter_add_routes: "snd t d \<noteq> None \<Longrightarrow> snd (add_routes ds k p tx t) d = snd t d"
  unfolding add_routes_def
proof (induction ds arbitrary: t)
  case (Cons a ds)
  have "snd (add_route k p tx a t) d = snd t d"
    using Cons.prems by (auto simp: add_route_def Let_def split: prod.splits option.splits)
  with Cons show ?case by simp
qed simp

lemma add_remove_routes:
  assumes inv: "table_inv t" and new: "\<And>d. \<not> routed t d k"
    and cov: "dom (fst (add_routes ds k p tx t)) \<subseteq> set order"
  shows "remove_routes order k (add_routes ds k p tx t) = t"
proof -
  have "drop_key k (fst t d) = fst t d" for d
    using new [of d] inv by (intro drop_key_other) (auto simp: routed_def table_inv_def)
  moreover have "fst t d = None \<longleftrightarrow> snd t d = None" for d
    using inv unfolding table_inv_def by (metis domIff)
  ultimately show ?thesis
    unfolding remove_routes_eq [OF table_inv_add_routes [OF inv] cov] drop_key_add_routes
    by (auto simp: prod_eq_iff fun_eq_iff counter_add_routes)
qed

text \<open>Equal but for the cursor of the port allocator and the flags of the virtual host listeners.\<close>

definition same_holdings :: "proxy_manager \<Rightarrow> proxy_manager \<Rightarrow> bool" where
  "same_holdings pm pm' \<longleftrightarrow>
     pm_proxies pm' = pm_proxies pm \<and> pm_records pm' = pm_records pm \<and> pm_groups pm' = pm_groups pm \<and>
     pm_xtcp pm' = pm_xtcp pm \<and> pm_stcp pm' = pm_stcp pm \<and>
     rc_tcp_ports (pm_ports pm') = rc_tcp_ports (pm_ports pm) \<and>
     http_table pm' = http_table pm \<and> https_table pm' = https_table pm"

lemma gained_lost:
  assumes g: "gained run_id name p pm pm1" and inv: "manager_inv pm"
    and new: "pm_proxies pm (proxy_key run_id name) = None"
    and cov: "covers order (entered (proxy_key run_id name) p r pm1)"
  shows "same_holdings pm (remove_key order (proxy_key run_id name) (entered (proxy_key run_id name) p r pm1))"
proof -
  let ?key = "proxy_key run_id name"
  have rnew: "pm_records pm ?key = None" and r: "routes_inv pm" and m: "members_inv pm"
    using inv new by (auto simp: manager_inv_def domIff)
  have nr: "\<not> routed (http_table pm) d ?key" "\<not> routed (https_table pm) d ?key" for d
    using routed_live(1,2) [OF r, of d ?key] new by auto
  note simps = same_holdings_def remove_key_def tcp_close_def remove_backend_def Let_def fun_upd_idem new rnew
  from g show ?thesis
  proof cases
    case (tcp tp rc)
    with took_release [OF tcp(3)] show ?thesis by (simp add: simps)
  next
    case (udp up rc)
    with took_release [OF udp(3)] show ?thesis by (simp add: simps)
  next
    case (new_group g t rc)
    then have "filter (\<lambda>v. gb_backend_id (bs_snapshot v) \<noteq> ?key) (tg_backends t) = []"
      by (auto simp: filter_empty_conv)
    with new_group took_release [OF new_group(4)] show ?thesis by (simp add: simps)
  next
    case (old_group g t b)
    then have "filter (\<lambda>v. gb_backend_id (bs_snapshot v) \<noteq> ?key) (tg_backends t @ [b]) = tg_backends t"
      by (auto simp: filter_id_conv) (metis image_eqI)
    with old_group members_invD(2) [OF m old_group(3)] show ?thesis by (simp add: simps)
  next
    case (http t ds tx)
    with cov add_remove_routes [OF routed_live(5) [OF r] nr(1), of ds name tx order] show ?thesis
      by (auto simp: simps unregister_route_tables covers_def)
  next
    case (https t ds tx)
    with cov add_remove_routes [OF routed_live(6) [OF r] nr(2), of ds name tx order] show ?thesis
      by (auto simp: simps unregister_route_tables covers_def)
  next
    case (xtcp_relay i tp rc)
    with took_release [OF xtcp_relay(5)] show ?thesis by (simp add: simps)
  qed (simp_all add: simps)
qed

subsection \<open>Reachable states\<close>

text \<open>
  One step of the manager: an operation of \<^verbatim>\<open>ProxyManager\<close>, or a public connection that moves the
  counters of a routing table or of a group.
\<close>

inductive manager_step :: "platform \<Rightarrow> proxy_manager \<Rightarrow> proxy_manager \<Rightarrow> bool" for pf where
  register: "manager_step pf pm (snd (register_proxy pf os run_id msg tx pm))"
| unregister: "covers order pm \<Longrightarrow> manager_step pf pm (unregister_proxy order run_id name pm)"
| evict: "covers order pm \<Longrightarrow> set keys = dom (pm_proxies pm) \<Longrightarrow>
    manager_step pf pm (snd (evict_proxy_by_name keys order name pm))"
| unregister_run: "covers order pm \<Longrightarrow> set keys = dom (pm_proxies pm) \<Longrightarrow>
    manager_step pf pm (unregister_run_proxies keys order run_id pm)"
| http_conn: "manager_step pf pm (pm\<lparr>pm_vhost := snd (handle_http_conn pf chunks fin pc (pm_vhost pm))\<rparr>)"
| https_conn: "manager_step pf pm (pm\<lparr>pm_vhost := snd (handle_https_conn pf stream pc (pm_vhost pm))\<rparr>)"
| group_conn: "pm_groups pm g = Some t \<Longrightarrow>
    manager_step pf pm (pm\<lparr>pm_groups := (pm_groups pm)(g \<mapsto> snd (handle_client now relay later t))\<rparr>)"
| listener_stopped: "vm \<in> {http_listener_stopped (pm_vhost pm), https_listener_stopped (pm_vhost pm)} \<Longrightarrow>
    manager_step pf pm (pm\<lparr>pm_vhost := vm\<rparr>)"

lemma pick_route_inv:
  "table_inv (r, c) \<Longrightarrow> pick_route d (r, c) = (x, c') \<Longrightarrow> table_inv (r, c')"
  using table_inv_pick_route [of "(r, c)" d] by simp

lemma conn_keeps:
  assumes "vm' = snd (handle_http_conn pf chunks fin pc vm) \<or> vm' = snd (handle_https_conn pf stream pc vm)"
  shows "vm_http_routes vm' = vm_http_routes vm" "vm_https_routes vm' = vm_https_routes vm"
    "table_inv (vm_http_routes vm, vm_http_rr vm) \<Longrightarrow> table_inv (vm_http_routes vm, vm_http_rr vm')"
    "table_inv (vm_https_routes vm, vm_https_rr vm) \<Longrightarrow> table_inv (vm_https_routes vm, vm_https_rr vm')"
  using assms
  by (auto simp: handle_http_conn_def handle_https_conn_def Let_def pick_route_inv
      split: sum.splits option.splits prod.splits)

lemma conn_inv:
  assumes inv: "manager_inv pm"
    and vm: "vm' = snd (handle_http_conn pf chunks fin pc (pm_vhost pm)) \<or>
      vm' = snd (handle_https_conn pf stream pc (pm_vhost pm))"
  shows "manager_inv (pm\<lparr>pm_vhost := vm'\<rparr>)"
proof -
  have "routed (http_table (pm\<lparr>pm_vhost := vm'\<rparr>)) = routed (http_table pm)"
    "routed (https_table (pm\<lparr>pm_vhost := vm'\<rparr>)) = routed (https_table pm)"
    using conn_keeps(1,2) [OF vm] by (simp_all add: routed_def fun_eq_iff)
  moreover have "table_inv (http_table (pm\<lparr>pm_vhost := vm'\<rparr>))" "table_inv (https_table (pm\<lparr>pm_vhost := vm'\<rparr>))"
    using inv conn_keeps [OF vm] by (simp_all add: manager_inv_def routes_inv_def)
  ultimately have "routes_inv (pm\<lparr>pm_vhost := vm'\<rparr>)"
    using inv unfolding manager_inv_def routes_inv_def by simp
  with inv show ?thesis
    by (simp add: manager_inv_def ports_inv_def port_of_def members_inv_def registry_inv_def)
qed

lemma group_conn_inv:
  assumes inv: "manager_inv pm" and t: "pm_groups pm g = Some t"
    and t': "backend_ids t' = backend_ids t" "tg_started t' = tg_started t" "tg_remote_port t' = tg_remote_port t"
  shows "manager_inv (pm\<lparr>pm_groups := (pm_groups pm)(g \<mapsto> t')\<rparr>)"
proof -
  have same: "set (backend_ids t') = set (backend_ids t)" "tg_backends t' = [] \<longleftrightarrow> tg_backends t = []"
    "group_inv t' = group_inv t"
    using t'(1) by (simp only:, metis map_is_Nil_conv, simp only: group_inv_def)
  have m: "members_inv pm" using inv by (simp add: manager_inv_def)
  have "members_inv (pm\<lparr>pm_groups := (pm_groups pm)(g \<mapsto> t')\<rparr>)"
  proof (rule members_invI, goal_cases)
    case (1 k n g' b)
    with members_invD(1) [OF m, of k n g' b] t same(1) show ?case by auto
  next
    case (2 g' t'')
    with members_invD(2) [OF m, of g' t''] members_invD(2) [OF m t] same t'(2) show ?case by (auto split: if_splits)
  next
    case (3 g' t'' k)
    with members_invD(3) [OF m, of g' t'' k] members_invD(3) [OF m t, of k] same(1) show ?case
      by (auto split: if_splits)
  qed
  moreover have "port_map (pm_proxies pm) ((pm_groups pm)(g \<mapsto> t')) = port_map (pm_proxies pm) (pm_groups pm)"
    by (simp add: t t'(3) fun_upd_idem)
  ultimately show ?thesis using inv
    by (simp add: manager_inv_def ports_inv_def port_of_def routes_inv_def registry_inv_def del: port_map_update)
qed

lemma handle_client_keeps [simp]:
  "tg_started (snd (handle_client now relay later t)) = tg_started t"
  "tg_remote_port (snd (handle_client now relay later t)) = tg_remote_port t"
  by (auto simp: handle_client_def pick_backend_def mark_backend_success_def mark_backend_failure_def Let_def
      split: prod.splits option.splits sum.splits if_splits)

lemma fold_remove_key:
  assumes "manager_inv pm" "covers order pm"
  shows "manager_inv (fold (remove_key order) keys pm)" (is ?inv)
    and "pm_proxies (fold (remove_key order) keys pm) = (\<lambda>k. if k \<in> set keys then None else pm_proxies pm k)" (is ?proxies)
proof -
  show ?inv using assms by (induction keys arbitrary: pm) (simp_all add: remove_key_inv)
  show ?proxies by (induction keys arbitrary: pm) (auto simp: fun_eq_iff)
qed

lemma listener_stopped_inv:
  "manager_inv pm \<Longrightarrow> vm \<in> {http_listener_stopped (pm_vhost pm), https_listener_stopped (pm_vhost pm)} \<Longrightarrow>
   manager_inv (pm\<lparr>pm_vhost := vm\<rparr>)"
  by (auto simp: manager_inv_def manager_inv_defs port_of_def http_listener_stopped_def https_listener_stopped_def)

lemma manager_step_inv: "manager_step pf pm pm' \<Longrightarrow> manager_inv pm \<Longrightarrow> manager_inv pm'"
proof (induction rule: manager_step.induct)
  case (register pm os run_id msg tx)
  then show ?case by (rule register_proxy_inv)
next
  case (unregister order pm run_id name)
  then show ?case by (simp add: unregister_proxy_def remove_key_inv)
next
  case (evict order pm keys name)
  have "manager_inv (pm'\<lparr>pm_xtcp := (pm_xtcp pm')(name := None)\<rparr>)" if "manager_inv pm'" for pm'
    using that by (auto simp: manager_inv_def manager_inv_defs port_of_def)
  with evict show ?case by (auto simp: evict_proxy_by_name_def Let_def remove_key_inv split: option.splits)
next
  case (unregister_run order pm keys run_id)
  then show ?case by (simp add: unregister_run_proxies_def fold_remove_key)
next
  case (http_conn pm chunks fin pc)
  then show ?case by (blast intro: conn_inv)
next
  case (https_conn pm stream pc)
  then show ?case by (blast intro: conn_inv)
next
  case (group_conn pm g t now relay later)
  then show ?case by (intro group_conn_inv) simp_all
next
  case (listener_stopped vm pm)
  then show ?case by (blast intro: listener_stopped_inv)
qed

lemma manager_new_inv [inv_intros]:
  "rc_tcp_ports rc = Map.empty \<Longrightarrow> manager_inv (manager_new pf bind sub hp hsp rc)"
proof -
  assume "rc_tcp_ports rc = Map.empty"
  moreover have "port_map Map.empty Map.empty = Map.empty" by (rule ext, rename_tac h, case_tac h) simp_all
  ultimately show ?thesis
    by (simp add: manager_new_def manager_inv_def manager_inv_defs port_of_def used_ports_def vhost_new_def
        table_inv_empty routed_def)
qed

text \<open>The states a server gets to, from the start with an empty table of ports.\<close>

definition manager_reachable :: "platform \<Rightarrow> proxy_manager \<Rightarrow> bool" where
  "manager_reachable pf pm \<longleftrightarrow>
     (\<exists>bind sub hp hsp config. (manager_step pf)\<^sup>*\<^sup>* (manager_new pf bind sub hp hsp (resource_new config)) pm)"

lemma manager_reachable_inv: "manager_reachable pf pm \<Longrightarrow> manager_inv pm"
proof -
  assume "manager_reachable pf pm"
  then obtain bind sub hp hsp config
    where "(manager_step pf)\<^sup>*\<^sup>* (manager_new pf bind sub hp hsp (resource_new config)) pm"
    unfolding manager_reachable_def by blast
  then show ?thesis
  proof (induction rule: rtranclp_induct)
    case base
    show ?case by (rule manager_new_inv) (simp add: resource_new_def)
  next
    case (step y z)
    then show ?case by (blast intro: manager_step_inv)
  qed
qed

lemma reachable_start: "manager_reachable pf (manager_new pf bind sub hp hsp (resource_new config))"
  unfolding manager_reachable_def by blast

lemma reachable_step: "manager_reachable pf pm \<Longrightarrow> manager_step pf pm pm' \<Longrightarrow> manager_reachable pf pm'"
  unfolding manager_reachable_def by (meson rtranclp.rtrancl_into_rtrancl)

lemma remove_key_groups:
  "pm_groups (remove_key order key pm) g = Some t' \<Longrightarrow>
   \<exists>t. pm_groups pm g = Some t \<and> tg_remote_port t = tg_remote_port t'"
  by (cases "pm_proxies pm key"; simp add: remove_key_def; rename_tac p, case_tac p)
    (auto simp: remove_backend_def tcp_close_def Let_def split: option.splits if_splits)

lemma fold_remove_groups:
  "pm_groups (fold (remove_key order) keys pm) g = Some t' \<Longrightarrow>
   \<exists>t. pm_groups pm g = Some t \<and> tg_remote_port t = tg_remote_port t'"
proof (induction keys arbitrary: pm)
  case (Cons k keys)
  then obtain t where "pm_groups (remove_key order k pm) g = Some t" "tg_remote_port t = tg_remote_port t'"
    by auto
  with remove_key_groups [of order k pm g t] show ?case by auto
qed simp

text \<open>What is still held after some keys were removed was held by the same holder before.\<close>

lemma fold_remove_ports:
  assumes "port_of (fold (remove_key order) keys pm) h = Some q"
    and "manager_inv pm" "covers order pm"
  shows "port_of pm h = Some q \<and> h \<notin> Inl ` set keys"
proof (cases h)
  case (Inl k)
  with assms show ?thesis by (auto simp: port_of_def fold_remove_key(2) bind_eq_Some_conv split: if_splits)
next
  case (Inr g)
  with assms show ?thesis by (auto simp: port_of_def dest: fold_remove_groups)
qed

subsection \<open>Properties\<close>

definition demo_os :: os where
  "demo_os = \<lparr>os_tcp_bind = (\<lambda>p. if p = 18081 then Some \<lparr>io_kind = OtherKind, io_os = Some 98, io_msg = ''Address in use''\<rparr> else None), os_udp_bind = (\<lambda>p. None)\<rparr>"

definition demo_msg :: "string \<Rightarrow> string \<Rightarrow> u16 \<Rightarrow> new_proxy_msg" where
  "demo_msg name ty port =
     \<lparr>np_proxy_name = name, np_proxy_type = ty, np_use_encryption = False,
      np_use_compression = False, np_local_ip = ''127.0.0.1'', np_local_port = 80,
      np_remote_port = port, np_custom_domains = [], np_subdomain = [], np_locations = [],
      np_host_header_rewrite = [], np_sk = [], np_multiplexer = [], np_fallback_to_relay = True,
      np_extra = JNull\<rparr>"

definition demo_manager :: proxy_manager where
  "demo_manager = manager_new demo_platform ''0.0.0.0'' [] 0 0 (resource_new demo_server_config)"

definition demo_registered :: "string \<Rightarrow> u16 \<Rightarrow> proxy_manager" where
  "demo_registered ty port = snd (register_proxy demo_platform demo_os ''r1'' (demo_msg ''web'' ty port) 0 demo_manager)"

lemma demo_registered_reachable: "manager_reachable demo_platform (demo_registered ty port)"
  unfolding demo_registered_def
  by (rule reachable_step [OF _ manager_step.register]) (simp add: demo_manager_def reachable_start)

lemmas demo_eval = demo_manager_def manager_new_def vhost_new_def resource_new_def demo_server_config_def
  demo_os_def demo_msg_def register_proxy_def register_tcp_def register_udp_def tcp_proxy_new_def udp_proxy_new_def
  parse_lb_group_def allocate_port_def allocate_tcp_port_def is_port_allowed_def release_tcp_port_def
  proxy_key_def Let_def

text \<open>
  C2: In every state the server gets to by registrations, removals, evictions and public connections,
  each used public port has exactly one holder, a proxy or a load-balancing group, and the table of
  the port allocator is exactly the set of the ports held: no port leaks and none is given out twice.
\<close>

theorem manager_ports_exact:
  assumes "manager_reachable pf pm"
  shows "inj_map (port_of pm) \<and> ran (port_of pm) = used_ports (pm_ports pm)"
  using manager_reachable_inv [OF assms] by (simp add: manager_inv_def ports_inv_def)

theorem manager_ports_exact_witness:
  "port_of (demo_registered ''tcp'' 18080) (Inl ''r1:web'') = Some 18080 \<and>
   inj_map (port_of (demo_registered ''tcp'' 18080)) \<and>
   18080 \<in> used_ports (pm_ports (demo_registered ''tcp'' 18080))"
proof -
  have "port_of (demo_registered ''tcp'' 18080) (Inl ''r1:web'') = Some 18080"
    by (simp add: port_of_def demo_registered_def demo_eval)
  with manager_ports_exact [OF demo_registered_reachable [of "''tcp''" 18080]] show ?thesis
    by (auto simp: ran_def)
qed

text \<open>
  C9: In every reachable state nothing points to a proxy that is gone: every route of the HTTP and TLS
  tables belongs to a registered proxy of that kind, every load-balancing group has backends and each
  is a registered member of that group, every entry of the registries for visitors names a
  registered proxy, and the records shown to operators are those of the registered proxies.
\<close>

theorem manager_no_dangling:
  assumes "manager_reachable pf pm"
  shows "(\<forall>d k. routed (http_table pm) d k \<longrightarrow> pm_proxies pm k = Some (PHttp k)) \<and>
    (\<forall>d k. routed (https_table pm) d k \<longrightarrow> pm_proxies pm k = Some (PHttps k)) \<and>
    (\<forall>g t. pm_groups pm g = Some t \<longrightarrow> tg_backends t \<noteq> [] \<and>
       (\<forall>k \<in> set (backend_ids t). \<exists>n. pm_proxies pm k = Some (PMember n g k))) \<and>
    (\<forall>n i. get_stcp_info n pm = Some i \<longrightarrow> pm_proxies pm (proxy_key (si_run_id i) n) = Some (PStcp n)) \<and>
    (\<forall>n i. get_xtcp_owner n pm = Some i \<longrightarrow>
       (\<exists>r. pm_proxies pm (proxy_key (xi_run_id i) n) = Some (PXtcp n r))) \<and>
    dom (pm_records pm) = dom (pm_proxies pm)"
proof -
  have i: "members_inv pm" "routes_inv pm" "registry_inv pm" "dom (pm_records pm) = dom (pm_proxies pm)"
    using manager_reachable_inv [OF assms] by (simp_all add: manager_inv_def)
  show ?thesis
    using members_invD(2,3) [OF i(1)] routed_live(1,2) [OF i(2)] registry_invD(1,3) [OF i(3)] i(4)
    by (simp add: get_stcp_info_def get_xtcp_owner_def)
qed

theorem manager_no_dangling_witness:
  "dom (pm_records (demo_registered ''udp'' 18080)) = dom (pm_proxies (demo_registered ''udp'' 18080))
   \<and> dom (pm_proxies (demo_registered ''udp'' 18080)) = {''r1:web''}"
proof -
  have "dom (pm_proxies (demo_registered ''udp'' 18080)) = {''r1:web''}"
    by (simp add: demo_registered_def demo_eval)
  with manager_no_dangling [OF demo_registered_reachable [of "''udp''" 18080]] show ?thesis by simp
qed

text \<open>
  C8: A registration that is refused, for whatever reason, leaves every table as it was: the proxies,
  the records, the groups, the registries, the routes and the ports in use, also when the port was
  already allocated and binding the socket failed afterwards.
\<close>

theorem register_error_unchanged:
  assumes "register_proxy pf os run_id msg tx pm = (Inl e, pm')"
  shows "same_holdings pm pm' \<and> pm_vhost pm' = pm_vhost pm"
proof -
  from register_proxy_Inl(1) [OF assms] obtain rc where "pm' = pm\<lparr>pm_ports := rc\<rparr>" by blast
  with register_proxy_Inl(2) [OF assms] show ?thesis by (simp add: same_holdings_def)
qed

theorem register_error_unchanged_witness:
  "\<exists>e pm'. register_proxy demo_platform demo_os ''r1'' (demo_msg ''web'' ''tcp'' 18081) 0 demo_manager = (Inl (Io e), pm')
     \<and> same_holdings demo_manager pm'"
proof -
  obtain e pm' where r: "register_proxy demo_platform demo_os ''r1'' (demo_msg ''web'' ''tcp'' 18081) 0 demo_manager
      = (Inl (Io e), pm')"
    by (simp add: demo_eval)
  with register_error_unchanged [OF r] show ?thesis by blast
qed

text \<open>
  C4: Registering a proxy and removing it again restores every table: ports, groups, routes with their
  round-robin counters, registries, proxies and records are those of before, whatever the type of
  the proxy and whether or not the group or the domains it joined existed already.
\<close>

theorem register_unregister:
  assumes "manager_reachable pf pm"
    and "register_proxy pf os run_id msg tx pm = (Inr a, pm')"
    and "covers order pm'"
  shows "same_holdings pm (unregister_proxy order run_id (np_proxy_name msg) pm')"
proof -
  note inv = manager_reachable_inv [OF assms(1)]
  then have m: "members_inv pm" by (simp add: manager_inv_def)
  show ?thesis
    by (rule register_proxy_Inr [OF assms(2) m])
      (use assms(3) gained_lost [OF _ inv] in \<open>simp add: unregister_proxy_def\<close>)
qed

theorem register_unregister_witness:
  "same_holdings demo_manager (unregister_proxy [] ''r1'' ''web'' (demo_registered ''udp'' 18080))"
proof -
  obtain a pm' where r: "register_proxy demo_platform demo_os ''r1'' (demo_msg ''web'' ''udp'' 18080) 0 demo_manager
      = (Inr a, pm')"
    by (simp add: demo_eval)
  have "covers [] (demo_registered ''udp'' 18080)"
    by (simp add: demo_registered_def demo_eval covers_def)
  with register_unregister [OF _ r, of "[]"] r show ?thesis
    by (simp add: demo_registered_def demo_manager_def reachable_start demo_msg_def)
qed

text \<open>
  When a client goes away, all its proxies go: afterwards no proxy key starts with the run id and a
  colon, all other proxies are as before, none of the ports the removed proxies held is in use, and
  no route of either virtual host table leads to a removed proxy.
\<close>

theorem unregister_run_releases:
  assumes "manager_reachable pf pm" and "covers order pm" and "set keys = dom (pm_proxies pm)"
    and "pm' = unregister_run_proxies keys order run_id pm"
  shows "pm_proxies pm' = (\<lambda>k. if starts_with k (run_id @ '':'') then None else pm_proxies pm k) \<and>
    (\<forall>k q. starts_with k (run_id @ '':'') \<and> port_of pm (Inl k) = Some q \<longrightarrow> q \<notin> used_ports (pm_ports pm')) \<and>
    (\<forall>d k. routed (http_table pm') d k \<or> routed (https_table pm') d k \<longrightarrow> \<not> starts_with k (run_id @ '':''))"
    (is "?proxies \<and> ?ports \<and> ?routes")
proof -
  let ?ks = "filter (\<lambda>k. starts_with k (run_id @ '':'')) keys"
  note inv = manager_reachable_inv [OF assms(1)]
  have pm': "pm' = fold (remove_key order) ?ks pm" by (simp add: assms(4) unregister_run_proxies_def)
  note F = fold_remove_key [OF inv assms(2), of ?ks, folded pm']
  have ks: "set ?ks = {k \<in> dom (pm_proxies pm). starts_with k (run_id @ '':'')}" using assms(3) by auto
  have P: ?proxies unfolding F(2) ks by (auto simp: fun_eq_iff)
  have "routes_inv pm'" using F(1) by (simp add: manager_inv_def)
  from routed_live(1,2) [OF this] P have R: ?routes by (auto simp: fun_eq_iff) (metis option.discI)+
  have inj: "inj_map (port_of pm)" and used: "ran (port_of pm') = used_ports (pm_ports pm')"
    using inv F(1) by (simp_all add: manager_inv_def ports_inv_def)
  have ?ports
  proof (intro allI impI notI, elim conjE)
    fix k q assume k: "starts_with k (run_id @ '':'')" "port_of pm (Inl k) = Some q"
      and "q \<in> used_ports (pm_ports pm')"
    then obtain h where h: "port_of pm' h = Some q" using used by (auto simp: ran_def)
    from fold_remove_ports [OF h [unfolded pm'] inv assms(2)] k(2) inj
    have "h = Inl k" "k \<notin> set ?ks" by (auto dest: inj_mapD)
    with k ks show False by (auto simp: port_of_def bind_eq_Some_conv)
  qed
  with P R show ?thesis by blast
qed

theorem unregister_run_releases_witness:
  "18080 \<notin> used_ports (pm_ports (unregister_run_proxies [''r1:web''] [] ''r1'' (demo_registered ''tcp'' 18080)))"
proof -
  have c: "covers [] (demo_registered ''tcp'' 18080)"
    and d: "set [''r1:web''] = dom (pm_proxies (demo_registered ''tcp'' 18080))"
    and p: "port_of (demo_registered ''tcp'' 18080) (Inl ''r1:web'') = Some 18080"
    by (simp_all add: port_of_def demo_registered_def demo_eval covers_def)
  have "starts_with ''r1:web'' (''r1'' @ '':'')" by (simp add: starts_with_def)
  with unregister_run_releases [OF demo_registered_reachable c d refl, of "''r1''"] p show ?thesis by blast
qed

end
