(* ===== verification/Metrics.thy ===== *)
theory Metrics
  imports Prelude
begin

text \<open>
  The counters of \<^verbatim>\<open>arp-server/src/metrics.rs\<close>, which wrap at 64 bits, the counters kept for each proxy,
  and the audit events of \<^verbatim>\<open>arp-server/src/audit.rs\<close>. The two process-wide statics are the records
  \<open>metrics\<close> and the map of \<open>proxy_metrics\<close>; the audit log is the list of the events emitted, the latest
  last.
\<close>

record metrics =
  mt_incoming_connections_total :: u64
  mt_work_connections_total :: u64
  mt_tcp_proxy_connections_total :: u64
  mt_tcp_proxy_errors_total :: u64
  mt_tcp_mux_streams_opened_total :: u64
  mt_tcp_bytes_in_total :: u64
  mt_tcp_bytes_out_total :: u64
  mt_auth_failures_total :: u64
  mt_proxy_registrations_total :: u64
  mt_proxy_registration_failures_total :: u64
  mt_req_work_conn_total :: u64
  mt_idle_work_conn_hits_total :: u64
  mt_xtcp_visitor_requests_total :: u64
  mt_xtcp_sk_mismatch_total :: u64
  mt_xtcp_owner_not_found_total :: u64
  mt_xtcp_owner_offline_total :: u64
  mt_xtcp_owner_requests_forwarded_total :: u64
  mt_xtcp_responses_forwarded_total :: u64

definition metrics_new :: metrics where
  "metrics_new =
     \<lparr>mt_incoming_connections_total = 0, mt_work_connections_total = 0,
      mt_tcp_proxy_connections_total = 0, mt_tcp_proxy_errors_total = 0,
      mt_tcp_mux_streams_opened_total = 0, mt_tcp_bytes_in_total = 0,
      mt_tcp_bytes_out_total = 0, mt_auth_failures_total = 0,
      mt_proxy_registrations_total = 0, mt_proxy_registration_failures_total = 0,
      mt_req_work_conn_total = 0, mt_idle_work_conn_hits_total = 0,
      mt_xtcp_visitor_requests_total = 0, mt_xtcp_sk_mismatch_total = 0,
      mt_xtcp_owner_not_found_total = 0, mt_xtcp_owner_offline_total = 0,
      mt_xtcp_owner_requests_forwarded_total = 0, mt_xtcp_responses_forwarded_total = 0\<rparr>"

definition inc_incoming_connections :: "metrics \<Rightarrow> metrics" where
  "inc_incoming_connections mt = mt\<lparr>mt_incoming_connections_total := mt_incoming_connections_total mt + 1\<rparr>"

definition inc_work_connections :: "metrics \<Rightarrow> metrics" where
  "inc_work_connections mt = mt\<lparr>mt_work_connections_total := mt_work_connections_total mt + 1\<rparr>"

definition inc_tcp_proxy_connections :: "metrics \<Rightarrow> metrics" where
  "inc_tcp_proxy_connections mt = mt\<lparr>mt_tcp_proxy_connections_total := mt_tcp_proxy_connections_total mt + 1\<rparr>"

definition inc_tcp_proxy_errors :: "metrics \<Rightarrow> metrics" where
  "inc_tcp_proxy_errors mt = mt\<lparr>mt_tcp_proxy_errors_total := mt_tcp_proxy_errors_total mt + 1\<rparr>"

definition inc_tcp_mux_streams :: "metrics \<Rightarrow> metrics" where
  "inc_tcp_mux_streams mt = mt\<lparr>mt_tcp_mux_streams_opened_total := mt_tcp_mux_streams_opened_total mt + 1\<rparr>"

definition add_tcp_bytes_in :: "u64 \<Rightarrow> metrics \<Rightarrow> metrics" where
  "add_tcp_bytes_in v mt = mt\<lparr>mt_tcp_bytes_in_total := mt_tcp_bytes_in_total mt + v\<rparr>"

definition add_tcp_bytes_out :: "u64 \<Rightarrow> metrics \<Rightarrow> metrics" where
  "add_tcp_bytes_out v mt = mt\<lparr>mt_tcp_bytes_out_total := mt_tcp_bytes_out_total mt + v\<rparr>"

definition inc_auth_failures :: "metrics \<Rightarrow> metrics" where
  "inc_auth_failures mt = mt\<lparr>mt_auth_failures_total := mt_auth_failures_total mt + 1\<rparr>"

definition inc_proxy_registrations :: "metrics \<Rightarrow> metrics" where
  "inc_proxy_registrations mt = mt\<lparr>mt_proxy_registrations_total := mt_proxy_registrations_total mt + 1\<rparr>"

definition inc_proxy_registration_failures :: "metrics \<Rightarrow> metrics" where
  "inc_proxy_registration_failures mt = mt\<lparr>mt_proxy_registration_failures_total := mt_proxy_registration_failures_total mt + 1\<rparr>"

definition inc_req_work_conn :: "metrics \<Rightarrow> metrics" where
  "inc_req_work_conn mt = mt\<lparr>mt_req_work_conn_total := mt_req_work_conn_total mt + 1\<rparr>"

definition inc_idle_work_conn_hits :: "metrics \<Rightarrow> metrics" where
  "inc_idle_work_conn_hits mt = mt\<lparr>mt_idle_work_conn_hits_total := mt_idle_work_conn_hits_total mt + 1\<rparr>"

definition inc_xtcp_visitor_requests :: "metrics \<Rightarrow> metrics" where
  "inc_xtcp_visitor_requests mt = mt\<lparr>mt_xtcp_visitor_requests_total := mt_xtcp_visitor_requests_total mt + 1\<rparr>"

definition inc_xtcp_sk_mismatch :: "metrics \<Rightarrow> metrics" where
  "inc_xtcp_sk_mismatch mt = mt\<lparr>mt_xtcp_sk_mismatch_total := mt_xtcp_sk_mismatch_total mt + 1\<rparr>"

definition inc_xtcp_owner_not_found :: "metrics \<Rightarrow> metrics" where
  "inc_xtcp_owner_not_found mt = mt\<lparr>mt_xtcp_owner_not_found_total := mt_xtcp_owner_not_found_total mt + 1\<rparr>"

definition inc_xtcp_owner_offline :: "metrics \<Rightarrow> metrics" where
  "inc_xtcp_owner_offline mt = mt\<lparr>mt_xtcp_owner_offline_total := mt_xtcp_owner_offline_total mt + 1\<rparr>"

definition inc_xtcp_owner_requests_forwarded :: "metrics \<Rightarrow> metrics" where
  "inc_xtcp_owner_requests_forwarded mt = mt\<lparr>mt_xtcp_owner_requests_forwarded_total := mt_xtcp_owner_requests_forwarded_total mt + 1\<rparr>"

definition inc_xtcp_responses_forwarded :: "metrics \<Rightarrow> metrics" where
  "inc_xtcp_responses_forwarded mt = mt\<lparr>mt_xtcp_responses_forwarded_total := mt_xtcp_responses_forwarded_total mt + 1\<rparr>"

subsection \<open>Counters of one proxy\<close>

record proxy_metrics =
  pmt_bytes_in :: u64
  pmt_bytes_out :: u64
  pmt_connections_total :: u64
  pmt_connections_active :: i64
  pmt_errors :: u64

type_synonym proxy_metrics_map = "string \<rightharpoonup> proxy_metrics"

definition proxy_metrics_new :: proxy_metrics where
  "proxy_metrics_new =
     \<lparr>pmt_bytes_in = 0, pmt_bytes_out = 0, pmt_connections_total = 0, pmt_connections_active = 0, pmt_errors = 0\<rparr>"

text \<open>
  The shared counters of a proxy are updated in place: \<open>with_proxy_metrics name f\<close> is
  \<^verbatim>\<open>get_or_create_proxy_metrics(name)\<close> followed by the update \<open>f\<close>.
\<close>

definition get_or_create_proxy_metrics :: "string \<Rightarrow> proxy_metrics_map \<Rightarrow> proxy_metrics \<times> proxy_metrics_map" where
  "get_or_create_proxy_metrics proxy_name m =
     (case m proxy_name of
        Some x \<Rightarrow> (x, m)
      | None \<Rightarrow> (proxy_metrics_new, m(proxy_name \<mapsto> proxy_metrics_new)))"

definition with_proxy_metrics :: "string \<Rightarrow> (proxy_metrics \<Rightarrow> proxy_metrics) \<Rightarrow> proxy_metrics_map \<Rightarrow> proxy_metrics_map" where
  "with_proxy_metrics proxy_name f m =
     (let (x, m) = get_or_create_proxy_metrics proxy_name m in m(proxy_name \<mapsto> f x))"

definition remove_proxy_metrics :: "string \<Rightarrow> proxy_metrics_map \<Rightarrow> proxy_metrics_map" where
  "remove_proxy_metrics proxy_name m = m(proxy_name := None)"

definition list_proxy_metrics :: "string list \<Rightarrow> proxy_metrics_map \<Rightarrow> (string \<times> proxy_metrics) list" where
  "list_proxy_metrics order m = List.map_filter (\<lambda>k. map_option (Pair k) (m k)) order"

subsection \<open>Audit events\<close>

datatype audit_event =
    ClientLogin string string string
  | ClientLoginFailed string string
  | ClientDisconnect string string
  | ProxyRegistered string string string string string
  | ProxyRejected string string string string
  | ProxyClosed string string
  | WorkConnAuthFailed string string

definition emit :: "audit_event \<Rightarrow> audit_event list \<Rightarrow> audit_event list" where
  "emit event log = log @ [event]"

end
