(* ===== verification/Sessions.thy ===== *)
theory Sessions
  imports Authentication Proxies Metrics "HOL-Library.Multiset"
begin

text \<open>
  The sessions of the server, \<^verbatim>\<open>Control\<close> and \<^verbatim>\<open>ControlManager\<close> of \<^verbatim>\<open>arp-server/src/control/mod.rs\<close>: the
  identity of a client, the queue that matches requests for a work connection with the connections
  the client opens, and the table of the sessions. The \<^verbatim>\<open>mpsc\<close> queues of the program deliver events to
  a session; what the program puts on a connection, on the outbound queue of a session, or hands to
  a waiting proxy is an \<open>effect\<close> of a handler. Whether a write succeeds (\<open>send\<close>) and whether the proxy
  that asked still waits (\<open>waits\<close>) are arguments.
\<close>

subsection \<open>A session\<close>

record control =
  ct_run_id :: string
  ct_client_id :: string
  ct_peer_addr :: string
  ct_privilege_key :: string
  ct_pool_count :: u32
  ct_hostname :: string
  ct_os :: string
  ct_arch :: string
  ct_user :: string
  ct_work_conn_req_tx :: chan
  ct_pending :: "work_conn_request list"
  ct_idle :: "conn list"
  ct_heartbeat_timeout :: u64
  ct_cancelled :: bool

definition control_new ::
  "string \<Rightarrow> string \<Rightarrow> string \<Rightarrow> string \<Rightarrow> u32 \<Rightarrow> string \<Rightarrow> string \<Rightarrow> string \<Rightarrow> string \<Rightarrow> chan \<Rightarrow> u64 \<Rightarrow> control" where
  "control_new run_id client_id peer_addr privilege_key pool_count hostname os arch user tx heartbeat_timeout =
     \<lparr>ct_run_id = run_id, ct_client_id = client_id, ct_peer_addr = peer_addr,
      ct_privilege_key = privilege_key, ct_pool_count = pool_count, ct_hostname = hostname,
      ct_os = os, ct_arch = arch, ct_user = user, ct_work_conn_req_tx = tx,
      ct_pending = [], ct_idle = [], ct_heartbeat_timeout = heartbeat_timeout, ct_cancelled = False\<rparr>"

definition control_shutdown :: "control \<Rightarrow> control" where
  "control_shutdown c = c\<lparr>ct_cancelled := True\<rparr>"

definition idle_work_conn_count :: "control \<Rightarrow> nat" where
  "idle_work_conn_count c = length (ct_idle c)"

definition pending_work_conn_count :: "control \<Rightarrow> nat" where
  "pending_work_conn_count c = length (ct_pending c)"

text \<open>
  What a handler does outside: a message on the session's connection, a message put on the outbound
  queue of another session, a work connection handed to the proxy that asked, or one handed to a
  proxy that does not wait any more, which closes it.
\<close>

datatype effect = Sent message | Posted string message | Delivered nat conn | Dropped nat conn

definition hand_over :: "(nat \<Rightarrow> bool) \<Rightarrow> work_conn_request \<Rightarrow> conn \<Rightarrow> effect" where
  "hand_over waits req c =
     (if waits (wq_reply_tx req) then Delivered (wq_reply_tx req) c else Dropped (wq_reply_tx req) c)"

definition handle_work_conn_request ::
  "(nat \<Rightarrow> bool) \<Rightarrow> (message \<Rightarrow> unit result) \<Rightarrow> work_conn_request \<Rightarrow> control \<Rightarrow> metrics \<Rightarrow>
   (unit result \<times> effect list) \<times> control \<times> metrics" where
  "handle_work_conn_request waits send req c mt =
     (let mt = inc_req_work_conn mt in
      if ct_idle c \<noteq> [] then
        let idle_conn = last (ct_idle c);
            c = c\<lparr>ct_idle := butlast (ct_idle c)\<rparr>;
            mt = inc_idle_work_conn_hits mt
        in ((if waits (wq_reply_tx req) then Inr ()
             else Inl (Transport ''failed to send idle work connection''),
             [hand_over waits req idle_conn]), c, mt)
      else
        let c = c\<lparr>ct_pending := ct_pending c @ [req]\<rparr>;
            msg = ReqWorkConn \<lparr>rq_proxy_name = wq_proxy_name req\<rparr>
        in (case send msg of
              Inl e \<Rightarrow> ((Inl e, [Sent msg]), c\<lparr>ct_pending := butlast (ct_pending c)\<rparr>, mt)
            | Inr _ \<Rightarrow> ((Inr (), [Sent msg]), c, mt)))"

definition handle_work_conn ::
  "(nat \<Rightarrow> bool) \<Rightarrow> conn \<Rightarrow> control \<Rightarrow> (unit result \<times> effect list) \<times> control" where
  "handle_work_conn waits transport c =
     (case ct_pending c of
        [] \<Rightarrow> ((Inr (), []), c\<lparr>ct_idle := ct_idle c @ [transport]\<rparr>)
      | req # pending \<Rightarrow>
          ((if waits (wq_reply_tx req) then Inr ()
            else Inl (Transport ''Failed to send work connection to proxy''),
            [hand_over waits req transport]), c\<lparr>ct_pending := pending\<rparr>))"

subsection \<open>The server\<close>

record pending_visitor =
  pv_visitor_run_id :: string
  pv_proxy_name :: string
  pv_relay_addr :: string

record xtcp_event =
  xe_stage :: string
  xe_proxy_name :: string
  xe_visitor_run_id :: string
  xe_owner_run_id :: string
  xe_visitor_addr :: string
  xe_client_addr :: string
  xe_relay_addr :: string
  xe_error :: string

text \<open>
  The state the parts of the server share. A session lives in \<open>sr_sessions\<close> from login to the end of its
  task; \<open>sr_controls\<close> are the keys of the table of \<^verbatim>\<open>ControlManager\<close>, whose entry for a key is the session
  of that run id. A session that was shut down is out of the table but still runs until its task
  notices.
\<close>

record server =
  sr_config :: server_config
  sr_auth :: token_auth
  sr_sessions :: "string \<rightharpoonup> control"
  sr_controls :: "string set"
  sr_pm :: proxy_manager
  sr_pending :: "string \<rightharpoonup> pending_visitor"
  sr_events :: "xtcp_event list"
  sr_metrics :: metrics
  sr_audit :: "audit_event list"

record proxy_owner =
  po_run_id :: string
  po_client_id :: string

record control_record =
  cr_run_id :: string
  cr_client_id :: string
  cr_peer_addr :: string
  cr_hostname :: string
  cr_os :: string
  cr_arch :: string
  cr_user :: string
  cr_pool_count :: u32

definition controls_add :: "string \<Rightarrow> control \<Rightarrow> server \<Rightarrow> server" where
  "controls_add run_id c sr =
     sr\<lparr>sr_sessions := (sr_sessions sr)(run_id \<mapsto> c), sr_controls := insert run_id (sr_controls sr)\<rparr>"

definition controls_get :: "string \<Rightarrow> server \<Rightarrow> control option" where
  "controls_get run_id sr = (if run_id \<in> sr_controls sr then sr_sessions sr run_id else None)"

definition controls_remove :: "string \<Rightarrow> server \<Rightarrow> server" where
  "controls_remove run_id sr = sr\<lparr>sr_controls := sr_controls sr - {run_id}\<rparr>"

definition shutdown_run :: "string \<Rightarrow> server \<Rightarrow> server" where
  "shutdown_run run_id sr =
     (case controls_get run_id sr of
        None \<Rightarrow> sr
      | Some c \<Rightarrow>
          sr\<lparr>sr_controls := sr_controls sr - {run_id},
             sr_sessions := (sr_sessions sr)(run_id \<mapsto> control_shutdown c)\<rparr>)"

text \<open>\<open>order\<close> is the order in which the table of sessions is walked.\<close>

definition find_proxy_owner :: "string list \<Rightarrow> string \<Rightarrow> server \<Rightarrow> proxy_owner option" where
  "find_proxy_owner order proxy_name sr =
     map_option (\<lambda>c. \<lparr>po_run_id = ct_run_id c, po_client_id = ct_client_id c\<rparr>)
       (find (\<lambda>c. pm_proxies (sr_pm sr) (proxy_key (ct_run_id c) proxy_name) \<noteq> None)
         (List.map_filter (\<lambda>r. controls_get r sr) order))"

definition control_record_of :: "control \<Rightarrow> control_record" where
  "control_record_of c =
     \<lparr>cr_run_id = ct_run_id c, cr_client_id = ct_client_id c, cr_peer_addr = ct_peer_addr c,
      cr_hostname = ct_hostname c, cr_os = ct_os c, cr_arch = ct_arch c, cr_user = ct_user c,
      cr_pool_count = ct_pool_count c\<rparr>"

definition list_controls :: "string list \<Rightarrow> server \<Rightarrow> control_record list" where
  "list_controls order sr =
     sort_key cr_run_id (map control_record_of (List.map_filter (\<lambda>r. controls_get r sr) order))"

definition get_control_record :: "string \<Rightarrow> server \<Rightarrow> control_record option" where
  "get_control_record run_id sr = map_option control_record_of (controls_get run_id sr)"

definition get_control_queue_stats :: "string \<Rightarrow> server \<Rightarrow> (nat \<times> nat) option" where
  "get_control_queue_stats run_id sr =
     map_option (\<lambda>c. (pending_work_conn_count c, idle_work_conn_count c)) (controls_get run_id sr)"

definition get_queue_stats_snapshot :: "string list \<Rightarrow> server \<Rightarrow> nat \<times> nat" where
  "get_queue_stats_snapshot order sr =
     fold (\<lambda>c (pending, idle). (pending + pending_work_conn_count c, idle + idle_work_conn_count c))
       (List.map_filter (\<lambda>r. controls_get r sr) order) (0, 0)"

text \<open>
  The outbound queue of a session refuses a message only when its receiver is gone; \<open>post\<close> is that
  outcome.
\<close>

definition control_send_message :: "(message \<Rightarrow> bool) \<Rightarrow> message \<Rightarrow> unit result" where
  "control_send_message post msg =
     (if post msg then Inr () else Inl (Transport ''control outbound channel closed''))"

definition send_message ::
  "(message \<Rightarrow> bool) \<Rightarrow> string \<Rightarrow> message \<Rightarrow> server \<Rightarrow> unit result \<times> effect list" where
  "send_message post run_id msg sr =
     (case controls_get run_id sr of
        None \<Rightarrow> (Inl (Protocol (''Unknown run_id: '' @ run_id)), [])
      | Some c \<Rightarrow> (control_send_message post msg, if post msg then [Posted run_id msg] else []))"

definition peer_addr :: "string \<Rightarrow> server \<Rightarrow> string option" where
  "peer_addr run_id sr = map_option ct_peer_addr (controls_get run_id sr)"

subsection \<open>Histories of the queue of a session\<close>

text \<open>
  A request with the outcome of announcing it to the client, or a work connection from the client;
  each with the proxies that still wait at that moment.
\<close>

datatype queue_event =
    Request "nat \<Rightarrow> bool" "message \<Rightarrow> unit result" work_conn_request
  | Arrival "nat \<Rightarrow> bool" conn

fun queue_step :: "queue_event \<Rightarrow> control \<Rightarrow> effect list \<times> control" where
  "queue_step (Request waits send req) c =
     (case handle_work_conn_request waits send req c metrics_new of ((_, effs), c', _) \<Rightarrow> (effs, c'))"
| "queue_step (Arrival waits conn) c =
     (case handle_work_conn waits conn c of ((_, effs), c') \<Rightarrow> (effs, c'))"

fun queue_run :: "queue_event list \<Rightarrow> control \<Rightarrow> effect list \<times> control" where
  "queue_run [] c = ([], c)"
| "queue_run (e # es) c =
     (let (effs, c) = queue_step e c; (effs', c) = queue_run es c in (effs @ effs', c))"

text \<open>The pairs of request and connection that were matched, delivered or not, in order.\<close>

fun matched :: "effect list \<Rightarrow> (nat \<times> conn) list" where
  "matched [] = []"
| "matched (Delivered r c # effs) = (r, c) # matched effs"
| "matched (Dropped r c # effs) = (r, c) # matched effs"
| "matched (_ # effs) = matched effs"

text \<open>The requests and the connections of a history.\<close>

fun requested :: "queue_event list \<Rightarrow> nat list" where
  "requested [] = []"
| "requested (Request _ _ req # es) = wq_reply_tx req # requested es"
| "requested (_ # es) = requested es"

fun arrived :: "queue_event list \<Rightarrow> conn list" where
  "arrived [] = []"
| "arrived (Arrival _ c # es) = c # arrived es"
| "arrived (_ # es) = arrived es"

fun announced :: "queue_event \<Rightarrow> bool" where
  "announced (Request _ send req) = (send (ReqWorkConn \<lparr>rq_proxy_name = wq_proxy_name req\<rparr>) = Inr ())"
| "announced _ = True"

definition queue_inv :: "control \<Rightarrow> bool" where
  "queue_inv c \<longleftrightarrow> ct_pending c = [] \<or> ct_idle c = []"

abbreviation waiting :: "control \<Rightarrow> nat list" where
  "waiting c \<equiv> map wq_reply_tx (ct_pending c)"

lemma matched_append [simp]: "matched (xs @ ys) = matched xs @ matched ys"
  by (induction xs rule: matched.induct) simp_all

lemma matched_hand_over [simp]: "matched [hand_over waits req c] = [(wq_reply_tx req, c)]"
  by (simp add: hand_over_def)

lemma queue_step_conserves:
  assumes "queue_inv c" "announced e" "queue_step e c = (effs, c')"
  shows "queue_inv c'"
    and "map fst (matched effs) @ waiting c' = waiting c @ requested [e]"
    and "mset (map snd (matched effs)) + mset (ct_idle c') = mset (ct_idle c) + mset (arrived [e])"
proof -
  have "queue_inv c' \<and> map fst (matched effs) @ waiting c' = waiting c @ requested [e] \<and>
    mset (map snd (matched effs)) + mset (ct_idle c') = mset (ct_idle c) + mset (arrived [e])"
  proof (cases e)
    case (Request waits send req)
    show ?thesis
    proof (cases "ct_idle c = []")
      case True
      with Request assms show ?thesis
        by (auto simp: queue_inv_def handle_work_conn_request_def Let_def split: sum.splits)
    next
      case False
      then have "mset (ct_idle c) = add_mset (last (ct_idle c)) (mset (butlast (ct_idle c)))"
        by (metis append_butlast_last_id mset.simps(1,2) mset_append union_mset_add_mset_right add.right_neutral)
      with False Request assms show ?thesis
        by (auto simp: queue_inv_def handle_work_conn_request_def Let_def split: sum.splits)
    qed
  next
    case (Arrival waits x)
    with assms show ?thesis
      by (auto simp: queue_inv_def handle_work_conn_def split: list.splits)
  qed
  then show "queue_inv c'" "map fst (matched effs) @ waiting c' = waiting c @ requested [e]"
    "mset (map snd (matched effs)) + mset (ct_idle c') = mset (ct_idle c) + mset (arrived [e])" by blast+
qed

lemma requested_Cons: "requested (e # es) = requested [e] @ requested es"
  by (cases e) simp_all

lemma arrived_Cons: "arrived (e # es) = arrived [e] @ arrived es"
  by (cases e) simp_all

lemma queue_run_conserves:
  "queue_inv c \<Longrightarrow> list_all announced es \<Longrightarrow> queue_run es c = (effs, c') \<Longrightarrow>
   queue_inv c' \<and> map fst (matched effs) @ waiting c' = waiting c @ requested es \<and>
   mset (map snd (matched effs)) + mset (ct_idle c') = mset (ct_idle c) + mset (arrived es)"
proof (induction es arbitrary: c effs)
  case (Cons e es)
  obtain effs1 c1 where s: "queue_step e c = (effs1, c1)" by (cases "queue_step e c")
  obtain effs2 where r: "queue_run es c1 = (effs2, c')" and effs: "effs = effs1 @ effs2"
    using Cons.prems(3) s by (auto split: prod.splits)
  have a: "announced e" "list_all announced es" using Cons.prems(2) by simp_all
  note S = queue_step_conserves [OF Cons.prems(1) a(1) s]
  note R = Cons.IH [OF S(1) a(2) r]
  have "map fst (matched effs) @ waiting c' = map fst (matched effs1) @ (waiting c1 @ requested es)"
    using R by (simp add: effs)
  also have "\<dots> = waiting c @ requested (e # es)"
    unfolding requested_Cons [of e es] using S(2) by (simp only: append_assoc [symmetric])
  finally have "map fst (matched effs) @ waiting c' = waiting c @ requested (e # es)" .
  moreover have "mset (map snd (matched effs)) + mset (ct_idle c') = mset (ct_idle c) + mset (arrived (e # es))"
    unfolding arrived_Cons [of e es] using R S(3) by (simp add: effs ac_simps) (metis add.left_commute add.commute)
  ultimately show ?case using R by blast
qed simp

text \<open>
  C11: The queue of a session matches requests for work connections with the connections the client
  opens: from the start of a session on, requests are served strictly in the order in which they
  came, every connection is either matched with exactly one request or kept idle, and there are never
  both waiting requests and idle connections. A request whose announcement to the client fails leaves
  the queue as it was.
\<close>

theorem work_conns_matched_in_order:
  assumes "ct_pending c = []" "ct_idle c = []" "list_all announced es" "queue_run es c = (effs, c')"
  shows "map fst (matched effs) @ map wq_reply_tx (ct_pending c') = requested es \<and>
    mset (map snd (matched effs)) + mset (ct_idle c') = mset (arrived es) \<and>
    (ct_pending c' = [] \<or> ct_idle c' = []) \<and>
    (\<forall>waits send req mt e. ct_idle c' = [] \<and> send (ReqWorkConn \<lparr>rq_proxy_name = wq_proxy_name req\<rparr>) = Inl e \<longrightarrow>
       fst (snd (handle_work_conn_request waits send req c' mt)) = c')"
proof -
  have "queue_inv c" using assms(1) by (simp add: queue_inv_def)
  from queue_run_conserves [OF this assms(3,4)] assms(1,2)
  show ?thesis by (auto simp: queue_inv_def handle_work_conn_request_def Let_def)
qed

definition demo_control :: control where
  "demo_control = control_new ''r1'' ''c1'' ''198.51.100.7:40000'' ''t'' 1 [] [] [] [] 0 90"

theorem work_conns_matched_in_order_witness:
  "matched (fst (queue_run [Request (\<lambda>_. True) (\<lambda>_. Inr ()) \<lparr>wq_proxy_name = ''web'', wq_reply_tx = 5\<rparr>,
     Arrival (\<lambda>_. True) 1, Arrival (\<lambda>_. True) 2] demo_control)) = [(5, 1)] \<and>
   ct_idle (snd (queue_run [Request (\<lambda>_. True) (\<lambda>_. Inr ()) \<lparr>wq_proxy_name = ''web'', wq_reply_tx = 5\<rparr>,
     Arrival (\<lambda>_. True) 1, Arrival (\<lambda>_. True) 2] demo_control)) = [2]"
proof -
  let ?es = "[Request (\<lambda>_. True) (\<lambda>_. Inr ()) \<lparr>wq_proxy_name = ''web'', wq_reply_tx = 5\<rparr>,
     Arrival (\<lambda>_. True) 1, Arrival (\<lambda>_. True) 2]"
  have "map fst (matched (fst (queue_run ?es demo_control))) @
      map wq_reply_tx (ct_pending (snd (queue_run ?es demo_control))) = requested ?es"
    using work_conns_matched_in_order [of demo_control ?es] by (simp add: demo_control_def control_new_def)
  then show ?thesis
    by (simp add: demo_control_def control_new_def handle_work_conn_request_def handle_work_conn_def
        hand_over_def)
qed

text \<open>One request at a time, each answered by the client with one connection while it still waits.\<close>

fun rounds :: "(work_conn_request \<times> conn) list \<Rightarrow> queue_event list" where
  "rounds [] = []"
| "rounds ((req, c) # rs) =
     Request (\<lambda>_. True) (\<lambda>_. Inr ()) req # Arrival (\<lambda>r. r = wq_reply_tx req) c # rounds rs"

lemma stale_queue_starves:
  assumes "ct_idle c = []" "distinct (d # map (wq_reply_tx \<circ> fst) rs)" "waiting c = [d]"
  shows "(\<forall>r x. Delivered r x \<notin> set (fst (queue_run (rounds rs) c))) \<and>
    length (ct_pending (snd (queue_run (rounds rs) c))) = 1"
  using assms
proof (induction rs arbitrary: c d)
  case (Cons a rs)
  obtain req x where a: "a = (req, x)" by (cases a)
  from Cons.prems(3) obtain q where q: "ct_pending c = [q]" "wq_reply_tx q = d" by (cases "ct_pending c") auto
  define c1 where "c1 = c\<lparr>ct_pending := [req]\<rparr>"
  have step: "queue_run (rounds (a # rs)) c =
      (let (effs, c') = queue_run (rounds rs) c1 in
       (Sent (ReqWorkConn \<lparr>rq_proxy_name = wq_proxy_name req\<rparr>) # Dropped d x # effs, c'))"
    using Cons.prems q
    by (auto simp: a c1_def handle_work_conn_request_def handle_work_conn_def hand_over_def Let_def
        split: prod.splits)
  have "ct_idle c1 = []" "waiting c1 = [wq_reply_tx req]"
    "distinct (wq_reply_tx req # map (wq_reply_tx \<circ> fst) rs)"
    using Cons.prems by (simp_all add: a c1_def comp_def)
  from Cons.IH [OF this(1,3,2)] show ?case unfolding step by (auto split: prod.splits)
qed auto

lemma fresh_queue_serves:
  assumes "ct_idle c = []" "ct_pending c = []" "(req, x) \<in> set rs"
  shows "Delivered (wq_reply_tx req) x \<in> set (fst (queue_run (rounds rs) c))"
  using assms
proof (induction rs)
  case (Cons a rs)
  obtain req' x' where a: "a = (req', x')" by (cases a)
  have c1: "c\<lparr>ct_pending := []\<rparr> = c" using Cons.prems(2) by (cases c) simp
  have "queue_run (rounds (a # rs)) c =
      (let (effs, c') = queue_run (rounds rs) c in
       (Sent (ReqWorkConn \<lparr>rq_proxy_name = wq_proxy_name req'\<rparr>) # Delivered (wq_reply_tx req') x' # effs, c'))"
    using Cons.prems
    by (auto simp: a c1 handle_work_conn_request_def handle_work_conn_def hand_over_def Let_def
        split: prod.splits)
  with Cons.IH [OF Cons.prems(1,2)] Cons.prems(3) show ?case by (auto simp: a split: prod.splits)
qed simp

text \<open>
  C12: A lost work connection is never made up for. If the queue holds one request whose proxy gave up
  waiting, and from then on requests come one at a time, each answered by the client in time with one
  connection, then no request is ever served: every connection goes to the abandoned request before
  it and is closed, and the request it was opened for becomes the next abandoned one. From an empty
  queue the same requests are all served.
\<close>

theorem lost_work_conn_starves:
  assumes "ct_idle c = []" "distinct (d # map (wq_reply_tx \<circ> fst) rs)"
  shows "(map wq_reply_tx (ct_pending c) = [d] \<longrightarrow>
      (\<forall>r x. Delivered r x \<notin> set (fst (queue_run (rounds rs) c))) \<and>
      length (ct_pending (snd (queue_run (rounds rs) c))) = 1) \<and>
    (ct_pending c = [] \<longrightarrow>
      (\<forall>(req, x) \<in> set rs. Delivered (wq_reply_tx req) x \<in> set (fst (queue_run (rounds rs) c))))"
  using stale_queue_starves [OF assms] fresh_queue_serves [OF assms(1)] by blast

theorem lost_work_conn_starves_witness:
  "Delivered 8 1 \<notin> set (fst (queue_run (rounds [(\<lparr>wq_proxy_name = ''web'', wq_reply_tx = 8\<rparr>, 1)])
     (demo_control\<lparr>ct_pending := [\<lparr>wq_proxy_name = ''web'', wq_reply_tx = 7\<rparr>]\<rparr>)))"
  using lost_work_conn_starves [of "demo_control\<lparr>ct_pending := [\<lparr>wq_proxy_name = ''web'', wq_reply_tx = 7\<rparr>]\<rparr>" 7
      "[(\<lparr>wq_proxy_name = ''web'', wq_reply_tx = 8\<rparr>, 1)]"]
  by (simp add: demo_control_def control_new_def)

end
