(* ===== verification/NatHole.thy ===== *)
theory NatHole
  imports Sessions Net
begin

text \<open>
  \<^verbatim>\<open>NatHoleController\<close> of \<^verbatim>\<open>arp-server/src/nathole.rs\<close>: the server brings a visitor of an \<^verbatim>\<open>xtcp\<close> proxy and the
  owner of the proxy together. A visitor's request is remembered under the visitor's address and
  forwarded to the owner; the owner's answer is matched by that address and goes to the visitor. The
  last 32 events are kept for the dashboard.
\<close>

definition push_event :: "xtcp_event \<Rightarrow> xtcp_event list \<Rightarrow> xtcp_event list" where
  "push_event event events = (if length events \<ge> 32 then tl events else events) @ [event]"

definition log_event :: "xtcp_event \<Rightarrow> server \<Rightarrow> server" where
  "log_event event sr = sr\<lparr>sr_events := push_event event (sr_events sr)\<rparr>"

definition count_metric :: "(metrics \<Rightarrow> metrics) \<Rightarrow> server \<Rightarrow> server" where
  "count_metric inc sr = sr\<lparr>sr_metrics := inc (sr_metrics sr)\<rparr>"

definition parse_signed_msg :: "string \<Rightarrow> (string \<times> string) result" where
  "parse_signed_msg signed_msg =
     (case split_once CHR ''|'' signed_msg of
        None \<Rightarrow> Inl (Protocol (''invalid NatHoleVisitor.signed_msg, expected '' @ [CHR 0x27] @ ''<sk>|<visitor_addr>'' @ [CHR 0x27]))
      | Some (sk, visitor_addr) \<Rightarrow>
          let sk = trim sk; visitor_addr = trim visitor_addr in
          if sk = [] then Inl (Protocol ''xtcp visitor sk is empty'')
          else if visitor_addr = [] then Inl (Protocol ''xtcp visitor_addr is empty'')
          else Inr (sk, visitor_addr))"

definition normalize_endpoint_addr :: "string \<Rightarrow> string \<Rightarrow> string" where
  "normalize_endpoint_addr endpoint_addr peer =
     (case parse_socket_addr endpoint_addr of
        None \<Rightarrow> endpoint_addr
      | Some endpoint_sa \<Rightarrow>
          (case parse_socket_addr peer of
             None \<Rightarrow> endpoint_addr
           | Some peer_sa \<Rightarrow>
               let owner_ip = sa_ip peer_sa;
                   endpoint_ip = sa_ip endpoint_sa;
                   use_owner_ip = is_unspecified endpoint_ip \<or> is_loopback endpoint_ip
               in if \<not> use_owner_ip then endpoint_addr
                  else show_ip_port owner_ip (sa_port endpoint_sa)))"

definition visitor_event ::
  "string \<Rightarrow> string \<Rightarrow> string \<Rightarrow> string \<Rightarrow> string \<Rightarrow> string \<Rightarrow> string \<Rightarrow> xtcp_event" where
  "visitor_event stage proxy_name visitor_run_id owner_run_id visitor_addr relay_addr error =
     \<lparr>xe_stage = stage, xe_proxy_name = proxy_name, xe_visitor_run_id = visitor_run_id,
      xe_owner_run_id = owner_run_id, xe_visitor_addr = visitor_addr, xe_client_addr = [],
      xe_relay_addr = relay_addr, xe_error = error\<rparr>"

definition nat_error :: "string \<Rightarrow> string \<Rightarrow> nat_hole_resp_msg" where
  "nat_error visitor_addr error =
     \<lparr>nh_visitor_addr = visitor_addr, nh_client_addr = [], nh_relay_addr = [], nh_error = error\<rparr>"

definition visitor_address :: "string \<Rightarrow> string \<Rightarrow> server \<Rightarrow> string" where
  "visitor_address visitor_run_id addr sr =
     (case peer_addr visitor_run_id sr of
        None \<Rightarrow> addr
      | Some visitor_peer \<Rightarrow> normalize_endpoint_addr addr visitor_peer)"

definition handle_visitor ::
  "(message \<Rightarrow> bool) \<Rightarrow> string \<Rightarrow> nat_hole_visitor_msg \<Rightarrow> server \<Rightarrow>
   (nat_hole_resp_msg option result \<times> effect list) \<times> server" where
  "handle_visitor post visitor_run_id msg sr =
     (let sr = count_metric inc_xtcp_visitor_requests sr; name = nv_proxy_name msg in
      case parse_signed_msg (nv_signed_msg msg) of
        Inl e \<Rightarrow> ((Inl e, []), sr)
      | Inr (signed_sk, addr) \<Rightarrow>
          let visitor_addr = visitor_address visitor_run_id addr sr in
          (case get_xtcp_owner name (sr_pm sr) of
             None \<Rightarrow>
               let error = ''xtcp proxy '' @ name @ '' not found'' in
               ((Inr (Some (nat_error visitor_addr error)), []),
                log_event (visitor_event ''owner_not_found'' name visitor_run_id [] visitor_addr [] error)
                  (count_metric inc_xtcp_owner_not_found sr))
           | Some owner \<Rightarrow>
               if xi_sk owner \<noteq> signed_sk then
                 ((Inr (Some (nat_error visitor_addr ''xtcp sk mismatch'')), []),
                  log_event (visitor_event ''sk_mismatch'' name visitor_run_id (xi_run_id owner) visitor_addr
                      (xi_relay_addr owner) ''xtcp sk mismatch'')
                    (count_metric inc_xtcp_sk_mismatch sr))
               else
                 let sr = sr\<lparr>sr_pending := (sr_pending sr)(visitor_addr \<mapsto>
                       \<lparr>pv_visitor_run_id = visitor_run_id, pv_proxy_name = name,
                        pv_relay_addr = xi_relay_addr owner\<rparr>)\<rparr>;
                     req = NatHoleClient \<lparr>nc_proxy_name = name, nc_visitor_addr = visitor_addr\<rparr>
                 in (case send_message post (xi_run_id owner) req sr of
                       (Inl e, effs) \<Rightarrow>
                         ((Inr (Some (nat_error [] ''owner client offline'')), effs),
                          log_event (visitor_event ''owner_offline'' name visitor_run_id (xi_run_id owner)
                              visitor_addr (xi_relay_addr owner)
                              (''owner client offline: '' @ error_to_string e))
                            (count_metric inc_xtcp_owner_offline sr))
                     | (Inr _, effs) \<Rightarrow>
                         ((Inr None, effs),
                          log_event (visitor_event ''visitor_forwarded'' name visitor_run_id (xi_run_id owner)
                              visitor_addr (xi_relay_addr owner) [])
                            (count_metric inc_xtcp_owner_requests_forwarded sr)))))"

definition handle_client_resp ::
  "(message \<Rightarrow> bool) \<Rightarrow> string \<Rightarrow> nat_hole_resp_msg \<Rightarrow> server \<Rightarrow> (unit result \<times> effect list) \<times> server" where
  "handle_client_resp post owner_run_id msg sr =
     (let msg = (case peer_addr owner_run_id sr of
            None \<Rightarrow> msg
          | Some public_peer \<Rightarrow>
              msg\<lparr>nh_client_addr := normalize_endpoint_addr (nh_client_addr msg) public_peer\<rparr>)
      in case sr_pending sr (nh_visitor_addr msg) of
           None \<Rightarrow> ((Inr (), []), sr)
         | Some pending \<Rightarrow>
             let sr = sr\<lparr>sr_pending := (sr_pending sr)(nh_visitor_addr msg := None)\<rparr>;
                 msg = (if nh_relay_addr msg = [] then msg\<lparr>nh_relay_addr := pv_relay_addr pending\<rparr> else msg);
                 sr = log_event
                   \<lparr>xe_stage = (if nh_error msg = [] then ''response_forwarded'' else ''response_error''),
                    xe_proxy_name = pv_proxy_name pending, xe_visitor_run_id = pv_visitor_run_id pending,
                    xe_owner_run_id = owner_run_id, xe_visitor_addr = nh_visitor_addr msg,
                    xe_client_addr = nh_client_addr msg, xe_relay_addr = nh_relay_addr msg,
                    xe_error = nh_error msg\<rparr> (count_metric inc_xtcp_responses_forwarded sr)
             in (send_message post (pv_visitor_run_id pending) (NatHoleResp msg) sr, sr))"

definition recent_events :: "server \<Rightarrow> xtcp_event list" where
  "recent_events sr = sr_events sr"

subsection \<open>Frame facts\<close>

lemma log_event_sel [simp]:
  "sr_sessions (log_event ev sr) = sr_sessions sr" "sr_controls (log_event ev sr) = sr_controls sr"
  "sr_pm (log_event ev sr) = sr_pm sr" "sr_pending (log_event ev sr) = sr_pending sr"
  "sr_auth (log_event ev sr) = sr_auth sr" "sr_config (log_event ev sr) = sr_config sr"
  "sr_audit (log_event ev sr) = sr_audit sr" "sr_metrics (log_event ev sr) = sr_metrics sr"
  by (simp_all add: log_event_def)

lemma count_metric_sel [simp]:
  "sr_sessions (count_metric f sr) = sr_sessions sr" "sr_controls (count_metric f sr) = sr_controls sr"
  "sr_pm (count_metric f sr) = sr_pm sr" "sr_pending (count_metric f sr) = sr_pending sr"
  "sr_auth (count_metric f sr) = sr_auth sr" "sr_config (count_metric f sr) = sr_config sr"
  "sr_audit (count_metric f sr) = sr_audit sr" "sr_events (count_metric f sr) = sr_events sr"
  by (simp_all add: count_metric_def)

lemma controls_get_cong:
  "sr_sessions sr' = sr_sessions sr \<Longrightarrow> sr_controls sr' = sr_controls sr \<Longrightarrow> controls_get r sr' = controls_get r sr"
  by (simp add: controls_get_def)

lemma controls_get_frame [simp]:
  "controls_get r (log_event ev sr) = controls_get r sr" "controls_get r (count_metric f sr) = controls_get r sr"
  "controls_get r (sr\<lparr>sr_pending := p\<rparr>) = controls_get r sr"
  by (simp_all add: controls_get_def)

lemma peer_addr_frame [simp]:
  "peer_addr r (log_event ev sr) = peer_addr r sr" "peer_addr r (count_metric f sr) = peer_addr r sr"
  "peer_addr r (sr\<lparr>sr_pending := p\<rparr>) = peer_addr r sr"
  by (simp_all add: peer_addr_def)

lemma send_message_frame [simp]:
  "send_message post r msg (log_event ev sr) = send_message post r msg sr"
  "send_message post r msg (count_metric f sr) = send_message post r msg sr"
  "send_message post r msg (sr\<lparr>sr_pending := p\<rparr>) = send_message post r msg sr"
  by (simp_all add: send_message_def)

lemma visitor_address_frame [simp]: "visitor_address r a (count_metric f sr) = visitor_address r a sr"
  by (simp add: visitor_address_def)

text \<open>Neither handler changes sessions or proxies.\<close>

lemma nathole_frame:
  "sr_sessions (snd (handle_visitor post v msg sr)) = sr_sessions sr"
  "sr_controls (snd (handle_visitor post v msg sr)) = sr_controls sr"
  "sr_pm (snd (handle_visitor post v msg sr)) = sr_pm sr"
  "sr_auth (snd (handle_visitor post v msg sr)) = sr_auth sr"
  "sr_config (snd (handle_visitor post v msg sr)) = sr_config sr"
  "sr_audit (snd (handle_visitor post v msg sr)) = sr_audit sr"
  "sr_sessions (snd (handle_client_resp post w resp sr)) = sr_sessions sr"
  "sr_controls (snd (handle_client_resp post w resp sr)) = sr_controls sr"
  "sr_pm (snd (handle_client_resp post w resp sr)) = sr_pm sr"
  "sr_auth (snd (handle_client_resp post w resp sr)) = sr_auth sr"
  "sr_config (snd (handle_client_resp post w resp sr)) = sr_config sr"
  "sr_audit (snd (handle_client_resp post w resp sr)) = sr_audit sr"
  by (auto simp: handle_visitor_def handle_client_resp_def Let_def
      split: sum.splits option.splits prod.splits)

subsection \<open>Properties\<close>

text \<open>An endpoint that is unspecified or loopback gets the address the server sees; its port stays.\<close>

lemma normalize_endpoint_v4:
  "normalize_endpoint_addr (show_ip_port (V4 a b c d) p) (show_ip_port (V4 a' b' c' d') q) =
     show_ip_port (if a = 127 \<or> (a = 0 \<and> b = 0 \<and> c = 0 \<and> d = 0) then V4 a' b' c' d' else V4 a b c d) p"
  by (auto simp: normalize_endpoint_addr_def parse_show_v4 Let_def simp del: show_ip_port.simps)

lemma forwarded_visitor:
  assumes "handle_visitor post v msg sr = ((Inr None, effs), sr1)"
  obtains owner addr where "get_xtcp_owner (nv_proxy_name msg) (sr_pm sr) = Some owner"
    "parse_signed_msg (nv_signed_msg msg) = Inr (xi_sk owner, addr)"
    "effs = [Posted (xi_run_id owner)
       (NatHoleClient \<lparr>nc_proxy_name = nv_proxy_name msg, nc_visitor_addr = visitor_address v addr sr\<rparr>)]"
    "sr_pending sr1 = (sr_pending sr)(visitor_address v addr sr \<mapsto>
       \<lparr>pv_visitor_run_id = v, pv_proxy_name = nv_proxy_name msg, pv_relay_addr = xi_relay_addr owner\<rparr>)"
  using assms
  by (auto simp: handle_visitor_def Let_def send_message_def control_send_message_def
      split: sum.splits option.splits prod.splits if_splits)

definition answer :: "string \<Rightarrow> nat_hole_resp_msg \<Rightarrow> pending_visitor \<Rightarrow> server \<Rightarrow> nat_hole_resp_msg" where
  "answer w resp pending sr =
     \<lparr>nh_visitor_addr = nh_visitor_addr resp,
      nh_client_addr = (case peer_addr w sr of None \<Rightarrow> nh_client_addr resp
        | Some peer \<Rightarrow> normalize_endpoint_addr (nh_client_addr resp) peer),
      nh_relay_addr = (if nh_relay_addr resp = [] then pv_relay_addr pending else nh_relay_addr resp),
      nh_error = nh_error resp\<rparr>"

lemma client_resp_None:
  "sr_pending sr (nh_visitor_addr resp) = None \<Longrightarrow> handle_client_resp post w resp sr = ((Inr (), []), sr)"
  by (simp add: handle_client_resp_def Let_def split: option.split)

lemma client_resp_Some:
  assumes "sr_pending sr (nh_visitor_addr resp) = Some pending"
  shows "fst (handle_client_resp post w resp sr) =
      send_message post (pv_visitor_run_id pending) (NatHoleResp (answer w resp pending sr)) sr"
    and "sr_pending (snd (handle_client_resp post w resp sr)) = (sr_pending sr)(nh_visitor_addr resp := None)"
  using assms
  by (cases resp; cases "peer_addr w sr"; simp add: handle_client_resp_def answer_def Let_def)+

definition demo_server :: server where
  "demo_server =
     \<lparr>sr_config = demo_server_config, sr_auth = demo_auth,
      sr_sessions = [''v'' \<mapsto> demo_control\<lparr>ct_run_id := ''v''\<rparr>, ''o'' \<mapsto> demo_control\<lparr>ct_run_id := ''o''\<rparr>],
      sr_controls = {''v'', ''o''},
      sr_pm = demo_manager\<lparr>pm_xtcp := [''p2p'' \<mapsto> \<lparr>xi_run_id = ''o'', xi_sk = ''s'', xi_relay_addr = ''relay''\<rparr>]\<rparr>,
      sr_pending = Map.empty, sr_events = [], sr_metrics = metrics_new, sr_audit = []\<rparr>"

definition demo_visit :: nat_hole_visitor_msg where
  "demo_visit = \<lparr>nv_proxy_name = ''p2p'', nv_signed_msg = ''s|nat''\<rparr>"

lemma demo_visit_forwarded:
  "\<exists>sr1. handle_visitor (\<lambda>_. True) ''v'' demo_visit demo_server =
     ((Inr None, [Posted ''o'' (NatHoleClient \<lparr>nc_proxy_name = ''p2p'', nc_visitor_addr = ''nat''\<rparr>)]), sr1)"
proof -
  have p: "parse_signed_msg ''s|nat'' = Inr (''s'', ''nat'')"
    by (simp add: parse_signed_msg_def trim_visible visible_def ws_seqs_def)
  have a: "parse_socket_addr ''nat'' = None" by code_simp
  show ?thesis
    by (simp add: handle_visitor_def demo_visit_def p demo_server_def visitor_address_def peer_addr_def controls_get_def
        count_metric_def normalize_endpoint_addr_def a get_xtcp_owner_def send_message_def control_send_message_def Let_def)
qed

text \<open>
  Without the secret of the proxy a visitor achieves nothing: the server posts a message to a
  session or remembers the visitor only if the proxy is registered and the secret in the signed
  message is the one its owner registered.
\<close>

theorem visitor_needs_secret:
  assumes "handle_visitor post v msg sr = ((r, effs), sr')" and "effs \<noteq> [] \<or> sr_pending sr' \<noteq> sr_pending sr"
  shows "\<exists>owner addr. get_xtcp_owner (nv_proxy_name msg) (sr_pm sr) = Some owner \<and>
    parse_signed_msg (nv_signed_msg msg) = Inr (xi_sk owner, addr)"
  using assms
  by (auto simp: handle_visitor_def Let_def split: sum.splits option.splits prod.splits if_splits)

theorem visitor_needs_secret_witness:
  "\<exists>owner addr. get_xtcp_owner ''p2p'' (sr_pm demo_server) = Some owner \<and>
     parse_signed_msg ''s|nat'' = Inr (xi_sk owner, addr)"
  using visitor_needs_secret [of "\<lambda>_. True" "''v''" demo_visit demo_server] demo_visit_forwarded
  by (auto simp: demo_visit_def)

text \<open>
  C31: The rendezvous: when a visitor's request was forwarded, the owner got the visitor's address, and
  the first answer that names this address goes to that visitor and to nobody else, with the relay
  address of the proxy where the answer has none and the client address corrected by the address the
  server sees. The request is then settled: every further answer for it is ignored. The answer is
  taken from whichever session sends it.
\<close>

theorem nathole_rendezvous:
  assumes "handle_visitor post v msg sr = ((Inr None, effs), sr1)"
  shows "\<exists>owner va. get_xtcp_owner (nv_proxy_name msg) (sr_pm sr) = Some owner \<and>
    effs = [Posted (xi_run_id owner) (NatHoleClient \<lparr>nc_proxy_name = nv_proxy_name msg, nc_visitor_addr = va\<rparr>)] \<and>
    (\<forall>w resp r2 effs2 sr2. nh_visitor_addr resp = va \<and>
       handle_client_resp (\<lambda>_. True) w resp sr1 = ((r2, effs2), sr2) \<longrightarrow>
       (v \<in> sr_controls sr \<and> sr_sessions sr v \<noteq> None \<longrightarrow> r2 = Inr () \<and>
         effs2 = [Posted v (NatHoleResp
           \<lparr>nh_visitor_addr = va,
            nh_client_addr = (case peer_addr w sr of None \<Rightarrow> nh_client_addr resp
              | Some peer \<Rightarrow> normalize_endpoint_addr (nh_client_addr resp) peer),
            nh_relay_addr = (if nh_relay_addr resp = [] then xi_relay_addr owner else nh_relay_addr resp),
            nh_error = nh_error resp\<rparr>)]) \<and>
       (\<forall>w' resp'. nh_visitor_addr resp' = va \<longrightarrow>
         handle_client_resp (\<lambda>_. True) w' resp' sr2 = ((Inr (), []), sr2)))"
proof (rule forwarded_visitor [OF assms])
  fix owner addr
  let ?va = "visitor_address v addr sr"
  assume owner: "get_xtcp_owner (nv_proxy_name msg) (sr_pm sr) = Some owner"
    and effs: "effs = [Posted (xi_run_id owner)
       (NatHoleClient \<lparr>nc_proxy_name = nv_proxy_name msg, nc_visitor_addr = ?va\<rparr>)]"
    and pend: "sr_pending sr1 = (sr_pending sr)(?va \<mapsto>
       \<lparr>pv_visitor_run_id = v, pv_proxy_name = nv_proxy_name msg, pv_relay_addr = xi_relay_addr owner\<rparr>)"
  have get: "controls_get r sr1 = controls_get r sr" for r
    using nathole_frame(1,2) [of post v msg sr] assms by (simp add: controls_get_def)
  then have peer: "peer_addr r sr1 = peer_addr r sr" for r by (simp add: peer_addr_def)
  have one: "fst (handle_client_resp (\<lambda>_. True) w resp sr1) =
      (Inr (), [Posted v (NatHoleResp (answer w resp
        \<lparr>pv_visitor_run_id = v, pv_proxy_name = nv_proxy_name msg, pv_relay_addr = xi_relay_addr owner\<rparr> sr))])"
    if "nh_visitor_addr resp = ?va" "v \<in> sr_controls sr" "sr_sessions sr v \<noteq> None" for w resp
  proof -
    have "controls_get v sr \<noteq> None" using that by (simp add: controls_get_def)
    then obtain c where c: "controls_get v sr1 = Some c" using get [of v] by auto
    have "sr_pending sr1 (nh_visitor_addr resp) = Some
        \<lparr>pv_visitor_run_id = v, pv_proxy_name = nv_proxy_name msg, pv_relay_addr = xi_relay_addr owner\<rparr>"
      using pend that by simp
    from client_resp_Some(1) [OF this, of "\<lambda>_. True" w] c show ?thesis
      by (simp add: send_message_def control_send_message_def answer_def peer)
  qed
  have two: "handle_client_resp (\<lambda>_. True) w' resp' (snd (handle_client_resp (\<lambda>_. True) w resp sr1))
      = ((Inr (), []), snd (handle_client_resp (\<lambda>_. True) w resp sr1))"
    if "nh_visitor_addr resp = ?va" "nh_visitor_addr resp' = ?va" for w resp w' resp'
    using client_resp_Some(2) [of sr1 resp _ "\<lambda>_. True" w] that pend by (intro client_resp_None) simp
  show ?thesis
  proof (rule exI [of _ owner], rule exI [of _ ?va], intro conjI allI impI, goal_cases)
    case (3 w resp r2 effs2 sr2)
    with one [of resp w] show ?case by simp
  next
    case (4 w resp r2 effs2 sr2)
    with one [of resp w] show ?case by (simp add: answer_def)
  next
    case (5 w resp r2 effs2 sr2 w' resp')
    with two [of resp resp' w' w] show ?case by simp
  qed (use owner effs in simp_all)
qed

theorem nathole_rendezvous_witness:
  "\<exists>owner va. get_xtcp_owner ''p2p'' (sr_pm demo_server) = Some owner \<and>
     fst (handle_visitor (\<lambda>_. True) ''v'' demo_visit demo_server) =
       (Inr None, [Posted (xi_run_id owner) (NatHoleClient \<lparr>nc_proxy_name = ''p2p'', nc_visitor_addr = va\<rparr>)])"
  using nathole_rendezvous [of "\<lambda>_. True" "''v''" demo_visit demo_server] demo_visit_forwarded
  by (auto simp: demo_visit_def)

text \<open>
  The dashboard keeps the last 32 events: whatever the history, the list is the tail of the events
  logged, in order, and never longer than 32.
\<close>

theorem recent_events_last_32:
  "sr_events (fold log_event events (sr\<lparr>sr_events := []\<rparr>)) = drop (length events - 32) events \<and>
   length (sr_events (fold log_event events (sr\<lparr>sr_events := []\<rparr>))) \<le> 32"
proof -
  have "sr_events (fold log_event events (sr\<lparr>sr_events := []\<rparr>)) = drop (length events - 32) events"
  proof (induction events rule: rev_induct)
    case (snoc x xs)
    show ?case
    proof (cases "length xs < 32")
      case True
      with snoc show ?thesis by (simp add: log_event_def push_event_def)
    next
      case False
      then have "Suc (length xs) - 32 = Suc (length xs - 32)" by simp
      with False snoc show ?thesis
        by (simp add: log_event_def push_event_def drop_Suc tl_drop)
    qed
  qed simp
  then show ?thesis by simp
qed

end
