(* ===== verification/Control.thy ===== *)
theory Control
  imports NatHole
begin

text \<open>
  The task of a session, \<^verbatim>\<open>Control::run\<close> of \<^verbatim>\<open>arp-server/src/control/mod.rs\<close>, with its handlers of the client's
  messages: registration of proxies with the takeover of a stale session of the same client, removal,
  heartbeats and the NAT traversal messages.
\<close>

subsection \<open>Handlers\<close>

text \<open>
  What the surroundings decide in one step: the outcome of binding sockets, of writing to the session's
  connection and of queueing for another session, which proxies still wait for a work connection, the
  clock, and the orders in which the tables of sessions, proxies and domains are walked.
\<close>

record env =
  en_os :: os
  en_send :: "message \<Rightarrow> unit result"
  en_post :: "message \<Rightarrow> bool"
  en_waits :: "nat \<Rightarrow> bool"
  en_now :: i64
  en_controls :: "string list"
  en_keys :: "string list"
  en_domains :: "string list"

definition audit :: "audit_event \<Rightarrow> server \<Rightarrow> server" where
  "audit event sr = sr\<lparr>sr_audit := emit event (sr_audit sr)\<rparr>"

definition reply :: "env \<Rightarrow> message \<Rightarrow> server \<Rightarrow> (unit result \<times> effect list) \<times> server" where
  "reply en msg sr = ((en_send en msg, [Sent msg]), sr)"

definition new_proxy_resp :: "string \<Rightarrow> string \<Rightarrow> string \<Rightarrow> message" where
  "new_proxy_resp proxy_name remote_addr error =
     NewProxyResp \<lparr>nr_proxy_name = proxy_name, nr_remote_addr = remote_addr, nr_error = error\<rparr>"

text \<open>
  The first part of \<^verbatim>\<open>handle_new_proxy\<close>: a name owned by another session is taken over when that session
  belongs to the same client, and refused otherwise.
\<close>

definition take_over :: "env \<Rightarrow> control \<Rightarrow> string \<Rightarrow> server \<Rightarrow> string + server" where
  "take_over en c proxy_name sr =
     (case find_proxy_owner (en_controls en) proxy_name sr of
        None \<Rightarrow> Inr sr
      | Some owner \<Rightarrow>
          if po_run_id owner \<noteq> ct_run_id c then
            if po_client_id owner \<noteq> [] \<and> po_client_id owner = ct_client_id c then
              (case evict_proxy_by_name (en_keys en) (en_domains en) proxy_name (sr_pm sr) of
                 (None, pm) \<Rightarrow> Inr (sr\<lparr>sr_pm := pm\<rparr>)
               | (Some _, pm) \<Rightarrow> Inr (shutdown_run (po_run_id owner) (sr\<lparr>sr_pm := pm\<rparr>)))
            else Inl (''proxy name '' @ proxy_name @ '' is already in use by another client'')
          else Inr sr)"

definition handle_new_proxy ::
  "platform \<Rightarrow> env \<Rightarrow> control \<Rightarrow> new_proxy_msg \<Rightarrow> server \<Rightarrow> (unit result \<times> effect list) \<times> server" where
  "handle_new_proxy pf en c msg sr =
     (let name = np_proxy_name msg in
      case take_over en c name sr of
        Inl err \<Rightarrow> reply en (new_proxy_resp name [] err) sr
      | Inr sr \<Rightarrow>
          (case authorize_proxy pf (sr_auth sr) (ct_privilege_key c) (ct_pool_count c) msg of
             Inl e \<Rightarrow> reply en (new_proxy_resp name [] (error_to_string e)) (count_metric inc_auth_failures sr)
           | Inr _ \<Rightarrow>
               (case register_proxy pf (en_os en) (ct_run_id c) msg (ct_work_conn_req_tx c) (sr_pm sr) of
                  (Inr remote_addr, pm) \<Rightarrow>
                    reply en (new_proxy_resp name remote_addr [])
                      (audit (ProxyRegistered (ct_client_id c) (ct_run_id c) name (np_proxy_type msg) remote_addr)
                        (count_metric inc_proxy_registrations (sr\<lparr>sr_pm := pm\<rparr>)))
                | (Inl e, pm) \<Rightarrow>
                    reply en (new_proxy_resp name [] (error_to_string e))
                      (audit (ProxyRejected (ct_client_id c) (ct_run_id c) name (error_to_string e))
                        (count_metric inc_proxy_registration_failures (sr\<lparr>sr_pm := pm\<rparr>))))))"

definition handle_close_proxy ::
  "env \<Rightarrow> control \<Rightarrow> close_proxy_msg \<Rightarrow> server \<Rightarrow> (unit result \<times> effect list) \<times> server" where
  "handle_close_proxy en c msg sr =
     (let sr = audit (ProxyClosed (ct_run_id c) (cp_proxy_name msg)) sr
      in ((Inr (), []), sr\<lparr>sr_pm := unregister_proxy (en_domains en) (ct_run_id c) (cp_proxy_name msg) (sr_pm sr)\<rparr>))"

definition handle_ping ::
  "env \<Rightarrow> control \<Rightarrow> ping_msg \<Rightarrow> server \<Rightarrow> (unit result \<times> effect list) \<times> server" where
  "handle_ping en c msg sr =
     (case verify_ping (sr_auth sr) msg of
        Inl e \<Rightarrow> ((Inl e, []), sr)
      | Inr _ \<Rightarrow> reply en (Pong \<lparr>po_timestamp = en_now en\<rparr>) sr)"

definition handle_nathole_visitor ::
  "env \<Rightarrow> control \<Rightarrow> nat_hole_visitor_msg \<Rightarrow> server \<Rightarrow> (unit result \<times> effect list) \<times> server" where
  "handle_nathole_visitor en c msg sr =
     (case handle_visitor (en_post en) (ct_run_id c) msg sr of
        ((Inl e, effs), sr) \<Rightarrow> ((Inl e, effs), sr)
      | ((Inr (Some resp), effs), sr) \<Rightarrow>
          ((en_send en (NatHoleResp resp), effs @ [Sent (NatHoleResp resp)]), sr)
      | ((Inr None, effs), sr) \<Rightarrow> ((Inr (), effs), sr))"

definition handle_nathole_resp ::
  "env \<Rightarrow> control \<Rightarrow> nat_hole_resp_msg \<Rightarrow> server \<Rightarrow> (unit result \<times> effect list) \<times> server" where
  "handle_nathole_resp en c msg sr = handle_client_resp (en_post en) (ct_run_id c) msg sr"

definition handle_message ::
  "platform \<Rightarrow> env \<Rightarrow> control \<Rightarrow> message \<Rightarrow> server \<Rightarrow> (unit result \<times> effect list) \<times> server" where
  "handle_message pf en c msg sr =
     (case msg of
        NewProxy m \<Rightarrow> handle_new_proxy pf en c m sr
      | CloseProxy m \<Rightarrow> handle_close_proxy en c m sr
      | Ping m \<Rightarrow> handle_ping en c m sr
      | NatHoleVisitor m \<Rightarrow> handle_nathole_visitor en c m sr
      | NatHoleResp m \<Rightarrow> handle_nathole_resp en c m sr
      | _ \<Rightarrow> ((Inr (), []), sr))"

subsection \<open>The loop\<close>

text \<open>
  The branches of \<^verbatim>\<open>tokio::select!\<close>. The result is the return value of the task where the event ends it.
  Errors of the handlers are only logged.
\<close>

datatype control_event =
    Cancelled
  | Received "message option result"
  | WorkRequest "work_conn_request option"
  | Outbound "message option"

definition control_step ::
  "platform \<Rightarrow> env \<Rightarrow> string \<Rightarrow> control_event \<Rightarrow> server \<Rightarrow> (unit result option \<times> effect list) \<times> server" where
  "control_step pf en run_id ev sr =
     (case sr_sessions sr run_id of
        None \<Rightarrow> ((None, []), sr)
      | Some c \<Rightarrow>
          (case ev of
             Cancelled \<Rightarrow> ((Some (Inl (Transport ''connection superseded'')), []), sr)
           | Received (Inl e) \<Rightarrow> ((Some (Inl e), []), sr)
           | Received (Inr None) \<Rightarrow> ((Some (Inr ()), []), sr)
           | Received (Inr (Some msg)) \<Rightarrow>
               (case handle_message pf en c msg sr of ((_, effs), sr) \<Rightarrow> ((None, effs), sr))
           | WorkRequest None \<Rightarrow> ((None, []), sr)
           | WorkRequest (Some req) \<Rightarrow>
               (case handle_work_conn_request (en_waits en) (en_send en) req c (sr_metrics sr) of
                  ((_, effs), c, mt) \<Rightarrow>
                    ((None, effs), sr\<lparr>sr_sessions := (sr_sessions sr)(run_id \<mapsto> c), sr_metrics := mt\<rparr>))
           | Outbound None \<Rightarrow> ((None, []), sr)
           | Outbound (Some msg) \<Rightarrow> ((None, [Sent msg]), sr)))"

text \<open>
  The loop with its deadline: \<open>evs\<close> are the events as they become ready, each with its time and with what
  other tasks did to the server before. The deadline moves with every message received, and only
  then; at the deadline the task ends, also when nothing happens any more.
\<close>

fun is_received :: "control_event \<Rightarrow> bool" where
  "is_received (Received _) = True"
| "is_received _ = False"

fun control_run ::
  "platform \<Rightarrow> string \<Rightarrow> nat \<Rightarrow> nat \<Rightarrow> (nat \<times> (server \<Rightarrow> server) \<times> env \<times> control_event) list \<Rightarrow> server \<Rightarrow>
   ((nat \<times> unit result) option \<times> effect list) \<times> server" where
  "control_run pf run_id heartbeat deadline [] sr =
     ((Some (deadline, Inl (Timeout ''server heartbeat timeout'')), []), sr)"
| "control_run pf run_id heartbeat deadline ((t, others, en, ev) # evs) sr =
     (let sr = others sr in
      if deadline \<le> t then
        ((Some (deadline, Inl (Timeout ''server heartbeat timeout'')), []), sr)
      else
        let deadline = (if is_received ev then t + heartbeat else deadline) in
        (case control_step pf en run_id ev sr of
           ((Some r, effs), sr) \<Rightarrow> ((Some (t, r), effs), sr)
         | ((None, effs), sr) \<Rightarrow>
             (case control_run pf run_id heartbeat deadline evs sr of
                ((r, effs'), sr) \<Rightarrow> ((r, effs @ effs'), sr))))"

subsection \<open>Frame facts\<close>

lemma audit_sel [simp]:
  "sr_sessions (audit ev sr) = sr_sessions sr" "sr_controls (audit ev sr) = sr_controls sr"
  "sr_pm (audit ev sr) = sr_pm sr" "sr_pending (audit ev sr) = sr_pending sr"
  "sr_auth (audit ev sr) = sr_auth sr" "sr_config (audit ev sr) = sr_config sr"
  "sr_events (audit ev sr) = sr_events sr" "sr_metrics (audit ev sr) = sr_metrics sr"
  by (simp_all add: audit_def)

lemma shutdown_run_sel [simp]:
  "sr_pm (shutdown_run r sr) = sr_pm sr" "sr_auth (shutdown_run r sr) = sr_auth sr"
  "sr_config (shutdown_run r sr) = sr_config sr" "sr_pending (shutdown_run r sr) = sr_pending sr"
  "sr_audit (shutdown_run r sr) = sr_audit sr"
  by (simp_all add: shutdown_run_def split: option.splits)

subsection \<open>Properties\<close>

lemma control_step_timeout:
  "fst (fst (control_step pf en run_id ev sr)) = Some (Inl (Timeout m)) \<Longrightarrow> ev = Received (Inl (Timeout m))"
  by (auto simp: control_step_def split: control_event.splits option.splits prod.splits sum.splits)

lemma silent_ends:
  "\<forall>(t, others, en, ev) \<in> set evs. \<not> is_received ev \<Longrightarrow>
   \<exists>t r. fst (fst (control_run pf run_id heartbeat deadline evs sr)) = Some (t, r) \<and> t \<le> deadline"
proof (induction evs arbitrary: sr)
  case (Cons a evs)
  obtain t others en ev where a: "a = (t, others, en, ev)" by (cases a)
  obtain r effs sr' where st: "control_step pf en run_id ev (others sr) = ((r, effs), sr')"
    by (metis prod.exhaust)
  from Cons.IH [of sr'] Cons.prems obtain t' r' where
    "fst (fst (control_run pf run_id heartbeat deadline evs sr')) = Some (t', r')" "t' \<le> deadline" by auto
  with Cons.prems show ?case
    by (cases r) (auto simp: a st Let_def split: prod.splits)
qed simp

lemma timeout_source:
  "fst (fst (control_run pf run_id heartbeat deadline evs sr)) = Some (t, Inl (Timeout m)) \<Longrightarrow>
   \<forall>(t, others, en, ev) \<in> set evs. \<forall>e. ev \<noteq> Received (Inl e) \<Longrightarrow>
   t = deadline \<or> (\<exists>t' others en ev. (t', others, en, ev) \<in> set evs \<and> is_received ev \<and> t = t' + heartbeat)"
proof (induction evs arbitrary: sr deadline)
  case (Cons a evs)
  obtain t0 others en ev where a: "a = (t0, others, en, ev)" by (cases a)
  obtain r effs sr' where st: "control_step pf en run_id ev (others sr) = ((r, effs), sr')"
    by (metis prod.exhaust)
  define d where "d = (if is_received ev then t0 + heartbeat else deadline)"
  show ?case
  proof (cases "deadline \<le> t0")
    case True
    with Cons.prems(1) show ?thesis by (auto simp: a)
  next
    case False
    have "r \<noteq> Some (Inl (Timeout m))"
      using control_step_timeout [of pf en run_id ev "others sr" m] st Cons.prems(2) a by auto
    then have "r = None" using Cons.prems(1) False by (cases r) (auto simp: a st Let_def)
    then have "fst (fst (control_run pf run_id heartbeat d evs sr')) = Some (t, Inl (Timeout m))"
      using Cons.prems(1) False by (auto simp: a st d_def Let_def split: prod.splits)
    from Cons.IH [OF this] Cons.prems(2)
    have "t = d \<or> (\<exists>t' others en ev. (t', others, en, ev) \<in> set evs \<and> is_received ev \<and> t = t' + heartbeat)"
      by auto
    then show ?thesis
    proof
      assume "t = d"
      then show ?thesis unfolding d_def a by (cases "is_received ev") (simp, blast, simp)
    next
      assume "\<exists>t' others en ev. (t', others, en, ev) \<in> set evs \<and> is_received ev \<and> t = t' + heartbeat"
      then obtain t' others en ev where "(t', others, en, ev) \<in> set (a # evs)" "is_received ev" "t = t' + heartbeat"
        by auto
      then show ?thesis by blast
    qed
  qed
qed simp


definition demo_env :: env where
  "demo_env =
     \<lparr>en_os = demo_os, en_send = (\<lambda>_. Inr ()), en_post = (\<lambda>_. True), en_waits = (\<lambda>_. True), en_now = 100,
      en_controls = [''a1'', ''a2'', ''b''], en_keys = [''b:x:web'', ''a1:web''], en_domains = []\<rparr>"


lemma find_Some_in: "find P xs = Some x \<Longrightarrow> x \<in> set xs \<and> P x"
  by (auto simp: find_Some_iff)

lemma set_map_filter_iff: "y \<in> set (List.map_filter f xs) \<longleftrightarrow> (\<exists>x \<in> set xs. f x = Some y)"
  by (induction xs) (auto simp: List.map_filter_simps split: option.splits)

lemma find_proxy_owner_Some:
  assumes "find_proxy_owner order name sr = Some owner"
  obtains r c where "controls_get r sr = Some c" "owner = \<lparr>po_run_id = ct_run_id c, po_client_id = ct_client_id c\<rparr>"
    "pm_proxies (sr_pm sr) (proxy_key (ct_run_id c) name) \<noteq> None"
  using assms unfolding find_proxy_owner_def
  by (auto dest!: find_Some_in simp: set_map_filter_iff)

definition run_ids_ok :: "server \<Rightarrow> bool" where
  "run_ids_ok sr \<longleftrightarrow> (\<forall>r c. sr_sessions sr r = Some c \<longrightarrow> ct_run_id c = r)"

text \<open>
  What a takeover removes. When a name is owned by another session of the same client, the first
  proxy in the walk whose key ends in a colon and that name is removed and the owner's session is shut
  down. The key that is found need not be the owner's: a proxy of another client whose own name ends
  in a colon and the requested name is removed just as well.
\<close>

theorem take_over_exact:
  assumes "run_ids_ok sr" and "find_proxy_owner (en_controls en) name sr = Some owner"
    and "po_run_id owner \<noteq> ct_run_id c" "po_client_id owner \<noteq> []" "po_client_id owner = ct_client_id c"
    and "find (\<lambda>key. ends_with key ('':'' @ name)) (en_keys en) = Some key"
  shows "\<exists>sr'. take_over en c name sr = Inr sr' \<and>
    pm_proxies (sr_pm sr') = (pm_proxies (sr_pm sr))(key := None) \<and>
    sr_controls sr' = sr_controls sr - {po_run_id owner} \<and>
    (\<exists>o'. sr_sessions sr' (po_run_id owner) = Some o' \<and> ct_cancelled o')"
proof -
  obtain r o' where o': "controls_get r sr = Some o'" "owner = \<lparr>po_run_id = ct_run_id o', po_client_id = ct_client_id o'\<rparr>"
    using find_proxy_owner_Some [OF assms(2)] by blast
  then have "controls_get (po_run_id owner) sr = Some o'"
    using assms(1) by (auto simp: run_ids_ok_def controls_get_def split: if_splits)
  then have get: "controls_get (po_run_id owner) (sr\<lparr>sr_pm := pm\<rparr>) = Some o'" for pm
    by (auto simp: controls_get_def split: if_splits)
  obtain ev pm where e: "evict_proxy_by_name (en_keys en) (en_domains en) name (sr_pm sr) = (Some ev, pm)"
    and pm: "pm_proxies pm = (pm_proxies (sr_pm sr))(key := None)"
    using assms(6) by (simp add: evict_proxy_by_name_def Let_def)
  have "take_over en c name sr = Inr (shutdown_run (po_run_id owner) (sr\<lparr>sr_pm := pm\<rparr>))"
    using assms(3-5) by (simp add: take_over_def assms(2) e)
  moreover have "shutdown_run (po_run_id owner) (sr\<lparr>sr_pm := pm\<rparr>) = sr\<lparr>sr_pm := pm,
      sr_controls := sr_controls sr - {po_run_id owner},
      sr_sessions := (sr_sessions sr)(po_run_id owner \<mapsto> control_shutdown o')\<rparr>"
    by (simp add: shutdown_run_def get)
  moreover have "ct_cancelled (control_shutdown o')" by (simp add: control_shutdown_def)
  ultimately show ?thesis using pm by simp
qed

text \<open>Two sessions of the client \<open>c1\<close> and one of another client, which calls its proxy \<open>x:web\<close>.\<close>

definition demo_takeover :: server where
  "demo_takeover = demo_server
     \<lparr>sr_sessions := [''a1'' \<mapsto> demo_control\<lparr>ct_run_id := ''a1''\<rparr>, ''a2'' \<mapsto> demo_control\<lparr>ct_run_id := ''a2''\<rparr>,
        ''b'' \<mapsto> demo_control\<lparr>ct_run_id := ''b'', ct_client_id := ''other''\<rparr>],
      sr_controls := {''a1'', ''a2'', ''b''},
      sr_pm := demo_manager\<lparr>pm_proxies := [''a1:web'' \<mapsto> PStcp ''web'', ''b:x:web'' \<mapsto> PStcp ''x:web'']\<rparr>\<rparr>"

theorem take_over_exact_witness:
  "\<exists>sr'. take_over demo_env (demo_control\<lparr>ct_run_id := ''a2''\<rparr>) ''web'' demo_takeover = Inr sr' \<and>
     pm_proxies (sr_pm sr') = [''a1:web'' \<mapsto> PStcp ''web'']"
proof -
  have ok: "run_ids_ok demo_takeover" by (auto simp: run_ids_ok_def demo_takeover_def split: if_splits)
  have own: "find_proxy_owner (en_controls demo_env) ''web'' demo_takeover
      = Some \<lparr>po_run_id = ''a1'', po_client_id = ''c1''\<rparr>"
    by (simp add: find_proxy_owner_def demo_env_def demo_takeover_def List.map_filter_simps controls_get_def
        proxy_key_def demo_control_def control_new_def)
  have key: "find (\<lambda>key. ends_with key ('':'' @ ''web'')) (en_keys demo_env) = Some ''b:x:web''"
    by (simp add: demo_env_def ends_with_def suffix_to_prefix)
  have pm: "(pm_proxies (sr_pm demo_takeover))(''b:x:web'' := None) = [''a1:web'' \<mapsto> PStcp ''web'']"
    by (simp add: demo_takeover_def fun_eq_iff)
  have "po_run_id \<lparr>po_run_id = ''a1'', po_client_id = ''c1''\<rparr> \<noteq> ct_run_id (demo_control\<lparr>ct_run_id := ''a2''\<rparr>)"
    "po_client_id \<lparr>po_run_id = ''a1'', po_client_id = ''c1''\<rparr> \<noteq> []"
    "po_client_id \<lparr>po_run_id = ''a1'', po_client_id = ''c1''\<rparr> = ct_client_id (demo_control\<lparr>ct_run_id := ''a2''\<rparr>)"
    by (simp_all add: demo_control_def control_new_def)
  from take_over_exact [OF ok own this key] obtain sr'
    where "take_over demo_env (demo_control\<lparr>ct_run_id := ''a2''\<rparr>) ''web'' demo_takeover = Inr sr'"
      "pm_proxies (sr_pm sr') = (pm_proxies (sr_pm demo_takeover))(''b:x:web'' := None)" by blast
  with pm show ?thesis by (intro exI [of _ sr'] conjI) (assumption, simp only:)
qed

end
