(* ===== verification/Service.thy ===== *)
theory Service
  imports Control
begin

text \<open>
  \<^verbatim>\<open>arp-server/src/service.rs\<close>: what the server does with a new connection, by its first message: a login,
  which starts a session and cleans up after it, a work connection for a session, or a visitor of a
  secret proxy. The server as a whole is the step relation \<open>server_step\<close>; its invariant ties every proxy
  to a live session and to the authorisation of its token.
\<close>

subsection \<open>Start\<close>

definition server_version :: string where
  "server_version = ''0.5.4''"

text \<open>Reading certificates and keys is code of \<^verbatim>\<open>rustls\<close>: the argument \<open>tls\<close>.\<close>

definition build_tls_acceptor :: "(tls_config \<Rightarrow> unit result) \<Rightarrow> server_config \<Rightarrow> unit result" where
  "build_tls_acceptor tls config =
     (let t = tr_tls (srv_transport config) in
      if tl_cert_file t = [] \<or> tl_key_file t = []
      then Inl (Config ''tls.enable is true but cert_file/key_file is empty'')
      else tls t)"

definition service_new ::
  "platform \<Rightarrow> (tls_config \<Rightarrow> unit result) \<Rightarrow> server_config \<Rightarrow> server result" where
  "service_new pf tls config =
     (case create_authenticator (srv_auth config) of
        Inl e \<Rightarrow> Inl e
      | Inr authn \<Rightarrow>
          let pm = manager_new pf (srv_bind_addr config) (srv_subdomain_host config) (srv_vhost_http_port config)
                (srv_vhost_https_port config) (resource_new config);
              sr = \<lparr>sr_config = config, sr_auth = authn, sr_sessions = Map.empty, sr_controls = {},
                    sr_pm = pm, sr_pending = Map.empty, sr_events = [], sr_metrics = metrics_new, sr_audit = []\<rparr>
          in if tl_enable (tr_tls (srv_transport config)) then
               (case build_tls_acceptor tls config of Inl e \<Rightarrow> Inl e | Inr _ \<Rightarrow> Inr sr)
             else Inr sr)"

text \<open>Which port each transport listens on.\<close>

definition listen_port :: "server_config \<Rightarrow> u16" where
  "listen_port config =
     (case tr_protocol (srv_transport config) of
        TpKcp \<Rightarrow> if srv_kcp_bind_port config > 0 then srv_kcp_bind_port config else srv_bind_port config
      | TpQuic \<Rightarrow> if srv_quic_bind_port config > 0 then srv_quic_bind_port config else srv_bind_port config
      | _ \<Rightarrow> srv_bind_port config)"

subsection \<open>Login\<close>

definition login_resp :: "string \<Rightarrow> string \<Rightarrow> message" where
  "login_resp run_id error = LoginResp \<lparr>lr_version = server_version, lr_run_id = run_id, lr_error = error\<rparr>"

definition effective_heartbeat :: "server_config \<Rightarrow> u64" where
  "effective_heartbeat config =
     (if tr_heartbeat_timeout (srv_transport config) > 0 then tr_heartbeat_timeout (srv_transport config) else 90)"

text \<open>
  \<^verbatim>\<open>handle_login\<close> up to the start of the session's task: \<open>run_id\<close> is the fresh UUID and \<open>tx\<close> the queue of the
  new session.
\<close>

definition login_begin ::
  "platform \<Rightarrow> env \<Rightarrow> string \<Rightarrow> chan \<Rightarrow> login_msg \<Rightarrow> string \<Rightarrow> server \<Rightarrow>
   (unit result \<times> effect list) \<times> server" where
  "login_begin pf en run_id tx login_msg peer sr =
     (case verify_login pf (sr_auth sr) (en_now en) login_msg of
        Inl e \<Rightarrow>
          let sr = audit (ClientLoginFailed peer (error_to_string e)) (count_metric inc_auth_failures sr);
              m = login_resp [] (error_to_string e)
          in (case en_send en m of
                Inl e' \<Rightarrow> ((Inl e', [Sent m]), sr)
              | Inr _ \<Rightarrow> ((Inl e, [Sent m]), sr))
      | Inr matched_token \<Rightarrow>
          let m = login_resp run_id [] in
          (case en_send en m of
             Inl e' \<Rightarrow> ((Inl e', [Sent m]), sr)
           | Inr _ \<Rightarrow>
               let sr = audit (ClientLogin (lg_client_id login_msg) peer run_id) sr;
                   c = control_new run_id (lg_client_id login_msg) peer matched_token (lg_pool_count login_msg)
                     (lg_hostname login_msg) (lg_os login_msg) (lg_arch login_msg) (lg_user login_msg) tx
                     (effective_heartbeat (sr_config sr))
               in ((Inr (), [Sent m]), controls_add run_id c sr)))"

text \<open>\<^verbatim>\<open>handle_login\<close> after the session's task has returned.\<close>

definition login_end :: "env \<Rightarrow> string \<Rightarrow> control \<Rightarrow> server \<Rightarrow> server" where
  "login_end en run_id c sr =
     (let sr = sr\<lparr>sr_pm := unregister_run_proxies (en_keys en) (en_domains en) run_id (sr_pm sr)\<rparr>;
          sr = controls_remove run_id sr;
          sr = sr\<lparr>sr_sessions := (sr_sessions sr)(run_id := None)\<rparr>
      in audit (ClientDisconnect (ct_client_id c) run_id) sr)"

subsection \<open>Work connections and visitors\<close>

definition handle_new_work_conn ::
  "platform \<Rightarrow> env \<Rightarrow> conn \<Rightarrow> new_work_conn_msg \<Rightarrow> server \<Rightarrow> (unit result \<times> effect list) \<times> server" where
  "handle_new_work_conn pf en transport msg sr =
     (if trim (nw_run_id msg) = [] then ((Inl (Protocol ''Empty run_id in NewWorkConn''), []), sr)
      else
        let sr = count_metric inc_work_connections sr in
        case verify_new_work_conn pf (sr_auth sr) msg of
          Inl e \<Rightarrow>
            ((Inl e, []), audit (WorkConnAuthFailed (nw_run_id msg) (error_to_string e))
               (count_metric inc_auth_failures sr))
        | Inr _ \<Rightarrow>
            (case controls_get (nw_run_id msg) sr of
               None \<Rightarrow> ((Inl (Protocol (''Unknown run_id: '' @ nw_run_id msg)), []), sr)
             | Some c \<Rightarrow>
                 (case handle_work_conn (en_waits en) transport c of
                    (r, c) \<Rightarrow> (r, sr\<lparr>sr_sessions := (sr_sessions sr)(nw_run_id msg \<mapsto> c)\<rparr>))))"

text \<open>
  A visitor of a secret proxy. \<open>answered\<close> is what becomes of the request for a work connection that is put
  on the owner's queue, \<open>start\<close> the outcome of the message that opens it; the copying after that is I/O
  whose result is ignored. The list holds the requests that were made.
\<close>

definition handle_stcp_visitor_conn ::
  "platform \<Rightarrow> i64 \<Rightarrow> work_reply \<Rightarrow> (conn \<Rightarrow> message \<Rightarrow> unit result) \<Rightarrow> stcp_visitor_conn_msg \<Rightarrow> string \<Rightarrow>
   server \<Rightarrow> unit result \<times> (chan \<times> string) list" where
  "handle_stcp_visitor_conn pf now answered start msg peer sr =
     (case get_stcp_info (sv_proxy_name msg) (sr_pm sr) of
        None \<Rightarrow> (Inl (Proxy (''stcp proxy '' @ sv_proxy_name msg @ '' not found'')), [])
      | Some info \<Rightarrow>
          if \<not> verify pf (si_sk info) (show_int (sint (sv_timestamp msg))) (sv_sk_signature msg) then
            (Inl (Auth (''stcp visitor sk mismatch for proxy '' @ sv_proxy_name msg)), [])
          else if sint (i64_abs (now - sv_timestamp msg)) > 300 then
            (Inl (Auth ''stcp visitor timestamp expired''), [])
          else
            (case await_reply (Transport ''stcp provider work conn channel closed'')
                (Timeout ''stcp work connection timeout'') (Transport ''stcp work connection channel closed'')
                answered of
               Inl e \<Rightarrow> Inl e
             | Inr work_transport \<Rightarrow> start work_transport (start_work (sv_proxy_name msg) peer []),
             [(si_work_conn_req_tx info, sv_proxy_name msg)]))"

text \<open>The first message of a connection decides.\<close>

datatype first_action =
    DoLogin login_msg
  | DoWorkConn new_work_conn_msg
  | DoVisitor stcp_visitor_conn_msg
  | Reject "unit result"

definition handle_transport :: "message option result \<Rightarrow> first_action" where
  "handle_transport received =
     (case received of
        Inl e \<Rightarrow> Reject (Inl e)
      | Inr None \<Rightarrow> Reject (Inr ())
      | Inr (Some (Login m)) \<Rightarrow> DoLogin m
      | Inr (Some (NewWorkConn m)) \<Rightarrow> DoWorkConn m
      | Inr (Some (StcpVisitorConn m)) \<Rightarrow> DoVisitor m
      | Inr (Some m) \<Rightarrow>
          Reject (Inl (Protocol (''Expected Login or NewWorkConn message, got '' @ [CHR 0x27] @ [char_of (unat (type_byte m))] @ [CHR 0x27]))))"

subsection \<open>The server as a transition system\<close>

text \<open>The walks of a step go over the tables as they are.\<close>

definition env_ok :: "env \<Rightarrow> server \<Rightarrow> bool" where
  "env_ok en sr \<longleftrightarrow> covers (en_domains en) (sr_pm sr) \<and> set (en_keys en) = dom (pm_proxies (sr_pm sr)) \<and>
     set (en_controls en) = sr_controls sr"

inductive server_step :: "platform \<Rightarrow> server \<Rightarrow> server \<Rightarrow> bool" for pf where
  login: "sr_sessions sr run_id = None \<Longrightarrow> CHR '':'' \<notin> set run_id \<Longrightarrow>
    server_step pf sr (snd (login_begin pf en run_id tx msg peer sr))"
| event: "env_ok en sr \<Longrightarrow> server_step pf sr (snd (control_step pf en run_id ev sr))"
| session_end: "env_ok en sr \<Longrightarrow> sr_sessions sr run_id = Some c \<Longrightarrow>
    server_step pf sr (login_end en run_id c sr)"
| work_conn: "server_step pf sr (snd (handle_new_work_conn pf en transport msg sr))"
| admin_shutdown: "server_step pf sr (shutdown_run run_id sr)"
| http_conn: "server_step pf sr
    (sr\<lparr>sr_pm := (sr_pm sr)\<lparr>pm_vhost := snd (handle_http_conn pf chunks fin pc (pm_vhost (sr_pm sr)))\<rparr>\<rparr>)"
| https_conn: "server_step pf sr
    (sr\<lparr>sr_pm := (sr_pm sr)\<lparr>pm_vhost := snd (handle_https_conn pf stream pc (pm_vhost (sr_pm sr)))\<rparr>\<rparr>)"
| group_conn: "pm_groups (sr_pm sr) g = Some t \<Longrightarrow> server_step pf sr
    (sr\<lparr>sr_pm := (sr_pm sr)\<lparr>pm_groups := (pm_groups (sr_pm sr))(g \<mapsto> snd (handle_client now relay later t))\<rparr>\<rparr>)"
| listener_stopped: "vm \<in> {http_listener_stopped (pm_vhost (sr_pm sr)), https_listener_stopped (pm_vhost (sr_pm sr))} \<Longrightarrow>
    server_step pf sr (sr\<lparr>sr_pm := (sr_pm sr)\<lparr>pm_vhost := vm\<rparr>\<rparr>)"

definition server_reachable :: "platform \<Rightarrow> server \<Rightarrow> bool" where
  "server_reachable pf sr \<longleftrightarrow>
     (\<exists>tls config sr0. service_new pf tls config = Inr sr0 \<and> (server_step pf)\<^sup>*\<^sup>* sr0 sr)"

subsection \<open>The invariant\<close>

definition logged_in :: "platform \<Rightarrow> server \<Rightarrow> control \<Rightarrow> bool" where
  "logged_in pf sr c \<longleftrightarrow>
     (\<exists>now lg. verify_login pf (sr_auth sr) now lg = Inr (ct_privilege_key c) \<and> lg_pool_count lg = ct_pool_count c)"

definition authorised :: "platform \<Rightarrow> server \<Rightarrow> string \<Rightarrow> proxy_record \<Rightarrow> bool" where
  "authorised pf sr k r \<longleftrightarrow> k = proxy_key (rec_run_id r) (rec_proxy_name r) \<and>
     (\<exists>c msg. sr_sessions sr (rec_run_id r) = Some c \<and> np_proxy_name msg = rec_proxy_name r \<and>
        np_proxy_type msg = rec_proxy_type r \<and>
        authorize_proxy pf (sr_auth sr) (ct_privilege_key c) (ct_pool_count c) msg = Inr ())"

definition server_inv :: "platform \<Rightarrow> server \<Rightarrow> bool" where
  "server_inv pf sr \<longleftrightarrow> manager_inv (sr_pm sr) \<and>
     (\<forall>r c. sr_sessions sr r = Some c \<longrightarrow> ct_run_id c = r \<and> CHR '':'' \<notin> set r \<and> logged_in pf sr c) \<and>
     sr_controls sr \<subseteq> dom (sr_sessions sr) \<and>
     (\<forall>k r. pm_records (sr_pm sr) k = Some r \<longrightarrow> authorised pf sr k r)"

definition ident :: "control \<Rightarrow> string \<times> string \<times> u32" where
  "ident c = (ct_run_id c, ct_privilege_key c, ct_pool_count c)"

lemma logged_in_ident: "ident c' = ident c \<Longrightarrow> sr_auth sr' = sr_auth sr \<Longrightarrow> logged_in pf sr' c' = logged_in pf sr c"
  by (simp add: logged_in_def ident_def)

text \<open>Sessions keep their identity, tables of proxies only lose entries.\<close>

definition same_sessions :: "server \<Rightarrow> server \<Rightarrow> bool" where
  "same_sessions sr sr' \<longleftrightarrow> sr_auth sr' = sr_auth sr \<and> sr_controls sr' \<subseteq> sr_controls sr \<and>
     (\<forall>r. map_option ident (sr_sessions sr' r) = map_option ident (sr_sessions sr r))"

lemma same_sessionsD:
  assumes "same_sessions sr sr'"
  shows "sr_sessions sr r = Some c \<Longrightarrow> \<exists>c'. sr_sessions sr' r = Some c' \<and> ident c' = ident c"
    and "sr_sessions sr' r = Some c' \<Longrightarrow> \<exists>c. sr_sessions sr r = Some c \<and> ident c' = ident c"
    and "dom (sr_sessions sr') = dom (sr_sessions sr)"
proof -
  have e: "map_option ident (sr_sessions sr' r) = map_option ident (sr_sessions sr r)" for r
    using assms by (simp add: same_sessions_def)
  show "sr_sessions sr r = Some c \<Longrightarrow> \<exists>c'. sr_sessions sr' r = Some c' \<and> ident c' = ident c"
    using e [of r] by (cases "sr_sessions sr' r") auto
  show "sr_sessions sr' r = Some c' \<Longrightarrow> \<exists>c. sr_sessions sr r = Some c \<and> ident c' = ident c"
    using e [of r] by (cases "sr_sessions sr r") auto
  show "dom (sr_sessions sr') = dom (sr_sessions sr)"
  proof -
    have "sr_sessions sr' r = None \<longleftrightarrow> sr_sessions sr r = None" for r
      using e [of r] by (cases "sr_sessions sr r"; cases "sr_sessions sr' r") auto
    then show ?thesis by (intro set_eqI) (simp only: domIff)
  qed
qed

lemma authorised_same:
  assumes "same_sessions sr sr'" "authorised pf sr k r"
  shows "authorised pf sr' k r"
proof -
  obtain c msg where c: "sr_sessions sr (rec_run_id r) = Some c" "np_proxy_name msg = rec_proxy_name r"
    "np_proxy_type msg = rec_proxy_type r" "k = proxy_key (rec_run_id r) (rec_proxy_name r)"
    "authorize_proxy pf (sr_auth sr) (ct_privilege_key c) (ct_pool_count c) msg = Inr ()"
    using assms(2) unfolding authorised_def by blast
  obtain c' where c': "sr_sessions sr' (rec_run_id r) = Some c'" "ident c' = ident c"
    using same_sessionsD(1) [OF assms(1) c(1)] by blast
  have "authorize_proxy pf (sr_auth sr') (ct_privilege_key c') (ct_pool_count c') msg = Inr ()"
    using c(5) c'(2) assms(1) by (simp add: same_sessions_def ident_def)
  with c c' show ?thesis unfolding authorised_def by blast
qed

lemma server_inv_same:
  assumes inv: "server_inv pf sr" and same: "same_sessions sr sr'"
    and pm: "manager_inv (sr_pm sr')" and new: "\<And>k r. pm_records (sr_pm sr') k = Some r \<Longrightarrow>
      pm_records (sr_pm sr) k = Some r \<or> authorised pf sr k r"
  shows "server_inv pf sr'"
  unfolding server_inv_def
proof (intro conjI allI impI)
  show "manager_inv (sr_pm sr')" by (rule pm)
  show "sr_controls sr' \<subseteq> dom (sr_sessions sr')"
    using inv same same_sessionsD(3) [OF same] unfolding server_inv_def same_sessions_def by blast
  fix r c' assume c': "sr_sessions sr' r = Some c'"
  obtain c where c: "sr_sessions sr r = Some c" "ident c' = ident c"
    using same_sessionsD(2) [OF same c'] by blast
  with inv have "ct_run_id c = r" "CHR '':'' \<notin> set r" "logged_in pf sr c" by (auto simp: server_inv_def)
  moreover have "sr_auth sr' = sr_auth sr" using same by (simp add: same_sessions_def)
  ultimately show "ct_run_id c' = r" "CHR '':'' \<notin> set r" "logged_in pf sr' c'"
    using c(2) logged_in_ident [OF c(2), of sr' sr] by (simp_all add: ident_def)
next
  fix k r assume "pm_records (sr_pm sr') k = Some r"
  with new inv have "authorised pf sr k r" unfolding server_inv_def by blast
  with same show "authorised pf sr' k r" by (rule authorised_same)
qed

lemma same_sessions_refl: "sr_auth sr' = sr_auth sr \<Longrightarrow> sr_controls sr' = sr_controls sr \<Longrightarrow>
    sr_sessions sr' = sr_sessions sr \<Longrightarrow> same_sessions sr sr'"
  by (simp add: same_sessions_def)

lemma same_sessions_trans: "same_sessions a b \<Longrightarrow> same_sessions b c \<Longrightarrow> same_sessions a c"
  by (auto simp: same_sessions_def)

lemma same_sessions_update:
  "sr_sessions sr r = Some c \<Longrightarrow> ident c' = ident c \<Longrightarrow> sr_auth sr' = sr_auth sr \<Longrightarrow>
   sr_controls sr' \<subseteq> sr_controls sr \<Longrightarrow> sr_sessions sr' = (sr_sessions sr)(r \<mapsto> c') \<Longrightarrow> same_sessions sr sr'"
  by (simp add: same_sessions_def)

lemma shutdown_run_same: "same_sessions sr (shutdown_run r sr)"
  by (auto simp: same_sessions_def shutdown_run_def controls_get_def control_shutdown_def ident_def
      split: option.splits if_splits)

subsection \<open>The invariant is kept\<close>

lemma register_proxy_records:
  assumes "register_proxy pf os run_id msg tx pm = (res, pm')" "manager_inv pm"
    and "pm_records pm' k = Some r"
  shows "pm_records pm k = Some r \<or> (k = proxy_key run_id (np_proxy_name msg) \<and> rec_run_id r = run_id \<and>
    rec_proxy_name r = np_proxy_name msg \<and> rec_proxy_type r = np_proxy_type msg)"
proof (cases res)
  case (Inl e)
  then show ?thesis using register_proxy_Inl(1) [of pf os run_id msg tx pm e pm'] assms(1,3)
    by (metis proxy_manager.ext_inject proxy_manager.surjective proxy_manager.update_convs(7))
next
  case (Inr a)
  have m: "members_inv pm" using assms(2) by (simp add: manager_inv_def)
  obtain p pm1 where g: "gained run_id (np_proxy_name msg) p pm pm1"
    and pm': "pm' = entered (proxy_key run_id (np_proxy_name msg)) p
      \<lparr>rec_run_id = run_id, rec_proxy_name = np_proxy_name msg, rec_proxy_type = np_proxy_type msg,
       rec_remote_addr = a\<rparr> pm1"
    using register_proxy_Inr [OF assms(1) [unfolded Inr] m] by blast
  have "pm_records pm1 = pm_records pm" using g by cases simp_all
  with assms(3) pm' show ?thesis by (auto split: if_splits)
qed

lemma evict_facts:
  assumes "manager_inv pm" "covers order pm" "set keys = dom (pm_proxies pm)"
  shows "manager_inv (snd (evict_proxy_by_name keys order name pm))"
    and "pm_records (snd (evict_proxy_by_name keys order name pm)) k = Some r \<Longrightarrow> pm_records pm k = Some r"
proof -
  show "manager_inv (snd (evict_proxy_by_name keys order name pm))"
    using manager_step.evict [OF assms(2,3)] assms(1) by (rule manager_step_inv)
  have "dom (pm_records pm) = dom (pm_proxies pm)" using assms(1) by (simp add: manager_inv_def)
  then show "pm_records (snd (evict_proxy_by_name keys order name pm)) k = Some r \<Longrightarrow> pm_records pm k = Some r"
    by (auto simp: evict_proxy_by_name_def Let_def split: option.splits if_splits)
qed

lemma take_over_inv:
  assumes inv: "server_inv pf sr" and en: "env_ok en sr" and t: "take_over en c name sr = Inr sr'"
  shows "server_inv pf sr'" and "same_sessions sr sr'"
proof -
  let ?pm = "snd (evict_proxy_by_name (en_keys en) (en_domains en) name (sr_pm sr))"
  have m: "manager_inv (sr_pm sr)" using inv by (simp add: server_inv_def)
  note E = evict_facts [OF m, of "en_domains en" "en_keys en" name] en [unfolded env_ok_def]
  have s: "same_sessions sr (sr\<lparr>sr_pm := ?pm\<rparr>)" by (simp add: same_sessions_refl)
  have cases: "sr' = sr \<or> sr' = sr\<lparr>sr_pm := ?pm\<rparr> \<or> (\<exists>r. sr' = shutdown_run r (sr\<lparr>sr_pm := ?pm\<rparr>))"
    using t by (auto simp: take_over_def split: option.splits if_splits prod.splits)
  from cases show same: "same_sessions sr sr'"
    using s shutdown_run_same same_sessions_trans same_sessions_refl by metis
  have pm': "sr_pm sr' = sr_pm sr \<or> sr_pm sr' = ?pm" using cases by auto
  show "server_inv pf sr'"
    by (rule server_inv_same [OF inv same]) (use pm' m E in auto)
qed

lemma handle_new_proxy_inv:
  assumes inv: "server_inv pf sr" and en: "env_ok en sr" and c: "sr_sessions sr run_id = Some c"
  shows "server_inv pf (snd (handle_new_proxy pf en c msg sr))"
proof (cases "take_over en c (np_proxy_name msg) sr")
  case (Inl err)
  with inv show ?thesis by (simp add: handle_new_proxy_def reply_def Let_def)
next
  case (Inr sr1)
  note T = take_over_inv [OF inv en Inr]
  have run: "ct_run_id c = run_id" using inv c by (auto simp: server_inv_def)
  obtain c' where c': "sr_sessions sr1 run_id = Some c'" "ident c' = ident c"
    using same_sessionsD(1) [OF T(2) c] by blast
  have m: "manager_inv (sr_pm sr1)" using T(1) by (simp add: server_inv_def)
  obtain res pm where reg: "register_proxy pf (en_os en) (ct_run_id c) msg (ct_work_conn_req_tx c) (sr_pm sr1) = (res, pm)"
    by (metis prod.exhaust)
  show ?thesis
  proof (cases "authorize_proxy pf (sr_auth sr1) (ct_privilege_key c) (ct_pool_count c) msg")
    case (Inl e)
    have "server_inv pf (count_metric inc_auth_failures sr1)"
      by (rule server_inv_same [OF T(1)]) (simp_all add: same_sessions_refl m)
    with Inl \<open>take_over en c (np_proxy_name msg) sr = Inr sr1\<close> show ?thesis
      by (simp add: handle_new_proxy_def reply_def Let_def)
  next
    case ok: (Inr u)
    have "server_inv pf sr'" if s: "sr_sessions sr' = sr_sessions sr1" "sr_controls sr' = sr_controls sr1"
      "sr_auth sr' = sr_auth sr1" "sr_pm sr' = pm" for sr'
    proof (rule server_inv_same [OF T(1) same_sessions_refl])
      show "manager_inv (sr_pm sr')" using register_proxy_inv [OF m] reg s(4) by (metis snd_conv)
      fix k r assume "pm_records (sr_pm sr') k = Some r"
      with register_proxy_records [OF reg m, of k r] s(4)
      have "pm_records (sr_pm sr1) k = Some r \<or> k = proxy_key run_id (np_proxy_name msg) \<and> rec_run_id r = run_id \<and>
          rec_proxy_name r = np_proxy_name msg \<and> rec_proxy_type r = np_proxy_type msg"
        by (simp add: run)
      moreover have "authorize_proxy pf (sr_auth sr1) (ct_privilege_key c') (ct_pool_count c') msg = Inr ()"
        using ok c'(2) by (simp add: ident_def)
      ultimately show "pm_records (sr_pm sr1) k = Some r \<or> authorised pf sr1 k r"
        unfolding authorised_def using c'(1) by metis
    qed (use s in simp_all)
    with ok reg \<open>take_over en c (np_proxy_name msg) sr = Inr sr1\<close> show ?thesis
      by (cases res) (simp_all add: handle_new_proxy_def reply_def Let_def)
  qed
qed

lemma server_inv_pm:
  assumes inv: "server_inv pf sr" and pm: "manager_inv pm"
    and rec: "\<And>k r. pm_records pm k = Some r \<Longrightarrow> pm_records (sr_pm sr) k = Some r"
    and s: "sr_sessions sr' = sr_sessions sr" "sr_controls sr' = sr_controls sr" "sr_auth sr' = sr_auth sr" "sr_pm sr' = pm"
  shows "server_inv pf sr'"
  by (rule server_inv_same [OF inv same_sessions_refl]) (use s pm rec in auto)

lemma handle_message_inv:
  assumes inv: "server_inv pf sr" and en: "env_ok en sr" and c: "sr_sessions sr run_id = Some c"
  shows "server_inv pf (snd (handle_message pf en c msg sr))"
proof -
  have m: "manager_inv (sr_pm sr)" using inv by (simp add: server_inv_def)
  have keep: "server_inv pf sr'" if "sr_sessions sr' = sr_sessions sr" "sr_controls sr' = sr_controls sr"
    "sr_auth sr' = sr_auth sr" "sr_pm sr' = sr_pm sr" for sr'
    by (rule server_inv_pm [OF inv m _ that]) simp
  have "covers (en_domains en) (sr_pm sr)" using en by (simp add: env_ok_def)
  note rk = remove_key_inv(1) [OF m this]
  have "dom (pm_records (sr_pm sr)) = dom (pm_proxies (sr_pm sr))" using m by (simp add: manager_inv_def)
  then have close: "server_inv pf (snd (handle_close_proxy en c x sr))" for x
    by (intro server_inv_pm [OF inv rk]) (auto simp: handle_close_proxy_def unregister_proxy_def Let_def split: if_splits)
  have nat: "server_inv pf (snd (handle_nathole_visitor en c x sr))" "server_inv pf (snd (handle_nathole_resp en c y sr))" for x y
    using nathole_frame(1-4) [of "en_post en" "ct_run_id c" x sr] nathole_frame(7-10) [of "en_post en" "ct_run_id c" y sr]
    by (auto intro!: keep simp: handle_nathole_visitor_def handle_nathole_resp_def split: prod.splits sum.splits option.splits)
  show ?thesis
    using inv handle_new_proxy_inv [OF inv en c] close nat
    by (cases msg) (simp_all add: handle_message_def handle_ping_def verify_ping_def reply_def)
qed

lemma work_request_ident: "ident (fst (snd (handle_work_conn_request waits send req c mt))) = ident c"
  by (simp add: handle_work_conn_request_def ident_def Let_def split: sum.split)

lemma work_conn_ident: "ident (snd (handle_work_conn waits x c)) = ident c"
  by (simp add: handle_work_conn_def ident_def split: list.split)

lemma control_step_inv:
  assumes inv: "server_inv pf sr" and en: "env_ok en sr"
  shows "server_inv pf (snd (control_step pf en run_id ev sr))"
proof (cases "sr_sessions sr run_id")
  case (Some c)
  have m: "manager_inv (sr_pm sr)" using inv by (simp add: server_inv_def)
  have w: "server_inv pf (sr\<lparr>sr_sessions := (sr_sessions sr)(run_id \<mapsto> c'), sr_metrics := mt\<rparr>)" if "ident c' = ident c" for c' mt
    by (rule server_inv_same [OF inv same_sessions_update [OF Some that]]) (simp_all add: m)
  have "server_inv pf (snd (control_step pf en run_id (WorkRequest (Some req)) sr))" for req
    using w work_request_ident [of "en_waits en" "en_send en" req c "sr_metrics sr"] Some
    by (simp add: control_step_def case_prod_unfold)
  moreover have "server_inv pf (snd (control_step pf en run_id (Received (Inr (Some msg))) sr))" for msg
    using handle_message_inv [OF inv en Some, of msg] Some by (simp add: control_step_def case_prod_unfold)
  moreover have "snd (control_step pf en run_id ev sr) = sr"
    if "\<nexists>req. ev = WorkRequest (Some req)" "\<nexists>msg. ev = Received (Inr (Some msg))"
    using that Some by (auto simp: control_step_def split: control_event.splits sum.splits option.splits)
  ultimately show ?thesis using inv by metis
qed (simp add: control_step_def inv)

lemma login_begin_inv:
  assumes inv: "server_inv pf sr" and new: "sr_sessions sr run_id = None" "CHR '':'' \<notin> set run_id"
  shows "server_inv pf (snd (login_begin pf en run_id tx msg peer sr))"
proof -
  have m: "manager_inv (sr_pm sr)" using inv by (simp add: server_inv_def)
  have keep: "server_inv pf sr'" if "sr_sessions sr' = sr_sessions sr" "sr_controls sr' = sr_controls sr"
    "sr_auth sr' = sr_auth sr" "sr_pm sr' = sr_pm sr" for sr'
    by (rule server_inv_pm [OF inv m _ that]) simp
  have add: "server_inv pf (controls_add run_id c sr')"
    if "verify_login pf (sr_auth sr) now msg = Inr (ct_privilege_key c)" "lg_pool_count msg = ct_pool_count c"
      "ct_run_id c = run_id" "sr' = audit a sr" for c sr' now a
  proof -
    have li: "logged_in pf (controls_add run_id c sr') c"
      using that unfolding logged_in_def controls_add_def by auto
    have "authorised pf (controls_add run_id c sr') k r" if "authorised pf sr k r" for k r
      using that new(1) \<open>sr' = audit a sr\<close> unfolding authorised_def controls_add_def by fastforce
    moreover have "logged_in pf (controls_add run_id c sr') d" if "logged_in pf sr d" for d
      using that \<open>sr' = audit a sr\<close> by (simp add: logged_in_def controls_add_def)
    ultimately show ?thesis
      using inv li new(2) that(3,4) unfolding server_inv_def by (auto simp: controls_add_def split: if_splits)
  qed
  show ?thesis
    unfolding login_begin_def
    by (cases "verify_login pf (sr_auth sr) (en_now en) msg")
      (auto simp: Let_def control_new_def intro!: keep add split: sum.split)
qed

lemma proxy_key_prefix: "starts_with (proxy_key r name) (r @ '':'')"
  by (simp add: starts_with_def proxy_key_def)

lemma proxy_key_prefix_inj:
  assumes "starts_with (proxy_key r' name) (r @ '':'')" "CHR '':'' \<notin> set r" "CHR '':'' \<notin> set r'"
  shows "r' = r"
proof -
  have "r' @ '':'' @ name = r @ '':'' @ zs \<Longrightarrow> r' = r" for zs
    using assms(2,3) by (auto simp: append_eq_append_conv2 append_eq_Cons_conv Cons_eq_append_conv)
  with assms(1) show ?thesis by (auto simp: starts_with_def proxy_key_def prefix_def)
qed

lemma run_proxies_gone:
  assumes "manager_inv pm" "covers order pm" "set keys = dom (pm_proxies pm)"
  shows "manager_inv (unregister_run_proxies keys order run_id pm)"
    and "pm_proxies (unregister_run_proxies keys order run_id pm)
      = (\<lambda>k. if starts_with k (run_id @ '':'') then None else pm_proxies pm k)"
    and "pm_records (unregister_run_proxies keys order run_id pm) k = Some r \<Longrightarrow> pm_records pm k = Some r"
proof -
  note F = fold_remove_key [OF assms(1,2)]
  show "manager_inv (unregister_run_proxies keys order run_id pm)"
    by (simp add: unregister_run_proxies_def F)
  show "pm_proxies (unregister_run_proxies keys order run_id pm)
      = (\<lambda>k. if starts_with k (run_id @ '':'') then None else pm_proxies pm k)"
    using assms(3) by (auto simp: unregister_run_proxies_def F(2) fun_eq_iff)
  have "pm_records (fold (remove_key order) ks pm) k = Some r \<Longrightarrow> pm_records pm k = Some r" for ks
    using assms(1,2)
  proof (induction ks arbitrary: pm)
    case (Cons x ks)
    then have "pm_records (remove_key order x pm) k = Some r" by (simp add: remove_key_inv)
    with Cons.prems(2) show ?case by (auto simp: manager_inv_def split: if_splits)
  qed simp
  then show "pm_records (unregister_run_proxies keys order run_id pm) k = Some r \<Longrightarrow> pm_records pm k = Some r"
    by (simp add: unregister_run_proxies_def)
qed

lemma login_end_sel [simp]:
  "sr_pm (login_end en run_id c sr) = unregister_run_proxies (en_keys en) (en_domains en) run_id (sr_pm sr)"
  "sr_sessions (login_end en run_id c sr) = (sr_sessions sr)(run_id := None)"
  "sr_controls (login_end en run_id c sr) = sr_controls sr - {run_id}"
  "sr_auth (login_end en run_id c sr) = sr_auth sr"
  by (simp_all add: login_end_def controls_remove_def Let_def)

lemma login_end_inv:
  assumes inv: "server_inv pf sr" and en: "env_ok en sr"
  shows "server_inv pf (login_end en run_id c sr)"
proof -
  have m: "manager_inv (sr_pm sr)" using inv by (simp add: server_inv_def)
  note R = run_proxies_gone [OF m, of "en_domains en" "en_keys en" run_id] en [unfolded env_ok_def]
  have "authorised pf (login_end en run_id c sr) k r"
    if k: "pm_records (sr_pm (login_end en run_id c sr)) k = Some r" for k r
  proof -
    have a: "authorised pf sr k r" using R k inv unfolding server_inv_def by auto
    have "dom (pm_records (sr_pm (login_end en run_id c sr))) = dom (pm_proxies (sr_pm (login_end en run_id c sr)))"
      using R by (simp add: manager_inv_def)
    with k have "pm_proxies (sr_pm (login_end en run_id c sr)) k \<noteq> None" by blast
    then have "\<not> starts_with k (run_id @ '':'')" using R by (auto split: if_splits)
    moreover have "k = proxy_key (rec_run_id r) (rec_proxy_name r)" using a by (simp add: authorised_def)
    ultimately have "rec_run_id r \<noteq> run_id" using proxy_key_prefix by auto
    with a show ?thesis by (simp add: authorised_def)
  qed
  moreover have "logged_in pf (login_end en run_id c sr) = logged_in pf sr" by (simp add: logged_in_def fun_eq_iff)
  ultimately show ?thesis using inv R unfolding server_inv_def by (auto split: if_splits)
qed

lemma handle_new_work_conn_inv:
  assumes inv: "server_inv pf sr"
  shows "server_inv pf (snd (handle_new_work_conn pf en transport msg sr))"
proof -
  have m: "manager_inv (sr_pm sr)" using inv by (simp add: server_inv_def)
  have keep: "server_inv pf sr'" if "sr_sessions sr' = sr_sessions sr" "sr_controls sr' = sr_controls sr"
    "sr_auth sr' = sr_auth sr" "sr_pm sr' = sr_pm sr" for sr'
    by (rule server_inv_pm [OF inv m _ that]) simp
  have upd: "server_inv pf sr'" if "controls_get r sr = Some c" "sr_sessions sr' = (sr_sessions sr)(r \<mapsto> snd (handle_work_conn w x c))"
    "sr_controls sr' = sr_controls sr" "sr_auth sr' = sr_auth sr" "sr_pm sr' = sr_pm sr" for r c w x sr'
    by (rule server_inv_same [OF inv same_sessions_update [OF _ work_conn_ident]])
      (use that m in \<open>auto simp: controls_get_def split: if_splits\<close>)
  show ?thesis
  proof (cases "trim (nw_run_id msg) \<noteq> [] \<and> verify_new_work_conn pf (sr_auth sr) msg = Inr () \<and>
      (\<exists>c. controls_get (nw_run_id msg) sr = Some c)")
    case True
    then obtain c where c: "controls_get (nw_run_id msg) sr = Some c" by blast
    show ?thesis
      by (rule upd [OF c, where w = "en_waits en" and x = transport])
        (use True c in \<open>simp_all add: handle_new_work_conn_def Let_def case_prod_unfold\<close>)
  next
    case False
    then show ?thesis
      by (auto simp: handle_new_work_conn_def Let_def intro!: keep inv split: sum.split option.split)
  qed
qed

lemma server_step_inv: "server_step pf sr sr' \<Longrightarrow> server_inv pf sr \<Longrightarrow> server_inv pf sr'"
proof (induction rule: server_step.induct)
  case (login sr run_id en tx msg peer)
  then show ?case by (blast intro: login_begin_inv)
next
  case (event en sr run_id ev)
  then show ?case by (blast intro: control_step_inv)
next
  case (session_end en sr run_id c)
  then show ?case by (blast intro: login_end_inv)
next
  case (work_conn sr en transport msg)
  then show ?case by (blast intro: handle_new_work_conn_inv)
next
  case (admin_shutdown sr run_id)
  then have "manager_inv (sr_pm sr)" by (simp add: server_inv_def)
  then show ?case by (intro server_inv_same [OF admin_shutdown shutdown_run_same]) simp_all
next
  case (http_conn sr chunks fin pc)
  then have "manager_inv (sr_pm sr)" by (simp add: server_inv_def)
  from conn_inv [OF this, of _ pf chunks fin pc] show ?case
    by (intro server_inv_pm [OF http_conn]) auto
next
  case (https_conn sr stream pc)
  then have "manager_inv (sr_pm sr)" by (simp add: server_inv_def)
  from conn_inv [OF this, of _ pf _ _ pc stream] show ?case
    by (intro server_inv_pm [OF https_conn]) auto
next
  case (group_conn sr g t now relay later)
  then have "manager_inv (sr_pm sr)" by (simp add: server_inv_def)
  from group_conn_inv [OF this group_conn(1)] show ?case
    by (intro server_inv_pm [OF group_conn(2)]) auto
next
  case (listener_stopped vm sr)
  then have "manager_inv (sr_pm sr)" by (simp add: server_inv_def)
  from listener_stopped_inv [OF this listener_stopped(1)] show ?case
    by (intro server_inv_pm [OF listener_stopped(2)]) auto
qed

lemma service_new_inv: "service_new pf tls config = Inr sr \<Longrightarrow> server_inv pf sr"
  by (auto simp: service_new_def Let_def server_inv_def resource_new_def intro!: manager_new_inv
      split: sum.splits if_splits) (simp_all add: manager_new_def)

lemma server_reachable_inv: "server_reachable pf sr \<Longrightarrow> server_inv pf sr"
proof -
  assume "server_reachable pf sr"
  then obtain tls config sr0 where "service_new pf tls config = Inr sr0" "(server_step pf)\<^sup>*\<^sup>* sr0 sr"
    unfolding server_reachable_def by blast
  from this(2,1) show ?thesis
    by (induction rule: rtranclp_induct) (blast intro: service_new_inv server_step_inv)+
qed

subsection \<open>Properties\<close>

lemma service_reachable: "service_new pf tls config = Inr sr \<Longrightarrow> server_reachable pf sr"
  unfolding server_reachable_def by blast

lemma server_reachable_step: "server_reachable pf sr \<Longrightarrow> server_step pf sr sr' \<Longrightarrow> server_reachable pf sr'"
  unfolding server_reachable_def by (meson rtranclp.rtrancl_into_rtrancl)

text \<open>A server that one client has logged in to and registered a proxy on.\<close>

definition demo_config :: server_config where
  "demo_config = demo_server_config\<lparr>srv_auth :=
     \<lparr>ac_method = ''token'', ac_token = ''t'', ac_additional_tokens = [], ac_rules = [], ac_oidc = oidc_default\<rparr>\<rparr>"

definition demo_sr0 :: server where
  "demo_sr0 = \<lparr>sr_config = demo_config, sr_auth = demo_auth, sr_sessions = Map.empty, sr_controls = {},
     sr_pm = demo_manager, sr_pending = Map.empty, sr_events = [], sr_metrics = metrics_new, sr_audit = []\<rparr>"

definition demo_en :: env where
  "demo_en = demo_env\<lparr>en_controls := [''u1''], en_keys := []\<rparr>"

definition demo_sr1 :: server where
  "demo_sr1 = snd (login_begin demo_platform demo_en ''u1'' 0
     (demo_login 7 (sign demo_platform ''t'' (show_int 7))) ''198.51.100.7:40000'' demo_sr0)"

definition demo_sr2 :: server where
  "demo_sr2 = snd (control_step demo_platform demo_en ''u1'' (Received (Inr (Some (NewProxy (demo_msg ''web'' ''tcp'' 18080))))) demo_sr1)"

lemma demo_sr1_eq:
  "\<exists>c. ct_run_id c = ''u1'' \<and> ct_privilege_key c = ''t'' \<and> ct_pool_count c = 0 \<and> ct_work_conn_req_tx c = 0 \<and>
     sr_sessions demo_sr1 = [''u1'' \<mapsto> c]"
  "sr_controls demo_sr1 = {''u1''}" "sr_pm demo_sr1 = demo_manager" "sr_auth demo_sr1 = demo_auth"
proof -
  have l: "verify_login demo_platform (sr_auth demo_sr0) (en_now demo_en)
      (demo_login 7 (sign demo_platform ''t'' (show_int 7))) = Inr ''t''"
    using demo_login_ok by (simp add: demo_sr0_def demo_en_def demo_env_def)
  show "\<exists>c. ct_run_id c = ''u1'' \<and> ct_privilege_key c = ''t'' \<and> ct_pool_count c = 0 \<and> ct_work_conn_req_tx c = 0 \<and>
     sr_sessions demo_sr1 = [''u1'' \<mapsto> c]"
    unfolding demo_sr1_def login_begin_def l
    by (simp add: demo_en_def demo_env_def controls_add_def demo_sr0_def control_new_def demo_login_def)
      (rule exI, intro conjI, rule_tac [5] refl, simp_all)
  show "sr_controls demo_sr1 = {''u1''}" "sr_pm demo_sr1 = demo_manager" "sr_auth demo_sr1 = demo_auth"
    unfolding demo_sr1_def login_begin_def l
    by (simp_all add: demo_en_def demo_env_def controls_add_def demo_sr0_def control_new_def demo_login_def)
qed

lemma demo_sr2_eq:
  "sr_sessions demo_sr2 = sr_sessions demo_sr1" "sr_controls demo_sr2 = {''u1''}"
  "dom (pm_proxies (sr_pm demo_sr2)) = {''u1:web''}" "covers [] (sr_pm demo_sr2)"
proof -
  obtain c where c: "ct_run_id c = ''u1''" "ct_privilege_key c = ''t''" "ct_pool_count c = 0" "ct_work_conn_req_tx c = 0"
    "sr_sessions demo_sr1 = [''u1'' \<mapsto> c]" using demo_sr1_eq(1) by blast
  have t: "take_over demo_en c ''web'' demo_sr1 = Inr demo_sr1"
    by (simp add: take_over_def find_proxy_owner_def List.map_filter_simps demo_en_def controls_get_def
        demo_sr1_eq c demo_manager_def manager_new_def)
  have a: "authorize_proxy demo_platform demo_auth ''t'' 0 msg = Inr ()" for msg
    by (simp add: authorize_proxy_Inr known_def demo_auth_def token_allows_def matching_rule_def)
  have name: "np_proxy_name (demo_msg ''web'' ''tcp'' 18080) = ''web''" by (simp add: demo_msg_def)
  have os: "en_os demo_en = demo_os" by (simp add: demo_en_def demo_env_def)
  obtain addr pm where reg: "register_proxy demo_platform demo_os ''u1'' (demo_msg ''web'' ''tcp'' 18080) 0 demo_manager
      = (Inr addr, pm)" and pm: "dom (pm_proxies pm) = {''u1:web''}" "covers [] pm"
    by (simp add: demo_eval covers_def)
  have "sr_sessions demo_sr2 = sr_sessions demo_sr1 \<and> sr_controls demo_sr2 = sr_controls demo_sr1 \<and> sr_pm demo_sr2 = pm"
    unfolding demo_sr2_def control_step_def c(5) handle_message_def
    by (simp add: handle_new_proxy_def Let_def name t demo_sr1_eq c a os reply_def case_prod_unfold reg)
  with pm show "sr_sessions demo_sr2 = sr_sessions demo_sr1" "sr_controls demo_sr2 = {''u1''}"
    "dom (pm_proxies (sr_pm demo_sr2)) = {''u1:web''}" "covers [] (sr_pm demo_sr2)"
    by (simp_all add: demo_sr1_eq)
qed

lemma demo_sr0_reachable: "server_reachable demo_platform demo_sr0"
  by (rule service_reachable [of _ "\<lambda>_. Inr ()" demo_config])
    (simp add: service_new_def create_authenticator_def demo_sr0_def demo_manager_def demo_config_def
      demo_server_config_def resource_new_def transport_default_def tls_default_def token_auth_new_def demo_auth_def)

lemma demo_sr2_reachable: "server_reachable demo_platform demo_sr2"
proof -
  have 1: "server_reachable demo_platform demo_sr1" unfolding demo_sr1_def
    by (rule server_reachable_step [OF demo_sr0_reachable server_step.login]) (simp_all add: demo_sr0_def)
  have "env_ok demo_en demo_sr1"
    by (simp add: env_ok_def demo_en_def demo_env_def demo_sr1_eq covers_def demo_manager_def manager_new_def vhost_new_def)
  then show ?thesis unfolding demo_sr2_def
    by (rule server_reachable_step [OF 1 server_step.event])
qed

lemma live_proxy:
  assumes "server_inv pf sr" "pm_proxies (sr_pm sr) k = Some p"
  obtains r where "pm_records (sr_pm sr) k = Some r" "authorised pf sr k r"
proof -
  have "k \<in> dom (pm_records (sr_pm sr))" using assms unfolding server_inv_def manager_inv_def by blast
  then obtain r where "pm_records (sr_pm sr) k = Some r" by blast
  with assms(1) that show thesis unfolding server_inv_def by blast
qed





text \<open>
  C3: The end of a session is exact: all its proxies are removed and its entry is gone from the table of
  sessions, while the proxies, the records and the entries of all other sessions stay as they were.
\<close>

theorem session_end_exact:
  assumes "server_reachable pf sr" and "env_ok en sr" and "sr_sessions sr run_id = Some c"
    and "sr' = login_end en run_id c sr"
  shows "(\<forall>name. pm_proxies (sr_pm sr') (proxy_key run_id name) = None) \<and>
    controls_get run_id sr' = None \<and>
    (\<forall>r name. r \<noteq> run_id \<and> sr_sessions sr r \<noteq> None \<longrightarrow>
       pm_proxies (sr_pm sr') (proxy_key r name) = pm_proxies (sr_pm sr) (proxy_key r name) \<and>
       controls_get r sr' = controls_get r sr)"
proof -
  note inv = server_reachable_inv [OF assms(1)]
  have m: "manager_inv (sr_pm sr)" using inv by (simp add: server_inv_def)
  have P: "pm_proxies (sr_pm sr') = (\<lambda>k. if starts_with k (run_id @ '':'') then None else pm_proxies (sr_pm sr) k)"
    using run_proxies_gone(2) [OF m] assms(2,4) by (simp add: env_ok_def)
  have "\<not> starts_with (proxy_key r name) (run_id @ '':'')" if "r \<noteq> run_id" "sr_sessions sr r \<noteq> None" for r name
    using proxy_key_prefix_inj [of r name run_id] that inv assms(3) unfolding server_inv_def by blast
  moreover have "controls_get r sr' = (if r = run_id then None else controls_get r sr)" for r
    by (simp add: assms(4) controls_get_def)
  ultimately show ?thesis by (auto simp: P proxy_key_prefix)
qed

theorem session_end_exact_witness:
  "\<exists>c en. sr_sessions demo_sr2 ''u1'' = Some c \<and>
     pm_proxies (sr_pm (login_end en ''u1'' c demo_sr2)) (proxy_key ''u1'' ''web'') = None"
proof -
  obtain c where c: "sr_sessions demo_sr2 ''u1'' = Some c" using demo_sr1_eq(1) demo_sr2_eq(1) by auto
  define en where "en = demo_en\<lparr>en_keys := [''u1:web'']\<rparr>"
  have "env_ok en demo_sr2"
    using demo_sr2_eq by (simp add: en_def env_ok_def demo_en_def demo_env_def)
  from session_end_exact [OF demo_sr2_reachable this c refl] c show ?thesis by blast
qed

text \<open>
  A visitor of a secret proxy needs the secret: a work connection is requested, and then once and
  from the owner of the proxy, exactly if the proxy is registered, the signature is the HMAC of the
  timestamp under the registered secret, and the difference of the clocks passes the 300 second check.
\<close>

theorem stcp_visitor_exact:
  "snd (handle_stcp_visitor_conn pf now answered start msg peer sr) =
     (case get_stcp_info (sv_proxy_name msg) (sr_pm sr) of
        None \<Rightarrow> []
      | Some info \<Rightarrow>
          if sv_sk_signature msg = sign pf (si_sk info) (show_int (sint (sv_timestamp msg))) \<and>
             sint (i64_abs (now - sv_timestamp msg)) \<le> 300
          then [(si_work_conn_req_tx info, sv_proxy_name msg)] else []) \<and>
   (snd (handle_stcp_visitor_conn pf now answered start msg peer sr) = [] \<longrightarrow>
     (\<exists>e. fst (handle_stcp_visitor_conn pf now answered start msg peer sr) = Inl e))"
  by (auto simp: handle_stcp_visitor_conn_def verify_iff split: option.splits)

theorem stcp_visitor_exact_witness:
  "\<exists>e. fst (handle_stcp_visitor_conn demo_platform 100 (Granted 1) (\<lambda>_ _. Inr ())
     \<lparr>sv_proxy_name = ''db'', sv_sk_signature = [], sv_timestamp = 100\<rparr> ''peer'' demo_sr0) = Inl e"
  using stcp_visitor_exact [of demo_platform 100 "Granted 1" "\<lambda>_ _. Inr ()"
      "\<lparr>sv_proxy_name = ''db'', sv_sk_signature = [], sv_timestamp = 100\<rparr>" "''peer''" demo_sr0]
  by (simp add: get_stcp_info_def demo_sr0_def demo_manager_def manager_new_def)

text \<open>
  C27: A work connection reaches a session only if its key is the HMAC of the session's run id under a
  configured token (any of them, not necessarily the one the session logged in with) and the session
  is in the table; it then changes no other session.
\<close>

theorem work_conn_authenticated:
  assumes "handle_new_work_conn pf en transport msg sr = ((r, effs), sr')"
    and "r = Inr () \<or> effs \<noteq> [] \<or> sr_sessions sr' \<noteq> sr_sessions sr"
  shows "\<exists>t. t \<in> set (known (sr_auth sr)) \<and> nw_privilege_key msg = sign pf t (nw_run_id msg) \<and>
    controls_get (nw_run_id msg) sr \<noteq> None \<and>
    (\<forall>other. other \<noteq> nw_run_id msg \<longrightarrow> sr_sessions sr' other = sr_sessions sr other)"
proof (cases "verify_new_work_conn pf (sr_auth sr) msg")
  case (Inl e)
  with assms show ?thesis by (auto simp: handle_new_work_conn_def Let_def split: if_splits)
next
  case (Inr u)
  then obtain t where "find_matching_token pf (sr_auth sr) (nw_privilege_key msg) (nw_run_id msg) = Some t"
    by (auto simp: verify_new_work_conn_def split: option.splits)
  from find_matching_token_Some [OF this] assms Inr show ?thesis
    by (auto simp: handle_new_work_conn_def Let_def split: if_splits option.splits prod.splits)
qed

theorem work_conn_authenticated_witness:
  "\<exists>t. t \<in> set (known demo_auth) \<and> sign demo_platform ''t'' ''u1'' = sign demo_platform t ''u1''"
proof -
  let ?m = "\<lparr>nw_run_id = ''u1'', nw_privilege_key = sign demo_platform ''t'' ''u1''\<rparr>"
  obtain c where c: "sr_sessions demo_sr1 = [''u1'' \<mapsto> c]" using demo_sr1_eq(1) by blast
  have "find_matching_token demo_platform demo_auth (sign demo_platform ''t'' ''u1'') ''u1'' = Some ''t''"
    by (simp add: find_matching_token_def demo_auth_def verify_iff)
  then have v: "verify_new_work_conn demo_platform (sr_auth demo_sr1) ?m = Inr ()"
    by (simp add: verify_new_work_conn_def demo_sr1_eq)
  have "trim ''u1'' = ''u1''" by (simp add: trim_visible visible_def ws_seqs_def)
  then have "sr_sessions (snd (handle_new_work_conn demo_platform demo_en 7 ?m demo_sr1)) \<noteq> sr_sessions demo_sr1 \<or>
      fst (fst (handle_new_work_conn demo_platform demo_en 7 ?m demo_sr1)) = Inr () \<or>
      snd (fst (handle_new_work_conn demo_platform demo_en 7 ?m demo_sr1)) \<noteq> []"
    using v by (simp add: handle_new_work_conn_def Let_def controls_get_def c demo_sr1_eq handle_work_conn_def
        demo_en_def demo_env_def split: list.split)
  with work_conn_authenticated [of demo_platform demo_en 7 ?m demo_sr1] show ?thesis
    by (simp add: demo_sr1_eq) (metis prod.collapse)
qed

end
