(* ===== verification/Tunnels.thy ===== *)
theory Tunnels
  imports Frames Crypto Relay WorkConn Metrics
begin

text \<open>
  The public side of TCP and UDP proxies on the server: the accept loop, plain connections, and the
  tunnels that share one work connection among many public connections (\<^verbatim>\<open>MuxTunnel\<close> of
  \<^verbatim>\<open>arp-server/src/proxy/tcp.rs\<close>) or packets (\<^verbatim>\<open>UdpTunnel\<close> of \<^verbatim>\<open>udp.rs\<close>).

  A tunnel's frame channel is the list of the frames it accepted, in order: the writer task takes them
  from there and writes them one after the other. It refuses frames once that task has ended.
\<close>

subsection \<open>Accepting connections\<close>

definition is_transient_accept_error :: "io_error \<Rightarrow> bool" where
  "is_transient_accept_error e \<longleftrightarrow>
     io_kind e \<in> {WouldBlock, Interrupted} \<or> io_os e \<in> {Some 23, Some 24}"

definition next_backoff :: "u64 \<Rightarrow> u64" where
  "next_backoff backoff_ms = (if backoff_ms = 0 then 10 else min (backoff_ms * 2) 1000)"

datatype accept_event = Accepted string | AcceptFailed io_error | ShutdownSignal

datatype accept_action = Serve string | Sleep u64

text \<open>What the loop does, and whether it has ended: a fatal error or the shutdown signal ends it.\<close>

fun tcp_accept_loop :: "u64 \<Rightarrow> accept_event list \<Rightarrow> accept_action list \<times> bool" where
  "tcp_accept_loop backoff_ms [] = ([], False)"
| "tcp_accept_loop backoff_ms (Accepted addr # evs) =
     (let (acts, ended) = tcp_accept_loop 0 evs in (Serve addr # acts, ended))"
| "tcp_accept_loop backoff_ms (AcceptFailed e # evs) =
     (if is_transient_accept_error e then
        let backoff_ms = next_backoff backoff_ms;
            (acts, ended) = tcp_accept_loop backoff_ms evs
        in (Sleep backoff_ms # acts, ended)
      else ([], True))"
| "tcp_accept_loop backoff_ms (ShutdownSignal # evs) = ([], True)"

subsection \<open>Plain connections\<close>

type_synonym counters = "metrics \<times> proxy_metrics_map"

definition connection_opened :: "string \<Rightarrow> proxy_metrics_map \<Rightarrow> proxy_metrics_map" where
  "connection_opened name =
     with_proxy_metrics name (\<lambda>x. x\<lparr>pmt_connections_total := pmt_connections_total x + 1,
       pmt_connections_active := pmt_connections_active x + 1\<rparr>)"

definition connection_done :: "string \<Rightarrow> proxy_metrics_map \<Rightarrow> proxy_metrics_map" where
  "connection_done name = with_proxy_metrics name (\<lambda>x. x\<lparr>pmt_connections_active := pmt_connections_active x - 1\<rparr>)"

definition count_in :: "string \<Rightarrow> u64 \<Rightarrow> counters \<Rightarrow> counters" where
  "count_in name n = (\<lambda>(mt, pm).
     (add_tcp_bytes_in n mt, with_proxy_metrics name (\<lambda>x. x\<lparr>pmt_bytes_in := pmt_bytes_in x + n\<rparr>) pm))"

definition count_out :: "string \<Rightarrow> u64 \<Rightarrow> counters \<Rightarrow> counters" where
  "count_out name n = (\<lambda>(mt, pm).
     (add_tcp_bytes_out n mt, with_proxy_metrics name (\<lambda>x. x\<lparr>pmt_bytes_out := pmt_bytes_out x + n\<rparr>) pm))"

text \<open>
  \<open>relay\<close> and \<open>copy\<close> are what becomes of the encrypted relay and of \<^verbatim>\<open>tokio::io::copy_bidirectional\<close> on
  the work connection: the numbers of bytes moved in both directions, or an error.
\<close>

definition handle_plain_client_connection ::
  "(conn \<Rightarrow> message \<Rightarrow> unit result) \<Rightarrow> (conn \<Rightarrow> (u64 \<times> u64) result) \<Rightarrow> (conn \<Rightarrow> (u64 \<times> u64) result) \<Rightarrow>
   string \<Rightarrow> u16 \<Rightarrow> work_reply \<Rightarrow> bool \<Rightarrow> counters \<Rightarrow> unit result \<times> counters" where
  "handle_plain_client_connection send relay copy proxy_name remote_port reply stcp = (\<lambda>(mt, pm).
     let mt = inc_tcp_proxy_connections mt; pm = connection_opened proxy_name pm in
     case request_work_transport send proxy_name remote_port reply of
       Inl e \<Rightarrow> (Inl e, mt, pm)
     | Inr work_transport \<Rightarrow>
         (case (if stcp then relay work_transport else copy work_transport) of
            Inl e \<Rightarrow> (Inl e, mt, pm)
          | Inr (bytes_in, bytes_out) \<Rightarrow>
              let (mt, pm) = count_out proxy_name bytes_out (count_in proxy_name bytes_in (mt, pm))
              in (Inr (), mt, connection_done proxy_name pm)))"

subsection \<open>Multiplexed connections\<close>

record mux_tunnel =
  mx_frames :: "mux_frame list"
  mx_closed :: bool
  mx_streams :: "u32 \<rightharpoonup> chan"
  mx_next_stream_id :: u32

definition mux_tunnel_new :: mux_tunnel where
  "mux_tunnel_new = \<lparr>mx_frames = [], mx_closed = False, mx_streams = Map.empty, mx_next_stream_id = 1\<rparr>"

definition is_alive :: "mux_tunnel \<Rightarrow> bool" where
  "is_alive t \<longleftrightarrow> \<not> mx_closed t"

definition mux_send :: "mux_frame \<Rightarrow> mux_tunnel \<Rightarrow> unit result \<times> mux_tunnel" where
  "mux_send frame t =
     (if mx_closed t then (Inl (Transport ''tcp_mux frame channel closed''), t)
      else (Inr (), t\<lparr>mx_frames := mx_frames t @ [frame]\<rparr>))"

text \<open>\<open>tx\<close> is the new channel on which the stream receives its data.\<close>

definition open_stream :: "chan \<Rightarrow> mux_tunnel \<Rightarrow> u32 result \<times> mux_tunnel" where
  "open_stream tx t =
     (let stream_id = mx_next_stream_id t;
          t = t\<lparr>mx_next_stream_id := stream_id + 1, mx_streams := (mx_streams t)(stream_id \<mapsto> tx)\<rparr>
      in case mux_send (Open stream_id) t of
           (Inl e, t) \<Rightarrow> (Inl e, t)
         | (Inr _, t) \<Rightarrow> (Inr stream_id, t))"

definition send_data :: "u32 \<Rightarrow> bytes \<Rightarrow> mux_tunnel \<Rightarrow> unit result \<times> mux_tunnel" where
  "send_data stream_id payload t = mux_send (Data stream_id payload) t"

definition close_stream :: "u32 \<Rightarrow> mux_tunnel \<Rightarrow> mux_tunnel" where
  "close_stream stream_id t =
     snd (mux_send (Close stream_id) (t\<lparr>mx_streams := (mx_streams t)(stream_id := None)\<rparr>))"

text \<open>
  The reader task, frame by frame. \<open>listens\<close> tells which channels still have a receiver; the result is
  the data put on channels.
\<close>

fun mux_reader_frame :: "(chan \<Rightarrow> bool) \<Rightarrow> mux_frame \<Rightarrow> mux_tunnel \<Rightarrow> (chan \<times> bytes) list \<times> mux_tunnel" where
  "mux_reader_frame listens (Data stream_id payload) t =
     (case mx_streams t stream_id of
        Some tx \<Rightarrow>
          if listens tx then ([(tx, payload)], t)
          else ([], t\<lparr>mx_streams := (mx_streams t)(stream_id := None)\<rparr>)
      | None \<Rightarrow> ([], snd (mux_send (Close stream_id) t)))"
| "mux_reader_frame listens (Close stream_id) t =
     ([], t\<lparr>mx_streams := (mx_streams t)(stream_id := None)\<rparr>)"
| "mux_reader_frame listens mux_frame.Ping t = ([], snd (mux_send mux_frame.Pong t))"
| "mux_reader_frame listens mux_frame.Pong t = ([], t)"
| "mux_reader_frame listens (Open stream_id) t = ([], t)"

definition mux_reader_end :: "mux_tunnel \<Rightarrow> mux_tunnel" where
  "mux_reader_end t = t\<lparr>mx_streams := Map.empty\<rparr>"

text \<open>
  The tunnel of the proxy, made on a new work connection when there is none or when its work connection
  has died. The proxy and its connections share it, so every operation on it updates the proxy's field.
\<close>

definition get_or_create_mux_tunnel ::
  "(conn \<Rightarrow> message \<Rightarrow> unit result) \<Rightarrow> string \<Rightarrow> u16 \<Rightarrow> work_reply \<Rightarrow> mux_tunnel option \<Rightarrow>
   mux_tunnel result \<times> mux_tunnel option" where
  "get_or_create_mux_tunnel send proxy_name remote_port reply holder =
     (let reconnect =
            (case request_work_transport send proxy_name remote_port reply of
               Inl e \<Rightarrow> (Inl e, None)
             | Inr work_transport \<Rightarrow> (Inr mux_tunnel_new, Some mux_tunnel_new))
      in case holder of
           Some tunnel \<Rightarrow> if is_alive tunnel then (Inr tunnel, holder) else reconnect
         | None \<Rightarrow> reconnect)"

text \<open>
  The two halves of \<^verbatim>\<open>relay_mux_stream\<close>. The public connection delivers \<open>reads\<close> and then end of file or an
  error; \<open>inbound\<close> is what the stream's channel receives.
\<close>

fun relay_mux_reads ::
  "string \<Rightarrow> u32 \<Rightarrow> bytes list \<Rightarrow> io_error option \<Rightarrow> mux_tunnel \<Rightarrow> counters \<Rightarrow>
   (unit result \<times> mux_tunnel) \<times> counters" where
  "relay_mux_reads name stream_id [] (Some e) t ctrs = ((Inl (Io e), t), ctrs)"
| "relay_mux_reads name stream_id [] None t ctrs = ((Inr (), close_stream stream_id t), ctrs)"
| "relay_mux_reads name stream_id (buf # reads) fin t ctrs =
     (let ctrs = count_in name (word_of_nat (length buf)) ctrs in
      case send_data stream_id buf t of
        (Inl e, t) \<Rightarrow> ((Inl e, t), ctrs)
      | (Inr _, t) \<Rightarrow> relay_mux_reads name stream_id reads fin t ctrs)"

fun relay_mux_writes :: "string \<Rightarrow> bytes list \<Rightarrow> sink \<Rightarrow> counters \<Rightarrow> sink \<times> counters" where
  "relay_mux_writes name [] w ctrs = (w, ctrs)"
| "relay_mux_writes name (buf # inbound) w ctrs =
     (let ctrs = count_out name (word_of_nat (length buf)) ctrs in
      case write_all buf w of
        (Inl _, w) \<Rightarrow> (w, ctrs)
      | (Inr _, w) \<Rightarrow> relay_mux_writes name inbound w ctrs)"

definition handle_mux_client_connection ::
  "(conn \<Rightarrow> message \<Rightarrow> unit result) \<Rightarrow> string \<Rightarrow> u16 \<Rightarrow> work_reply \<Rightarrow> chan \<Rightarrow> bytes list \<Rightarrow> io_error option \<Rightarrow>
   bytes list \<Rightarrow> sink \<Rightarrow> mux_tunnel option \<Rightarrow> counters \<Rightarrow> (unit result \<times> sink) \<times> mux_tunnel option \<times> counters" where
  "handle_mux_client_connection send proxy_name remote_port reply tx reads fin inbound w holder ctrs =
     (case get_or_create_mux_tunnel send proxy_name remote_port reply holder of
        (Inl e, holder) \<Rightarrow> ((Inl e, w), holder, ctrs)
      | (Inr tunnel, _) \<Rightarrow>
          (case open_stream tx tunnel of
             (Inl e, tunnel) \<Rightarrow> ((Inl e, w), Some tunnel, ctrs)
           | (Inr stream_id, tunnel) \<Rightarrow>
               let (mt, pm) = ctrs;
                   ctrs = (inc_tcp_mux_streams (inc_tcp_proxy_connections mt), connection_opened proxy_name pm);
                   (w, ctrs) = relay_mux_writes proxy_name inbound w ctrs;
                   ((r, tunnel), ctrs) = relay_mux_reads proxy_name stream_id reads fin tunnel ctrs;
                   (mt, pm) = ctrs
               in ((r, w), Some tunnel, (mt, connection_done proxy_name pm))))"

text \<open>What the accept loop spawns for a connection: an error is counted.\<close>

definition tcp_serve ::
  "bool \<Rightarrow> (counters \<Rightarrow> unit result \<times> counters) \<Rightarrow> (counters \<Rightarrow> unit result \<times> counters) \<Rightarrow> counters \<Rightarrow> counters" where
  "tcp_serve tcp_mux mux plain ctrs =
     (case (if tcp_mux then mux ctrs else plain ctrs) of
        (Inl _, mt, pm) \<Rightarrow> (inc_tcp_proxy_errors mt, pm)
      | (Inr _, ctrs) \<Rightarrow> ctrs)"

subsection \<open>UDP packets\<close>

record udp_tunnel =
  ut_frames :: "udp_mux_frame list"
  ut_closed :: bool
  ut_pending :: "u32 \<rightharpoonup> chan"
  ut_next_request_id :: u32

definition udp_tunnel_new :: udp_tunnel where
  "udp_tunnel_new = \<lparr>ut_frames = [], ut_closed = False, ut_pending = Map.empty, ut_next_request_id = 1\<rparr>"

text \<open>The first half of \<^verbatim>\<open>UdpTunnel::roundtrip\<close>; \<open>tx\<close> is the channel the answer will come on.\<close>

definition roundtrip_send :: "chan \<Rightarrow> string \<Rightarrow> bytes \<Rightarrow> udp_tunnel \<Rightarrow> unit result \<times> udp_tunnel" where
  "roundtrip_send tx src_addr payload t =
     (let request_id = ut_next_request_id t;
          t = t\<lparr>ut_next_request_id := request_id + 1, ut_pending := (ut_pending t)(request_id \<mapsto> tx)\<rparr>
      in if ut_closed t
         then (Inl (Transport ''udp mux frame channel closed''),
               t\<lparr>ut_pending := (ut_pending t)(request_id := None)\<rparr>)
         else (Inr (), t\<lparr>ut_frames := ut_frames t @ [Req request_id src_addr payload]\<rparr>))"

datatype udp_reply = NoAnswer | AnswerDropped | Answer bytes

fun roundtrip_wait :: "udp_reply \<Rightarrow> bytes result" where
  "roundtrip_wait NoAnswer = Inl (Timeout ''udp mux response timeout'')"
| "roundtrip_wait AnswerDropped = Inl (Transport ''udp mux response channel closed'')"
| "roundtrip_wait (Answer payload) = Inr payload"

fun udp_reader_frame :: "udp_mux_frame \<Rightarrow> udp_tunnel \<Rightarrow> (chan \<times> bytes) list \<times> udp_tunnel" where
  "udp_reader_frame (Resp request_id payload) t =
     (case ut_pending t request_id of
        Some tx \<Rightarrow> ([(tx, payload)], t\<lparr>ut_pending := (ut_pending t)(request_id := None)\<rparr>)
      | None \<Rightarrow> ([], t))"
| "udp_reader_frame UdpPing t =
     ([], if ut_closed t then t else t\<lparr>ut_frames := ut_frames t @ [UdpPong]\<rparr>)"
| "udp_reader_frame UdpPong t = ([], t)"
| "udp_reader_frame (Req request_id src payload) t = ([], t)"

definition udp_reader_end :: "udp_tunnel \<Rightarrow> udp_tunnel" where
  "udp_reader_end t = t\<lparr>ut_pending := Map.empty\<rparr>"

definition get_or_create_udp_tunnel ::
  "(conn \<Rightarrow> message \<Rightarrow> unit result) \<Rightarrow> string \<Rightarrow> u16 \<Rightarrow> work_reply \<Rightarrow> udp_tunnel option \<Rightarrow>
   udp_tunnel result \<times> udp_tunnel option" where
  "get_or_create_udp_tunnel send proxy_name remote_port reply holder =
     (case holder of
        Some tunnel \<Rightarrow> (Inr tunnel, holder)
      | None \<Rightarrow>
          (case request_udp_work_conn send proxy_name remote_port reply of
             Inl e \<Rightarrow> (Inl e, None)
           | Inr work_transport \<Rightarrow> (Inr udp_tunnel_new, Some udp_tunnel_new)))"

text \<open>
  Packets are compressed, then encrypted, on the way to the client (the client does the same with its
  answers, see \<^verbatim>\<open>arp-client/src/proxy/udp.rs\<close>), and taken apart in the reverse order.
\<close>

definition encode_packet :: "platform \<Rightarrow> bool \<Rightarrow> bool \<Rightarrow> string \<Rightarrow> bytes \<Rightarrow> bytes \<Rightarrow> bytes result" where
  "encode_packet pf use_compression use_encryption secret nonce packet =
     (case (if use_compression then compress pf packet else Inr packet) of
        Inl e \<Rightarrow> Inl e
      | Inr encoded \<Rightarrow> if use_encryption then packet_encrypt pf nonce encoded secret else Inr encoded)"

definition decode_packet :: "platform \<Rightarrow> bool \<Rightarrow> bool \<Rightarrow> string \<Rightarrow> bytes \<Rightarrow> bytes result" where
  "decode_packet pf use_compression use_encryption secret data =
     (case (if use_encryption then packet_decrypt pf data secret else Inr data) of
        Inl e \<Rightarrow> Inl e
      | Inr decoded \<Rightarrow> if use_compression then decompress pf decoded else Inr decoded)"

text \<open>
  A packet from \<open>src_addr\<close>: what is put on the tunnel, and then, with the answer, what is sent back.
\<close>

definition udp_packet_begin ::
  "platform \<Rightarrow> (conn \<Rightarrow> message \<Rightarrow> unit result) \<Rightarrow> bool \<Rightarrow> bool \<Rightarrow> string \<Rightarrow> bytes \<Rightarrow> string \<Rightarrow> u16 \<Rightarrow> work_reply \<Rightarrow>
   chan \<Rightarrow> bytes \<Rightarrow> string \<Rightarrow> udp_tunnel option \<Rightarrow> unit result \<times> udp_tunnel option" where
  "udp_packet_begin pf send use_compression use_encryption secret nonce proxy_name remote_port reply tx packet
     src_addr holder =
     (case encode_packet pf use_compression use_encryption secret nonce packet of
        Inl e \<Rightarrow> (Inl e, holder)
      | Inr encoded \<Rightarrow>
          (case get_or_create_udp_tunnel send proxy_name remote_port reply holder of
             (Inl e, holder) \<Rightarrow> (Inl e, holder)
           | (Inr tunnel, _) \<Rightarrow>
               (case roundtrip_send tx src_addr encoded tunnel of (r, tunnel) \<Rightarrow> (r, Some tunnel))))"

definition udp_packet_end ::
  "platform \<Rightarrow> (bytes \<Rightarrow> io_error option) \<Rightarrow> bool \<Rightarrow> bool \<Rightarrow> string \<Rightarrow> udp_reply \<Rightarrow> bytes result" where
  "udp_packet_end pf send_to use_compression use_encryption secret answer =
     (case roundtrip_wait answer of
        Inl e \<Rightarrow> Inl e
      | Inr resp \<Rightarrow>
          (case decode_packet pf use_compression use_encryption secret resp of
             Inl e \<Rightarrow> Inl e
           | Inr decoded \<Rightarrow>
               (case send_to decoded of Some e \<Rightarrow> Inl (Io e) | None \<Rightarrow> Inr decoded)))"

text \<open>The loop over the public socket: every packet is handled by a task of its own, errors are logged.\<close>

datatype udp_event = Packet bytes string | RecvError io_error | UdpShutdown

fun udp_recv_loop :: "udp_event list \<Rightarrow> (bytes \<times> string) list \<times> bool" where
  "udp_recv_loop [] = ([], False)"
| "udp_recv_loop (Packet packet src_addr # evs) =
     (let (ps, ended) = udp_recv_loop evs in ((packet, src_addr) # ps, ended))"
| "udp_recv_loop (RecvError e # evs) = udp_recv_loop evs"
| "udp_recv_loop (UdpShutdown # evs) = ([], True)"

subsection \<open>The accept loop\<close>

definition nth_backoff :: "nat \<Rightarrow> nat" where
  "nth_backoff n = (if n = 0 then 0 else min (10 * 2 ^ (n - 1)) 1000)"

lemma next_backoff_unat:
  "unat b \<le> 1000 \<Longrightarrow> unat (next_backoff b) = (if b = 0 then 10 else min (2 * unat b) 1000)"
proof -
  assume b: "unat b \<le> 1000"
  then have "unat (b * 2) = 2 * unat b" by (simp add: unat_mult_lem [THEN iffD1] mult.commute)
  then show ?thesis by (simp add: next_backoff_def min_def word_le_nat_alt)
qed

lemma nth_backoff_step:
  assumes "unat b = nth_backoff n"
  shows "unat (next_backoff b) = nth_backoff (Suc n)"
proof -
  have "unat b \<le> 1000" using assms by (simp add: nth_backoff_def)
  moreover have "b = 0 \<longleftrightarrow> n = 0" using assms by (cases "n = 0") (auto simp: nth_backoff_def min_def word_unat_eq_iff split: if_splits)
  ultimately show ?thesis using assms
    by (cases n) (auto simp: next_backoff_unat nth_backoff_def min_def)
qed

lemma accept_errors:
  assumes "list_all is_transient_accept_error es" "unat b = nth_backoff n"
  shows "\<exists>bs. tcp_accept_loop b (map AcceptFailed es @ evs) =
      (map Sleep bs @ fst (tcp_accept_loop (last (b # bs)) evs), snd (tcp_accept_loop (last (b # bs)) evs)) \<and>
    map unat bs = map (\<lambda>i. nth_backoff (n + Suc i)) [0..<length es]"
  using assms
proof (induction es arbitrary: b n)
  case (Cons e es)
  let ?b = "next_backoff b"
  have b: "unat ?b = nth_backoff (Suc n)" using Cons.prems(2) by (rule nth_backoff_step)
  moreover have "list_all is_transient_accept_error es" using Cons.prems(1) by simp
  ultimately obtain bs where bs: "tcp_accept_loop ?b (map AcceptFailed es @ evs) =
      (map Sleep bs @ fst (tcp_accept_loop (last (?b # bs)) evs), snd (tcp_accept_loop (last (?b # bs)) evs))"
    "map unat bs = map (\<lambda>i. nth_backoff (Suc n + Suc i)) [0..<length es]"
    using Cons.IH by blast
  have "map unat (?b # bs) = map (\<lambda>i. nth_backoff (n + Suc i)) [0..<length (e # es)]"
    using b bs(2) by (simp add: map_upt_Suc del: upt_Suc)
  moreover have "tcp_accept_loop b (map AcceptFailed (e # es) @ evs) =
      (map Sleep (?b # bs) @ fst (tcp_accept_loop (last (b # ?b # bs)) evs),
       snd (tcp_accept_loop (last (b # ?b # bs)) evs))"
    using Cons.prems(1) by (simp add: Let_def bs(1) del: last.simps) simp
  ultimately show ?case by blast
qed simp

text \<open>
  A burst of transient errors is answered by pauses of 10, 20, 40, ... and at most 1000 ms, whatever
  came before the last accepted connection, and the loop then goes on.
\<close>

theorem accept_backoff:
  assumes "list_all is_transient_accept_error es"
  shows "\<exists>bs. tcp_accept_loop b (Accepted a # map AcceptFailed es @ evs) =
      (Serve a # map Sleep bs @ fst (tcp_accept_loop (last (0 # bs)) evs), snd (tcp_accept_loop (last (0 # bs)) evs)) \<and>
    map unat bs = map (\<lambda>i. min (10 * 2 ^ i) 1000) [0..<length es]"
proof -
  from accept_errors [OF assms, of 0 0 evs] obtain bs where
    "tcp_accept_loop 0 (map AcceptFailed es @ evs) =
      (map Sleep bs @ fst (tcp_accept_loop (last (0 # bs)) evs), snd (tcp_accept_loop (last (0 # bs)) evs))"
    "map unat bs = map (\<lambda>i. min (10 * 2 ^ i) 1000) [0..<length es]"
    by (auto simp: nth_backoff_def)
  then show ?thesis by (intro exI [of _ bs]) (simp add: Let_def del: last.simps)
qed

definition demo_emfile :: io_error where
  "demo_emfile = \<lparr>io_kind = OtherKind, io_os = Some 24, io_msg = ''Too many open files''\<rparr>"

theorem accept_backoff_witness:
  "\<exists>bs. tcp_accept_loop 640 (Accepted ''a'' # map AcceptFailed (replicate 9 demo_emfile) @ [ShutdownSignal]) =
      (Serve ''a'' # map Sleep bs, True) \<and>
    map unat bs = [10, 20, 40, 80, 160, 320, 640, 1000, 1000]"
  using accept_backoff [of "replicate 9 demo_emfile" 640 "''a''" "[ShutdownSignal]"]
  by (simp add: demo_emfile_def is_transient_accept_error_def upt_rec [of _ "_ :: nat"] numeral_eq_Suc del: last.simps)

subsection \<open>Connection counters\<close>

definition active :: "string \<Rightarrow> proxy_metrics_map \<Rightarrow> i64" where
  "active name pm = (case pm name of None \<Rightarrow> 0 | Some x \<Rightarrow> pmt_connections_active x)"

lemma with_proxy_metrics_active:
  "active n (with_proxy_metrics name f pm) =
   (if n = name then pmt_connections_active (f (case pm name of None \<Rightarrow> proxy_metrics_new | Some x \<Rightarrow> x))
    else active n pm)"
  by (auto simp: active_def with_proxy_metrics_def get_or_create_proxy_metrics_def split: option.split)

lemma active_new: "pmt_connections_active (case pm n of None \<Rightarrow> proxy_metrics_new | Some x \<Rightarrow> x) = active n pm"
  by (simp add: active_def proxy_metrics_new_def split: option.split)

lemma active_simps [simp]:
  "active n (connection_opened name pm) = active n pm + (if n = name then 1 else 0)"
  "active n (connection_done name pm) = active n pm - (if n = name then 1 else 0)"
  "active n (snd (count_in name k ctrs)) = active n (snd ctrs)"
  "active n (snd (count_out name k ctrs)) = active n (snd ctrs)"
  by (simp_all add: connection_opened_def connection_done_def count_in_def count_out_def
      with_proxy_metrics_active active_new case_prod_unfold)

lemma relay_mux_reads_active [simp]:
  "active n (snd (snd (relay_mux_reads name i reads fin t ctrs))) = active n (snd ctrs)"
  by (induction name i reads fin t ctrs rule: relay_mux_reads.induct)
    (simp_all add: Let_def split: prod.split sum.split)

lemma relay_mux_writes_active [simp]:
  "active n (snd (snd (relay_mux_writes name inbound w ctrs))) = active n (snd ctrs)"
  by (induction name inbound w ctrs rule: relay_mux_writes.induct)
    (simp_all add: Let_def split: prod.split sum.split)

text \<open>
  The number of open connections of a proxy: a multiplexed connection gives back what it took, however
  it ends; a plain one does so only when it succeeds. Every plain connection that fails, be it that no
  work connection came or that copying broke off, stays counted as open.
\<close>

theorem connections_active_balance:
  "active n (snd (snd (handle_plain_client_connection send relay copy name port reply stcp ctrs))) =
     active n (snd ctrs) +
     (if n = name \<and> (\<exists>e. fst (handle_plain_client_connection send relay copy name port reply stcp ctrs) = Inl e)
      then 1 else 0) \<and>
   active n (snd (snd (snd (handle_mux_client_connection send name port reply tx reads fin inbound w holder ctrs)))) =
     active n (snd ctrs)"
proof
  obtain mt pm where c: "ctrs = (mt, pm)" by (cases ctrs)
  show "active n (snd (snd (handle_plain_client_connection send relay copy name port reply stcp ctrs))) =
     active n (snd ctrs) +
     (if n = name \<and> (\<exists>e. fst (handle_plain_client_connection send relay copy name port reply stcp ctrs) = Inl e)
      then 1 else 0)"
    by (simp add: c handle_plain_client_connection_def Let_def case_prod_unfold split: sum.split)
  show "active n (snd (snd (snd (handle_mux_client_connection send name port reply tx reads fin inbound w holder ctrs)))) =
     active n (snd ctrs)"
    by (simp add: c handle_mux_client_connection_def Let_def case_prod_unfold split: sum.split prod.split)
qed

subsection \<open>A dead UDP tunnel\<close>

text \<open>
  Once the writer of a UDP tunnel has ended, the proxy keeps the tunnel: no later packet gets through, and
  no work connection is ever requested again.
\<close>

fun udp_packets ::
  "(bytes \<times> work_reply \<times> chan \<times> bytes \<times> string \<Rightarrow> udp_tunnel option \<Rightarrow> unit result \<times> udp_tunnel option) \<Rightarrow>
   (bytes \<times> work_reply \<times> chan \<times> bytes \<times> string) list \<Rightarrow> udp_tunnel option \<Rightarrow> unit result list \<times> udp_tunnel option" where
  "udp_packets handle [] holder = ([], holder)"
| "udp_packets handle (p # ps) holder =
     (let (r, holder) = handle p holder; (rs, holder) = udp_packets handle ps holder in (r # rs, holder))"

theorem dead_udp_tunnel_stays:
  fixes pf send compr encr secret name port
  defines "handle \<equiv> \<lambda>(nonce, reply, tx, packet, src).
    udp_packet_begin pf send compr encr secret nonce name port reply tx packet src"
  assumes "ut_closed t"
  shows "list_all (\<lambda>r. \<exists>e. r = Inl e) (fst (udp_packets handle ps (Some t))) \<and>
    (\<exists>t'. snd (udp_packets handle ps (Some t)) = Some t' \<and> ut_closed t' \<and> ut_frames t' = ut_frames t)"
  using assms(2)
proof (induction ps arbitrary: t)
  case (Cons p ps)
  obtain nonce reply tx packet src where p: "p = (nonce, reply, tx, packet, src)" by (cases p)
  have "\<exists>e t'. handle p (Some t) = (Inl e, Some t') \<and> ut_closed t' \<and> ut_frames t' = ut_frames t"
    using Cons.prems
    by (auto simp: p handle_def udp_packet_begin_def get_or_create_udp_tunnel_def roundtrip_send_def Let_def
        split: sum.split)
  then obtain e t' where "handle p (Some t) = (Inl e, Some t')" "ut_closed t'" "ut_frames t' = ut_frames t" by blast
  with Cons.IH [of t'] show ?case by (auto simp: case_prod_unfold)
qed simp

definition demo_udp_tunnel :: udp_tunnel where
  "demo_udp_tunnel = udp_tunnel_new\<lparr>ut_closed := True\<rparr>"

definition demo_packets :: "(bytes \<times> work_reply \<times> chan \<times> bytes \<times> string) list" where
  "demo_packets = [([], Granted 1, 2, [1], ''a''), ([], Granted 3, 4, [2], ''b'')]"

theorem dead_udp_tunnel_stays_witness:
  "list_all (\<lambda>r. \<exists>e. r = Inl e) (fst (udp_packets (\<lambda>(nonce, reply, tx, packet, src).
       udp_packet_begin demo_platform (\<lambda>_ _. Inr ()) False False [] nonce ''dns'' 53 reply tx packet src)
     demo_packets (Some demo_udp_tunnel))) \<and>
   (\<exists>t'. snd (udp_packets (\<lambda>(nonce, reply, tx, packet, src).
       udp_packet_begin demo_platform (\<lambda>_ _. Inr ()) False False [] nonce ''dns'' 53 reply tx packet src)
     demo_packets (Some demo_udp_tunnel)) = Some t' \<and> ut_closed t' \<and> ut_frames t' = ut_frames demo_udp_tunnel)"
  by (rule dead_udp_tunnel_stays) (simp add: demo_udp_tunnel_def)

end
