(* ===== verification/LocalProxies.thy ===== *)
theory LocalProxies
  imports Tunnels Settings
begin

text \<open>
  The client's proxies, \<^verbatim>\<open>arp-client/src/proxy\<close>: the table of proxies, the health check of the local
  service, and what each type of proxy does with a work connection. What the operating system answers
  (connecting, reading and writing sockets, the clock in nanoseconds) is an argument.
\<close>

subsection \<open>TCP proxies\<close>

record tcp_local =
  tcl_name :: string
  tcl_local_ip :: string
  tcl_local_port :: u16
  tcl_tcp_mux :: bool
  tcl_stcp :: bool
  tcl_secret :: string
  tcl_check_enable :: bool
  tcl_check_timeout :: u64
  tcl_check_interval :: u64
  tcl_check_max_failed :: u32
  tcl_last_check :: int
  tcl_failed :: u32
  tcl_healthy :: bool

definition seconds :: "u64 \<Rightarrow> int" where
  "seconds n = uint n * 1000000000"

definition tcp_local_new :: "int \<Rightarrow> proxy_config \<Rightarrow> tcp_local" where
  "tcp_local_new now config =
     (let stcp = False in
      \<lparr>tcl_name = pc_name config, tcl_local_ip = pc_local_ip config, tcl_local_port = pc_local_port config,
       tcl_tcp_mux = (pc_multiplexer config \<in> {''tcp_mux'', ''mux'', ''smux'', ''yamux''} \<and> \<not> stcp),
       tcl_stcp = stcp, tcl_secret = pc_sk config,
       tcl_check_enable = hc_enable (pc_health_check config),
       tcl_check_timeout = max (hc_timeout_seconds (pc_health_check config)) 2,
       tcl_check_interval = max (hc_interval_seconds (pc_health_check config)) 5,
       tcl_check_max_failed = max (hc_max_failed (pc_health_check config)) 1,
       tcl_last_check = now - seconds 3600, tcl_failed = 0, tcl_healthy = True\<rparr>)"

definition local_addr :: "string \<Rightarrow> u16 \<Rightarrow> string" where
  "local_addr ip port = ip @ '':'' @ show_nat (unat port)"

definition tcp_is_available :: "tcp_local \<Rightarrow> bool" where
  "tcp_is_available p = (if \<not> tcl_check_enable p then True else tcl_healthy p)"

text \<open>\<open>ok\<close> is whether a connection to the local service came about within the timeout.\<close>

definition check_health :: "int \<Rightarrow> bool \<Rightarrow> tcp_local \<Rightarrow> unit result \<times> tcp_local" where
  "check_health now ok p =
     (if \<not> tcl_check_enable p then (Inr (), p)
      else
        let unhealthy = ''proxy '' @ tcl_name p @ '' local endpoint ''
              @ local_addr (tcl_local_ip p) (tcl_local_port p) @ '' is unhealthy''
        in if max 0 (now - tcl_last_check p) < seconds (tcl_check_interval p) then
             if \<not> tcl_healthy p then (Inl (Proxy unhealthy), p) else (Inr (), p)
           else
             let p = p\<lparr>tcl_last_check := now\<rparr> in
             if ok then (Inr (), p\<lparr>tcl_failed := 0, tcl_healthy := True\<rparr>)
             else
               let failed = tcl_failed p + 1;
                   p = p\<lparr>tcl_failed := failed\<rparr>;
                   p = (if failed \<ge> tcl_check_max_failed p then p\<lparr>tcl_healthy := False\<rparr> else p)
               in if \<not> tcl_healthy p
                  then (Inl (Proxy (unhealthy @ '' (failed='' @ show_nat (unat failed) @ '')'')), p)
                  else (Inr (), p))"

text \<open>
  A plain work connection: \<open>connect\<close> is the error of connecting to the local service, \<open>pre_read\<close> what the
  message transport had already read beyond the \<^verbatim>\<open>StartWorkConn\<close> message, \<open>w\<close> the local connection, \<open>copied\<close> the
  outcome of copying in both directions afterwards.
\<close>

definition plain_work_conn ::
  "io_error option \<Rightarrow> bytes \<Rightarrow> (u64 \<times> u64) result \<Rightarrow> tcp_local \<Rightarrow> sink \<Rightarrow> unit result \<times> sink" where
  "plain_work_conn connect pre_read copied p w =
     (case connect of
        Some e \<Rightarrow>
          (Inl (Proxy (''TCP proxy '' @ tcl_name p @ '' failed to connect local service ''
             @ local_addr (tcl_local_ip p) (tcl_local_port p) @ '': '' @ io_msg e)), w)
      | None \<Rightarrow>
          (case (if pre_read \<noteq> [] then write_all pre_read w else (Inr (), w)) of
             (Inl e, w) \<Rightarrow> (Inl e, w)
           | (Inr _, w) \<Rightarrow> (case copied of Inl e \<Rightarrow> (Inl e, w) | Inr _ \<Rightarrow> (Inr (), w))))"

definition stcp_work_conn :: "io_error option \<Rightarrow> (u64 \<times> u64) result \<Rightarrow> tcp_local \<Rightarrow> unit result" where
  "stcp_work_conn connect relayed p =
     (case connect of
        Some e \<Rightarrow>
          Inl (Proxy (''STCP proxy '' @ tcl_name p @ '' failed to connect local service ''
             @ local_addr (tcl_local_ip p) (tcl_local_port p) @ '': '' @ io_msg e))
      | None \<Rightarrow> (case relayed of Inl e \<Rightarrow> Inl e | Inr _ \<Rightarrow> Inr ()))"

text \<open>What a TCP proxy does with a work connection: the three arguments are the handlers of the three modes.\<close>

definition tcp_handle_work_conn ::
  "int \<Rightarrow> bool \<Rightarrow> (tcp_local \<Rightarrow> unit result) \<Rightarrow> (tcp_local \<Rightarrow> unit result) \<Rightarrow> (tcp_local \<Rightarrow> unit result) \<Rightarrow>
   tcp_local \<Rightarrow> unit result \<times> tcp_local" where
  "tcp_handle_work_conn now ok mux stcp plain p =
     (case check_health now ok p of
        (Inl e, p) \<Rightarrow> (Inl e, p)
      | (Inr _, p) \<Rightarrow>
          if tcl_tcp_mux p then (mux p, p)
          else if tcl_stcp p then (stcp p, p)
          else (plain p, p))"

subsection \<open>Multiplexed work connections\<close>

text \<open>
  The client's end of a tunnel. \<open>mw_next\<close> is the next unused channel, \<open>mw_spawned\<close> the local streams
  started so far with their channels.
\<close>

record mux_work =
  mw_frames :: "mux_frame list"
  mw_closed :: bool
  mw_streams :: "u32 \<rightharpoonup> chan"
  mw_next :: chan
  mw_spawned :: "(u32 \<times> chan) list"

definition mux_work_new :: mux_work where
  "mux_work_new = \<lparr>mw_frames = [], mw_closed = False, mw_streams = Map.empty, mw_next = 0, mw_spawned = []\<rparr>"

definition mux_work_send :: "mux_frame \<Rightarrow> mux_work \<Rightarrow> bool \<times> mux_work" where
  "mux_work_send frame c =
     (if mw_closed c then (False, c) else (True, c\<lparr>mw_frames := mw_frames c @ [frame]\<rparr>))"

fun mux_work_frame :: "(chan \<Rightarrow> bool) \<Rightarrow> mux_frame \<Rightarrow> mux_work \<Rightarrow> (chan \<times> bytes) list \<times> mux_work" where
  "mux_work_frame listens (Open stream_id) c =
     ([], c\<lparr>mw_streams := (mw_streams c)(stream_id \<mapsto> mw_next c), mw_next := mw_next c + 1,
           mw_spawned := mw_spawned c @ [(stream_id, mw_next c)]\<rparr>)"
| "mux_work_frame listens (Data stream_id payload) c =
     (case mw_streams c stream_id of
        Some tx \<Rightarrow>
          if listens tx then ([(tx, payload)], c)
          else ([], c\<lparr>mw_streams := (mw_streams c)(stream_id := None)\<rparr>)
      | None \<Rightarrow> ([], snd (mux_work_send (Close stream_id) c)))"
| "mux_work_frame listens (Close stream_id) c =
     ([], c\<lparr>mw_streams := (mw_streams c)(stream_id := None)\<rparr>)"
| "mux_work_frame listens mux_frame.Ping c = ([], snd (mux_work_send mux_frame.Pong c))"
| "mux_work_frame listens mux_frame.Pong c = ([], c)"

fun mux_work_run :: "(chan \<Rightarrow> bool) \<Rightarrow> mux_frame list \<Rightarrow> mux_work \<Rightarrow> (chan \<times> bytes) list \<times> mux_work" where
  "mux_work_run listens [] c = ([], c)"
| "mux_work_run listens (f # fs) c =
     (let (d, c) = mux_work_frame listens f c; (ds, c) = mux_work_run listens fs c in (d @ ds, c))"

definition mux_work_end :: "mux_work \<Rightarrow> mux_work" where
  "mux_work_end c = c\<lparr>mw_streams := Map.empty\<rparr>"

text \<open>
  The task of one local stream: \<open>reads\<close> and then end of file or an error is what the local service sends.
\<close>

fun local_stream_reads :: "u32 \<Rightarrow> bytes list \<Rightarrow> io_error option \<Rightarrow> mux_work \<Rightarrow> unit result \<times> mux_work" where
  "local_stream_reads stream_id [] (Some e) c = (Inl (Io e), c)"
| "local_stream_reads stream_id [] None c =
     (let c = snd (mux_work_send (Close stream_id) c)
      in (Inr (), c\<lparr>mw_streams := (mw_streams c)(stream_id := None)\<rparr>))"
| "local_stream_reads stream_id (buf # reads) fin c =
     (case mux_work_send (Data stream_id buf) c of
        (False, c) \<Rightarrow> (Inl (Transport ''tcp_mux frame channel closed''), c)
      | (True, c) \<Rightarrow> local_stream_reads stream_id reads fin c)"

definition handle_local_stream ::
  "io_error option \<Rightarrow> string \<Rightarrow> u32 \<Rightarrow> bytes list \<Rightarrow> io_error option \<Rightarrow> mux_work \<Rightarrow> unit result \<times> mux_work" where
  "handle_local_stream connect addr stream_id reads fin c =
     (case connect of
        Some e \<Rightarrow>
          (Inl (Proxy (''tcp_mux failed to connect local service '' @ addr @ '' for stream ''
             @ show_nat (unat stream_id) @ '': '' @ io_msg e)), c)
      | None \<Rightarrow> local_stream_reads stream_id reads fin c)"

subsection \<open>UDP proxies\<close>

record udp_local =
  ucl_name :: string
  ucl_local_ip :: string
  ucl_local_port :: u16
  ucl_use_compression :: bool
  ucl_use_encryption :: bool
  ucl_secret :: string

definition udp_local_new :: "proxy_config \<Rightarrow> udp_local" where
  "udp_local_new config =
     (let force_secure = (pc_proxy_type config = Sudp) in
      \<lparr>ucl_name = pc_name config, ucl_local_ip = pc_local_ip config, ucl_local_port = pc_local_port config,
       ucl_use_compression = pc_use_compression config,
       ucl_use_encryption = (pc_use_encryption config \<or> force_secure), ucl_secret = pc_sk config\<rparr>)"

text \<open>What the local service does with a packet.\<close>

datatype local_answer = SendFailed io_error | NoResponse | RecvFailed io_error | Responded bytes

definition udp_request ::
  "platform \<Rightarrow> udp_local \<Rightarrow> (bytes \<Rightarrow> local_answer) \<Rightarrow> bytes \<Rightarrow> bytes \<Rightarrow> bytes result" where
  "udp_request pf p service nonce payload =
     (case decode_packet pf (ucl_use_compression p) (ucl_use_encryption p) (ucl_secret p) payload of
        Inl e \<Rightarrow> Inl e
      | Inr packet \<Rightarrow>
          (case service packet of
             SendFailed e \<Rightarrow> Inl (Io e)
           | NoResponse \<Rightarrow> Inl (Timeout ''udp local response timeout'')
           | RecvFailed e \<Rightarrow> Inl (Io e)
           | Responded buf \<Rightarrow>
               encode_packet pf (ucl_use_compression p) (ucl_use_encryption p) (ucl_secret p) nonce buf))"

text \<open>
  The loop over the frames of the work connection, which only ever ends with an error: one of the
  handlers, or \<open>fin\<close> when no further frame can be read. \<open>services\<close> and \<open>nonces\<close> are indexed by the number
  of requests handled so far.
\<close>

fun udp_work_loop ::
  "platform \<Rightarrow> udp_local \<Rightarrow> (nat \<Rightarrow> bytes \<Rightarrow> local_answer) \<Rightarrow> (nat \<Rightarrow> bytes) \<Rightarrow> nat \<Rightarrow> udp_mux_frame list \<Rightarrow>
   error \<Rightarrow> sink \<Rightarrow> error \<times> sink" where
  "udp_work_loop pf p services nonces k [] fin w = (fin, w)"
| "udp_work_loop pf p services nonces k (Req request_id src payload # fs) fin w =
     (case udp_request pf p (services k) (nonces k) payload of
        Inl e \<Rightarrow> (e, w)
      | Inr encoded \<Rightarrow>
          (case write_udp_mux_frame (Resp request_id encoded) w of
             (Inl e, w) \<Rightarrow> (e, w)
           | (Inr _, w) \<Rightarrow> udp_work_loop pf p services nonces (Suc k) fs fin w))"
| "udp_work_loop pf p services nonces k (UdpPing # fs) fin w =
     (case write_udp_mux_frame UdpPong w of
        (Inl e, w) \<Rightarrow> (e, w)
      | (Inr _, w) \<Rightarrow> udp_work_loop pf p services nonces k fs fin w)"
| "udp_work_loop pf p services nonces k (UdpPong # fs) fin w = udp_work_loop pf p services nonces k fs fin w"
| "udp_work_loop pf p services nonces k (Resp request_id payload # fs) fin w =
     udp_work_loop pf p services nonces k fs fin w"

definition udp_work_conn ::
  "platform \<Rightarrow> io_error option \<Rightarrow> io_error option \<Rightarrow> udp_local \<Rightarrow> (nat \<Rightarrow> bytes \<Rightarrow> local_answer) \<Rightarrow> (nat \<Rightarrow> bytes) \<Rightarrow>
   udp_mux_frame list \<Rightarrow> error \<Rightarrow> sink \<Rightarrow> error \<times> sink" where
  "udp_work_conn pf bind connect p services nonces fs fin w =
     (case bind of
        Some e \<Rightarrow> (Io e, w)
      | None \<Rightarrow>
          (case connect of
             Some e \<Rightarrow> (Io e, w)
           | None \<Rightarrow> udp_work_loop pf p services nonces 0 fs fin w))"

subsection \<open>XTCP proxies\<close>

record xtcp_local =
  xcl_name :: string
  xcl_local_ip :: string
  xcl_local_port :: u16

definition xtcp_local_new :: "proxy_config \<Rightarrow> xtcp_local" where
  "xtcp_local_new config =
     \<lparr>xcl_name = pc_name config, xcl_local_ip = pc_local_ip config, xcl_local_port = pc_local_port config\<rparr>"

definition xtcp_work_conn :: "unit result" where
  "xtcp_work_conn = Inl (Proxy ''xtcp does not handle server work connection directly'')"

text \<open>The address of the listener for the peer; the punching packets and the task that waits are I/O.\<close>

definition xtcp_nat_hole_client :: "io_error + string \<Rightarrow> string result" where
  "xtcp_nat_hole_client listener = (case listener of Inl e \<Rightarrow> Inl (Io e) | Inr listen_addr \<Rightarrow> Inr listen_addr)"

text \<open>
  The race between connecting to the peer and being connected by it: \<open>first\<close> tells which task ended first,
  and how.
\<close>

datatype race_end = RaceStream conn | RaceIo io_error | RaceTimeout | RaceJoin string

definition race_result :: "string \<Rightarrow> string \<Rightarrow> race_end \<Rightarrow> conn result" where
  "race_result role act r =
     (case r of
        RaceStream c \<Rightarrow> Inr c
      | RaceIo e \<Rightarrow> Inl (Io e)
      | RaceTimeout \<Rightarrow> Inl (Timeout (''xtcp '' @ role @ '' '' @ act @ '' timeout''))
      | RaceJoin e \<Rightarrow> Inl (Transport (''xtcp '' @ (if role = ''provider'' then ''provider '' else []) @ act
            @ '' task failed: '' @ e)))"

definition race_peer_stream :: "race_end + race_end \<Rightarrow> conn result" where
  "race_peer_stream first =
     (case first of
        Inl conn_end \<Rightarrow> race_result ''provider'' ''connect'' conn_end
      | Inr acc_end \<Rightarrow> race_result ''provider'' ''accept'' acc_end)"

subsection \<open>The table of proxies\<close>

datatype client_proxy = LTcp tcp_local | LUdp udp_local | LXtcp xtcp_local

type_synonym client_proxies = "string \<rightharpoonup> client_proxy"

definition client_proxy_new :: "int \<Rightarrow> proxy_config \<Rightarrow> client_proxy" where
  "client_proxy_new now config =
     (case pc_proxy_type config of
        Tcp \<Rightarrow> LTcp (tcp_local_new now config)
      | Stcp \<Rightarrow> LTcp (tcp_local_new now config)
      | Http \<Rightarrow> LTcp (tcp_local_new now config)
      | Https \<Rightarrow> LTcp (tcp_local_new now config)
      | Udp \<Rightarrow> LUdp (udp_local_new config)
      | Sudp \<Rightarrow> LUdp (udp_local_new config)
      | Xtcp \<Rightarrow> LXtcp (xtcp_local_new config))"

fun client_proxy_name :: "client_proxy \<Rightarrow> string" where
  "client_proxy_name (LTcp p) = tcl_name p"
| "client_proxy_name (LUdp p) = ucl_name p"
| "client_proxy_name (LXtcp p) = xcl_name p"

fun is_available :: "client_proxy \<Rightarrow> bool" where
  "is_available (LTcp p) = tcp_is_available p"
| "is_available _ = True"

fun handle_nat_hole :: "io_error + string \<Rightarrow> client_proxy \<Rightarrow> string result" where
  "handle_nat_hole listener (LXtcp p) = xtcp_nat_hole_client listener"
| "handle_nat_hole listener _ = Inl (Proxy ''nat hole not supported for this proxy'')"

definition client_register_proxy :: "int \<Rightarrow> proxy_config \<Rightarrow> client_proxies \<Rightarrow> client_proxies" where
  "client_register_proxy now config m =
     (let proxy = client_proxy_new now config in m(client_proxy_name proxy \<mapsto> proxy))"

definition client_get_proxy :: "string \<Rightarrow> client_proxies \<Rightarrow> client_proxy option" where
  "client_get_proxy name m = m name"

definition is_proxy_available :: "string \<Rightarrow> client_proxies \<Rightarrow> bool" where
  "is_proxy_available name m = (case m name of None \<Rightarrow> False | Some p \<Rightarrow> is_available p)"

definition client_unregister_proxy :: "string \<Rightarrow> client_proxies \<Rightarrow> client_proxies" where
  "client_unregister_proxy name m = m(name := None)"

definition list_proxy_names :: "string list \<Rightarrow> client_proxies \<Rightarrow> string list" where
  "list_proxy_names order m = filter (\<lambda>k. m k \<noteq> None) order"

definition client_nat_hole :: "io_error + string \<Rightarrow> string \<Rightarrow> client_proxies \<Rightarrow> string result" where
  "client_nat_hole listener name m =
     (case client_get_proxy name m of
        None \<Rightarrow> Inl (Proxy (''Unknown proxy: '' @ name))
      | Some proxy \<Rightarrow> handle_nat_hole listener proxy)"

subsection \<open>Streams of a tunnel\<close>

text \<open>What is put on one channel, and what the frames carry for one stream before it is closed.\<close>

definition delivered :: "chan \<Rightarrow> (chan \<times> bytes) list \<Rightarrow> bytes list" where
  "delivered k ds = map snd (filter (\<lambda>d. fst d = k) ds)"

fun until_close :: "u32 \<Rightarrow> mux_frame list \<Rightarrow> bytes list" where
  "until_close i [] = []"
| "until_close i (Data j payload # fs) = (if j = i then payload # until_close i fs else until_close i fs)"
| "until_close i (Close j # fs) = (if j = i then [] else until_close i fs)"
| "until_close i (f # fs) = until_close i fs"

lemma delivered_simps [simp]:
  "delivered k [] = []" "delivered k (ds @ es) = delivered k ds @ delivered k es"
  "delivered k [(c, p)] = (if c = k then [p] else [])"
  by (simp_all add: delivered_def)

definition channels_ok :: "mux_work \<Rightarrow> bool" where
  "channels_ok c \<longleftrightarrow> inj_map (mw_streams c) \<and> ran (mw_streams c) \<subseteq> {..<mw_next c}"

lemma mux_work_send_sel [simp]:
  "mw_streams (snd (mux_work_send f c)) = mw_streams c" "mw_next (snd (mux_work_send f c)) = mw_next c"
  "mw_spawned (snd (mux_work_send f c)) = mw_spawned c"
  by (simp_all add: mux_work_send_def)

lemma channels_ok_remove:
  "channels_ok c \<Longrightarrow> channels_ok (c\<lparr>mw_streams := (mw_streams c)(i := None)\<rparr>)"
  by (simp add: channels_ok_def inj_map_release) (auto simp: ran_def)

lemma channels_ok_add:
  "channels_ok c \<Longrightarrow>
   channels_ok (c\<lparr>mw_streams := (mw_streams c)(i \<mapsto> mw_next c), mw_next := mw_next c + 1, mw_spawned := sp\<rparr>)"
  unfolding channels_ok_def by (force intro!: inj_map_acquire simp: ran_def)

lemma mux_work_frame_ok: "channels_ok c \<Longrightarrow> channels_ok (snd (mux_work_frame listens f c))"
proof (cases f)
  case (Open i)
  assume "channels_ok c"
  from channels_ok_add [OF this] show ?thesis by (simp add: Open)
next
  case (Data i payload)
  assume "channels_ok c"
  then show ?thesis by (auto simp: Data channels_ok_remove split: option.split) (simp add: channels_ok_def)
next
  case (Close i)
  assume "channels_ok c"
  then show ?thesis by (simp add: Close channels_ok_remove)
qed (simp_all add: channels_ok_def)

lemma mux_work_run_Cons:
  "fst (mux_work_run listens (f # fs) c) =
     fst (mux_work_frame listens f c) @ fst (mux_work_run listens fs (snd (mux_work_frame listens f c)))"
  "snd (mux_work_run listens (f # fs) c) = snd (mux_work_run listens fs (snd (mux_work_frame listens f c)))"
  by (simp_all add: Let_def case_prod_unfold)

declare mux_work_run.simps(2) [simp del]

lemma mux_work_frame_cases:
  "fst (mux_work_frame listens f c) =
     (case f of Data i p \<Rightarrow> (case mw_streams c i of None \<Rightarrow> [] | Some tx \<Rightarrow> if listens tx then [(tx, p)] else [])
      | _ \<Rightarrow> [])"
  "mw_streams (snd (mux_work_frame listens f c)) =
     (case f of
        Open i \<Rightarrow> (mw_streams c)(i \<mapsto> mw_next c)
      | Close i \<Rightarrow> (mw_streams c)(i := None)
      | Data i p \<Rightarrow> (case mw_streams c i of
            None \<Rightarrow> mw_streams c
          | Some tx \<Rightarrow> if listens tx then mw_streams c else (mw_streams c)(i := None))
      | _ \<Rightarrow> mw_streams c)"
  "mw_next (snd (mux_work_frame listens f c)) = (case f of Open i \<Rightarrow> mw_next c + 1 | _ \<Rightarrow> mw_next c)"
  by (cases f; simp split: option.split)+

text \<open>A channel that belongs to no stream any more never receives anything.\<close>

lemma dead_step:
  assumes "k < mw_next c" "\<forall>j. mw_streams c j \<noteq> Some k"
  shows "k < mw_next (snd (mux_work_frame listens f c))"
    "\<forall>j. mw_streams (snd (mux_work_frame listens f c)) j \<noteq> Some k"
    "delivered k (fst (mux_work_frame listens f c)) = []"
proof -
  show "k < mw_next (snd (mux_work_frame listens f c))" using assms(1)
    by (cases f) (simp_all only: mux_work_frame_cases mux_frame.case less_Suc_eq add_0_right One_nat_def add_Suc_right simp_thms)
  show "\<forall>j. mw_streams (snd (mux_work_frame listens f c)) j \<noteq> Some k" using assms
    unfolding mux_work_frame_cases by (cases f) (auto split: option.split)
  show "delivered k (fst (mux_work_frame listens f c)) = []" using assms(2)
    unfolding mux_work_frame_cases by (cases f) (auto split: option.split)
qed

lemma dead_channel:
  "k < mw_next c \<Longrightarrow> \<forall>j. mw_streams c j \<noteq> Some k \<Longrightarrow> delivered k (fst (mux_work_run listens fs c)) = []"
proof (induction fs arbitrary: c)
  case (Cons f fs)
  note step = dead_step [OF Cons.prems, of listens f]
  show ?case unfolding mux_work_run_Cons delivered_simps step(3) Cons.IH [OF step(1,2)] by simp
qed simp

lemma live_channel:
  assumes "channels_ok c" "mw_streams c i = Some k" "listens k" "Open i \<notin> set fs"
  shows "delivered k (fst (mux_work_run listens fs c)) = until_close i fs"
  using assms
proof (induction fs arbitrary: c)
  case (Cons f fs)
  let ?c = "snd (mux_work_frame listens f c)"
  have ok: "channels_ok ?c" by (rule mux_work_frame_ok) (rule Cons.prems(1))
  have k: "k < mw_next c" using Cons.prems(1,2) by (auto simp: channels_ok_def ran_def)
  have i: "mw_streams c j \<noteq> Some k" if "j \<noteq> i" for j
    using that Cons.prems(1,2) inj_mapD [of "mw_streams c" j k i] by (auto simp: channels_ok_def)
  show ?case
  proof (cases "f = Close i")
    case True
    have "mw_next ?c = mw_next c" "\<forall>j. mw_streams ?c j \<noteq> Some k"
      using i by (auto simp: True)
    with dead_channel [of k ?c] k show ?thesis by (simp add: mux_work_run_Cons True)
  next
    case False
    have "mw_streams ?c i = Some k" using False Cons.prems(2-4)
      unfolding mux_work_frame_cases by (cases f) (auto split: option.split)
    moreover have "delivered k (fst (mux_work_frame listens f c)) @ until_close i fs = until_close i (f # fs)"
      using False Cons.prems(2,3) i
      unfolding mux_work_frame_cases by (cases f) (auto split: option.split)
    ultimately show ?thesis using Cons.IH [OF ok] Cons.prems(3,4) by (simp add: mux_work_run_Cons)
  qed
qed simp

text \<open>
  The server's end: the operations of all its connections on one tunnel, in any order, between them the
  frames that arrive from the client.
\<close>

datatype mux_op = OpOpen chan | OpData u32 bytes | OpClose u32 | OpFrame mux_frame

fun mux_op_step :: "(chan \<Rightarrow> bool) \<Rightarrow> mux_op \<Rightarrow> mux_tunnel \<Rightarrow> mux_tunnel" where
  "mux_op_step listens (OpOpen tx) t = snd (open_stream tx t)"
| "mux_op_step listens (OpData stream_id payload) t = snd (send_data stream_id payload t)"
| "mux_op_step listens (OpClose stream_id) t = close_stream stream_id t"
| "mux_op_step listens (OpFrame frame) t = snd (mux_reader_frame listens frame t)"

definition mux_ops :: "(chan \<Rightarrow> bool) \<Rightarrow> mux_op list \<Rightarrow> mux_tunnel \<Rightarrow> mux_tunnel" where
  "mux_ops listens ops t = fold (mux_op_step listens) ops t"

fun op_data :: "u32 \<Rightarrow> mux_op list \<Rightarrow> bytes list" where
  "op_data i [] = []"
| "op_data i (OpData j payload # ops) = (if j = i then payload # op_data i ops else op_data i ops)"
| "op_data i (OpClose j # ops) = (if j = i then [] else op_data i ops)"
| "op_data i (op # ops) = op_data i ops"

definition opens :: "mux_op list \<Rightarrow> nat" where
  "opens ops = length (filter (\<lambda>op. \<exists>tx. op = OpOpen tx) ops)"

lemma opens_simps [simp]:
  "opens [] = 0" "opens (OpOpen tx # ops) = Suc (opens ops)" "opens (OpData i p # ops) = opens ops"
  "opens (OpClose i # ops) = opens ops" "opens (OpFrame f # ops) = opens ops"
  "opens (ops @ ops') = opens ops + opens ops'"
  by (simp_all add: opens_def)

lemma mux_ops_simps [simp]:
  "mux_ops listens [] t = t" "mux_ops listens (op # ops) t = mux_ops listens ops (mux_op_step listens op t)"
  "mux_ops listens (ops @ ops') t = mux_ops listens ops' (mux_ops listens ops t)"
  by (simp_all add: mux_ops_def)

lemmas mux_op_defs = open_stream_def send_data_def close_stream_def mux_send_def Let_def

lemma mux_op_frames:
  assumes "\<not> mx_closed t"
  shows "\<exists>fs. mx_frames (mux_op_step listens op t) = mx_frames t @ fs \<and> \<not> mx_closed (mux_op_step listens op t) \<and>
    filter (\<lambda>f. \<exists>i. f = Open i) fs = (case op of OpOpen tx \<Rightarrow> [Open (mx_next_stream_id t)] | _ \<Rightarrow> []) \<and>
    mx_next_stream_id (mux_op_step listens op t) = mx_next_stream_id t + of_nat (opens [op])"
proof (cases op)
  case (OpFrame f)
  with assms show ?thesis by (cases f) (simp_all add: mux_op_defs split: option.split)
qed (use assms in \<open>simp_all add: mux_op_defs\<close>)

lemma mux_ops_frames:
  assumes "\<not> mx_closed t"
  shows "\<exists>fs. mx_frames (mux_ops listens ops t) = mx_frames t @ fs \<and> \<not> mx_closed (mux_ops listens ops t) \<and>
    filter (\<lambda>f. \<exists>i. f = Open i) fs = map (\<lambda>n. Open (mx_next_stream_id t + of_nat n)) [0..<opens ops] \<and>
    mx_next_stream_id (mux_ops listens ops t) = mx_next_stream_id t + of_nat (opens ops)"
  using assms
proof (induction ops arbitrary: t)
  case (Cons op ops)
  let ?t = "mux_op_step listens op t" and ?opens = "filter (\<lambda>f. \<exists>i. f = Open i)"
  obtain fs where fs: "mx_frames ?t = mx_frames t @ fs" "\<not> mx_closed ?t"
    "?opens fs = (case op of OpOpen tx \<Rightarrow> [Open (mx_next_stream_id t)] | _ \<Rightarrow> [])"
    "mx_next_stream_id ?t = mx_next_stream_id t + of_nat (opens [op])"
    using mux_op_frames [OF Cons.prems] by blast
  obtain gs where gs: "mx_frames (mux_ops listens ops ?t) = mx_frames ?t @ gs" "\<not> mx_closed (mux_ops listens ops ?t)"
    "?opens gs = map (\<lambda>n. Open (mx_next_stream_id ?t + of_nat n)) [0..<opens ops]"
    "mx_next_stream_id (mux_ops listens ops ?t) = mx_next_stream_id ?t + of_nat (opens ops)"
    using Cons.IH [OF fs(2)] by blast
  have "?opens (fs @ gs) = map (\<lambda>n. Open (mx_next_stream_id t + of_nat n)) [0..<opens (op # ops)]"
    unfolding filter_append fs(3) gs(3) fs(4)
    by (cases op) (simp_all add: map_upt_Suc add.assoc del: upt_Suc)
  moreover have "mx_next_stream_id (mux_ops listens (op # ops) t) = mx_next_stream_id t + of_nat (opens (op # ops))"
    using gs(4) fs(4) by (cases op) (simp_all add: add.assoc)
  ultimately show ?case using fs(1) gs(1,2) by (intro exI [of _ "fs @ gs"]) simp
qed simp

lemma live_op:
  assumes "\<not> mx_closed t" "mx_streams t i = Some k" "listens k"
    and "op \<noteq> OpClose i" "op \<noteq> OpFrame (Close i)" "opens [op] = 0 \<or> mx_next_stream_id t \<noteq> i"
  shows "mx_streams (mux_op_step listens op t) i = Some k"
    "\<exists>fs. mx_frames (mux_op_step listens op t) = mx_frames t @ fs \<and>
       (\<forall>gs ops. until_close i gs = op_data i ops \<longrightarrow> until_close i (fs @ gs) = op_data i (op # ops))"
proof -
  show "mx_streams (mux_op_step listens op t) i = Some k"
  proof (cases op)
    case (OpFrame f)
    with assms show ?thesis by (cases f) (auto simp: mux_op_defs split: option.split)
  qed (use assms in \<open>auto simp: mux_op_defs\<close>)
  show "\<exists>fs. mx_frames (mux_op_step listens op t) = mx_frames t @ fs \<and>
      (\<forall>gs ops. until_close i gs = op_data i ops \<longrightarrow> until_close i (fs @ gs) = op_data i (op # ops))"
  proof (cases op)
    case (OpFrame f)
    with assms(1-3) show ?thesis
      by (cases f) (auto simp: mux_op_defs split: option.split)
  qed (use assms(1,4) in \<open>auto simp: mux_op_defs\<close>)
qed

lemma live_ops:
  assumes "\<not> mx_closed t" "mx_streams t i = Some k" "listens k"
    and "OpFrame (Close i) \<notin> set ops" "\<forall>n < opens ops. mx_next_stream_id t + of_nat n \<noteq> i"
  shows "\<exists>fs. mx_frames (mux_ops listens ops t) = mx_frames t @ fs \<and> until_close i fs = op_data i ops"
  using assms
proof (induction ops arbitrary: t)
  case (Cons op ops)
  let ?t = "mux_op_step listens op t"
  have open_t: "\<not> mx_closed ?t" and nx: "mx_next_stream_id ?t = mx_next_stream_id t + of_nat (opens [op])"
    using mux_op_frames [OF Cons.prems(1), of listens op] by auto
  show ?case
  proof (cases "op = OpClose i")
    case True
    obtain fs where "mx_frames (mux_ops listens ops ?t) = mx_frames ?t @ fs"
      using mux_ops_frames [OF open_t] by blast
    moreover have "mx_frames ?t = mx_frames t @ [Close i]"
      using True Cons.prems(1) by (simp add: mux_op_defs)
    ultimately show ?thesis using True by (intro exI [of _ "Close i # fs"]) simp
  next
    case False
    have nc: "op \<noteq> OpFrame (Close i)" "OpFrame (Close i) \<notin> set ops" using Cons.prems(4) by auto
    have fresh: "opens [op] = 0 \<or> mx_next_stream_id t \<noteq> i"
      using Cons.prems(5) [THEN spec, of 0] by (cases op) auto
    have "\<forall>n < opens ops. mx_next_stream_id ?t + of_nat n \<noteq> i"
    proof (intro allI impI)
      fix n assume "n < opens ops"
      then have "n + opens [op] < opens (op # ops)" by (cases op) auto
      with Cons.prems(5) have "mx_next_stream_id t + of_nat (n + opens [op]) \<noteq> i" by blast
      then show "mx_next_stream_id ?t + of_nat n \<noteq> i" by (simp add: nx add.commute add.left_commute)
    qed
    moreover have "mx_streams ?t i = Some k"
      using live_op(1) [where listens = listens, OF Cons.prems(1-3) False nc(1) fresh] .
    ultimately obtain gs where gs: "mx_frames (mux_ops listens ops ?t) = mx_frames ?t @ gs"
      "until_close i gs = op_data i ops" using Cons.IH [OF open_t] Cons.prems(3) nc(2) by blast
    obtain fs where "mx_frames ?t = mx_frames t @ fs" "until_close i (fs @ gs) = op_data i (op # ops)"
      using live_op(2) [where listens = listens, OF Cons.prems(1-3) False nc(1) fresh] gs(2) by blast
    with gs(1) show ?thesis by (intro exI [of _ "fs @ gs"]) simp
  qed
qed simp

lemma mux_work_run_append:
  "fst (mux_work_run listens (fs @ gs) c) =
     fst (mux_work_run listens fs c) @ fst (mux_work_run listens gs (snd (mux_work_run listens fs c)))"
  "snd (mux_work_run listens (fs @ gs) c) = snd (mux_work_run listens gs (snd (mux_work_run listens fs c)))"
  by (induction fs arbitrary: c) (simp_all add: mux_work_run_Cons)

abbreviation open_frames :: "mux_frame list \<Rightarrow> mux_frame list" where
  "open_frames fs \<equiv> filter (\<lambda>f. \<exists>i. f = Open i) fs"

lemma mux_work_frame_next: "mw_next (snd (mux_work_frame listens f c)) = mw_next c + length (open_frames [f])"
  unfolding mux_work_frame_cases by (cases f) simp_all

lemma mux_work_run_ok: "channels_ok c \<Longrightarrow> channels_ok (snd (mux_work_run listens fs c))"
  by (induction fs arbitrary: c) (simp_all add: mux_work_run_Cons mux_work_frame_ok)

lemma mux_work_run_next: "mw_next (snd (mux_work_run listens fs c)) = mw_next c + length (open_frames fs)"
  by (induction fs arbitrary: c) (simp_all add: mux_work_run_Cons mux_work_frame_next)

lemma unused_channel:
  "channels_ok c \<Longrightarrow> mw_next c + length (open_frames fs) \<le> k \<Longrightarrow> delivered k (fst (mux_work_run listens fs c)) = []"
proof (induction fs arbitrary: c)
  case (Cons f fs)
  have "mw_next c \<le> k" using Cons.prems(2) by simp
  then have "delivered k (fst (mux_work_frame listens f c)) = []"
    using Cons.prems(1) unfolding mux_work_frame_cases
    by (cases f) (auto simp: channels_ok_def ran_def split: option.split)
  moreover have "mw_next (snd (mux_work_frame listens f c)) + length (open_frames fs) \<le> k"
    using Cons.prems(2) unfolding mux_work_frame_next by (simp split: if_splits)
  ultimately show ?case
    using Cons.IH [OF mux_work_frame_ok [OF Cons.prems(1)]] by (simp add: mux_work_run_Cons)
qed simp

lemma stream_ids_distinct:
  assumes "m < 2 ^ 32" "n < 2 ^ 32" "(a :: u32) + of_nat m = a + of_nat n"
  shows "m = n"
proof -
  from assms(3) have "(of_nat m :: u32) = of_nat n" by simp
  then show ?thesis using assms(1,2) by (simp add: word_of_nat_eq_iff take_bit_eq_mod)
qed

text \<open>
  The tunnel keeps its streams apart. Whatever the connections that share it do, in whatever order, and
  whatever arrives from the client meanwhile: the channel of the stream that one of them opened receives,
  at the client, exactly the data this connection sent before it closed the stream, in order. This
  holds as long as the client does not close the stream and fewer than \<open>2 ^ 32\<close> streams have been opened;
  after that the numbers repeat.
\<close>

theorem mux_streams_isolated:
  assumes "opens (pre @ OpOpen tx # post) \<le> 2 ^ 32" "i = 1 + of_nat (opens pre)"
    and "OpFrame (Close i) \<notin> set post" "listens tx" "listens' (opens pre)"
  shows "delivered (opens pre)
      (fst (mux_work_run listens' (mx_frames (mux_ops listens (pre @ OpOpen tx # post) mux_tunnel_new)) mux_work_new))
    = op_data i post"
proof -
  let ?t0 = "mux_ops listens pre mux_tunnel_new"
  let ?t1 = "mux_op_step listens (OpOpen tx) ?t0"
  obtain fs where fs: "mx_frames ?t0 = fs" "\<not> mx_closed ?t0" "mx_next_stream_id ?t0 = i"
    "open_frames fs = map (\<lambda>n. Open (1 + of_nat n)) [0..<opens pre]"
    using mux_ops_frames [of mux_tunnel_new listens pre] assms(2) by (auto simp: mux_tunnel_new_def)
  have t1: "mx_frames ?t1 = fs @ [Open i]" "\<not> mx_closed ?t1" "mx_streams ?t1 i = Some tx"
    "mx_next_stream_id ?t1 = i + 1"
    using fs(1-3) by (simp_all add: mux_op_defs)
  have fresh: "i + 1 + of_nat n \<noteq> i" if "n < opens post" for n
  proof
    assume "i + 1 + of_nat n = i"
    then have "i + of_nat (Suc n) = i + of_nat 0" by (simp add: add.commute add.left_commute)
    moreover have "Suc n < 2 ^ 32" using that assms(1) by simp
    ultimately show False using stream_ids_distinct [of "Suc n" 0 i] by simp
  qed
  obtain gs where gs: "mx_frames (mux_ops listens post ?t1) = mx_frames ?t1 @ gs"
    "until_close i gs = op_data i post"
    using fresh live_ops [where listens = listens, OF t1(2,3) assms(4,3)] t1(4) by auto
  have no_open: "Open i \<notin> set gs"
  proof
    assume open_i: "Open i \<in> set gs"
    obtain hs where hs': "mx_frames (mux_ops listens post ?t1) = mx_frames ?t1 @ hs"
      and hs: "open_frames hs = map (\<lambda>n. Open (mx_next_stream_id ?t1 + of_nat n)) [0..<opens post]"
      using mux_ops_frames [OF t1(2)] by blast
    have "gs = hs" using gs(1) hs' by simp
    with open_i have "Open i \<in> set (open_frames hs)" unfolding set_filter by blast
    then obtain n where "n < opens post" "i = i + 1 + of_nat n" unfolding hs t1(4) by auto
    with fresh show False by metis
  qed
  let ?c0 = "snd (mux_work_run listens' fs mux_work_new)"
  let ?c1 = "snd (mux_work_frame listens' (Open i) ?c0)"
  have ok: "channels_ok mux_work_new" by (simp add: channels_ok_def mux_work_new_def)
  have c0: "channels_ok ?c0" "mw_next ?c0 = opens pre"
    using mux_work_run_ok [OF ok] by (simp_all add: mux_work_run_next fs(4) mux_work_new_def)
  have "mw_streams ?c1 i = Some (opens pre)" by (simp add: c0(2))
  then have "delivered (opens pre) (fst (mux_work_run listens' gs ?c1)) = until_close i gs"
    by (rule live_channel [where listens = listens', OF mux_work_frame_ok [OF c0(1)] _ assms(5) no_open])
  moreover have "delivered (opens pre) (fst (mux_work_run listens' fs mux_work_new)) = []"
    by (rule unused_channel [OF ok]) (simp add: fs(4), simp add: mux_work_new_def)
  moreover have "fst (mux_work_frame listens' (Open i) ?c0) = []" by simp
  moreover have "mx_frames (mux_ops listens (pre @ OpOpen tx # post) mux_tunnel_new) = fs @ Open i # gs"
    using gs(1) t1(1) by (simp del: mux_op_step.simps)
  ultimately show ?thesis
    by (simp only: mux_work_run_append mux_work_run_Cons delivered_simps append_Nil gs(2))
qed

theorem mux_streams_isolated_witness:
  "delivered (opens [OpOpen 4, OpData 1 [9]])
      (fst (mux_work_run (\<lambda>_. True) (mx_frames (mux_ops (\<lambda>_. True)
        ([OpOpen 4, OpData 1 [9]] @ OpOpen 5 #
         [OpData 2 [1], OpData 1 [8], OpFrame mux_frame.Ping, OpData 2 [2, 3], OpClose 2, OpFrame (Data 2 [7])])
        mux_tunnel_new)) mux_work_new))
    = [[1], [2, 3]]"
proof -
  let ?post = "[OpData 2 [1], OpData 1 [8], OpFrame mux_frame.Ping, OpData 2 [2, 3], OpClose 2, OpFrame (Data 2 [7])]"
  have "op_data 2 ?post = [[1], [2, 3]]" by simp
  moreover have "opens ([OpOpen 4, OpData 1 [9]] @ OpOpen 5 # ?post) \<le> 2 ^ 32"
    "2 = 1 + (of_nat (opens [OpOpen 4, OpData 1 [9]]) :: u32)" "OpFrame (Close 2) \<notin> set ?post" by simp_all
  ultimately show ?thesis using mux_streams_isolated [where listens = "\<lambda>_. True" and listens' = "\<lambda>_. True"] by metis
qed

subsection \<open>Health checks\<close>

text \<open>Checks of the local service, each with its time and outcome.\<close>

definition check_all :: "(int \<times> bool) list \<Rightarrow> tcp_local \<Rightarrow> tcp_local" where
  "check_all cs p = fold (\<lambda>(now, ok) p. snd (check_health now ok p)) cs p"

fun spaced :: "int \<Rightarrow> int \<Rightarrow> int list \<Rightarrow> bool" where
  "spaced gap t0 [] = True"
| "spaced gap t0 (t # ts) = (gap \<le> t - t0 \<and> spaced gap t ts)"

lemma seconds_nonneg [simp]: "0 \<le> seconds n"
  by (simp add: seconds_def)

lemma check_health_const [simp]:
  "tcl_check_enable (snd (check_health now ok p)) = tcl_check_enable p"
  "tcl_check_interval (snd (check_health now ok p)) = tcl_check_interval p"
  "tcl_check_max_failed (snd (check_health now ok p)) = tcl_check_max_failed p"
  by (simp_all add: check_health_def Let_def)

lemma check_health_due:
  assumes "tcl_check_enable p" "seconds (tcl_check_interval p) \<le> now - tcl_last_check p"
  shows "tcl_last_check (snd (check_health now ok p)) = now"
    "tcl_failed (snd (check_health now ok p)) = (if ok then 0 else tcl_failed p + 1)"
    "tcl_healthy (snd (check_health now ok p)) =
       (ok \<or> tcl_healthy p \<and> tcl_failed p + 1 < tcl_check_max_failed p)"
    "(\<exists>e. fst (check_health now ok p) = Inl e) \<longleftrightarrow> \<not> tcl_healthy (snd (check_health now ok p))"
proof -
  have "\<not> max 0 (now - tcl_last_check p) < seconds (tcl_check_interval p)"
    using assms(2) seconds_nonneg [of "tcl_check_interval p"] by (simp add: max_def)
  with assms(1) show "tcl_last_check (snd (check_health now ok p)) = now"
    "tcl_failed (snd (check_health now ok p)) = (if ok then 0 else tcl_failed p + 1)"
    "tcl_healthy (snd (check_health now ok p)) =
       (ok \<or> tcl_healthy p \<and> tcl_failed p + 1 < tcl_check_max_failed p)"
    "(\<exists>e. fst (check_health now ok p) = Inl e) \<longleftrightarrow> \<not> tcl_healthy (snd (check_health now ok p))"
    by (auto simp: check_health_def Let_def not_less)
qed

lemma check_all_simps [simp]:
  "check_all [] p = p" "check_all ((now, ok) # cs) p = check_all cs (snd (check_health now ok p))"
  "check_all (cs @ ds) p = check_all ds (check_all cs p)"
  by (simp_all add: check_all_def)

lemma spaced_snoc:
  "spaced gap t0 (ts @ us) \<longleftrightarrow> spaced gap t0 ts \<and> spaced gap (if ts = [] then t0 else last ts) us"
  by (induction ts arbitrary: t0) auto

lemma check_all_frame:
  "tcl_check_enable (check_all cs p) = tcl_check_enable p"
  "tcl_check_interval (check_all cs p) = tcl_check_interval p"
  "tcl_check_max_failed (check_all cs p) = tcl_check_max_failed p"
  by (induction cs arbitrary: p) auto

lemma check_all_last:
  "tcl_check_enable p \<Longrightarrow> spaced (seconds (tcl_check_interval p)) (tcl_last_check p) (map fst cs) \<Longrightarrow>
   tcl_last_check (check_all cs p) = (if cs = [] then tcl_last_check p else fst (last cs))"
  by (induction cs arbitrary: p) (auto simp: check_health_due)

lemma failures_counted:
  assumes "tcl_check_enable p" "spaced (seconds (tcl_check_interval p)) (tcl_last_check p) ts"
    and "tcl_failed p = of_nat k" "k + length ts < 2 ^ 32"
    and "tcl_healthy p \<longleftrightarrow> k < unat (tcl_check_max_failed p)"
  shows "tcl_healthy (check_all (map (\<lambda>t. (t, False)) ts) p) \<longleftrightarrow> k + length ts < unat (tcl_check_max_failed p)"
  using assms
proof (induction ts arbitrary: p k)
  case (Cons t ts)
  let ?p = "snd (check_health t False p)"
  have due: "seconds (tcl_check_interval p) \<le> t - tcl_last_check p" using Cons.prems(2) by simp
  note step = check_health_due [OF Cons.prems(1) due, of False]
  have "unat (of_nat (Suc k) :: u32) = Suc k" using Cons.prems(4) by (simp only: unat_of_nat) simp
  then have "tcl_healthy ?p \<longleftrightarrow> Suc k < unat (tcl_check_max_failed ?p)"
    using step(3) Cons.prems(3,5) by (auto simp: word_less_nat_alt add.commute)
  moreover have "tcl_failed ?p = of_nat (Suc k)" using step(2) Cons.prems(3) by simp
  moreover have "spaced (seconds (tcl_check_interval ?p)) (tcl_last_check ?p) ts" "tcl_check_enable ?p"
    using step(1) Cons.prems(1,2) by simp_all
  ultimately show ?case using Cons.IH [of ?p "Suc k"] Cons.prems(4) by simp
qed simp

text \<open>
  The health check of a local service: after a success, the proxy is taken for unhealthy exactly from the
  configured number of failures in a row on, whatever the checks before showed.
\<close>

theorem health_check_exact:
  assumes "tcl_check_enable p" "1 \<le> tcl_check_max_failed p" "length ts < 2 ^ 32"
    and "spaced (seconds (tcl_check_interval p)) (tcl_last_check p) (map fst before @ t # ts)"
  shows "tcl_healthy (check_all (before @ (t, True) # map (\<lambda>t. (t, False)) ts) p) \<longleftrightarrow>
    length ts < unat (tcl_check_max_failed p)"
proof -
  let ?q = "check_all before p"
  let ?r = "snd (check_health t True ?q)"
  have sp: "spaced (seconds (tcl_check_interval p)) (tcl_last_check p) (map fst before)"
    "spaced (seconds (tcl_check_interval p)) (tcl_last_check ?q) (t # ts)"
    using assms(4) check_all_last [OF assms(1), of before]
    by (auto simp: spaced_snoc last_map split: if_splits)
  then have due: "seconds (tcl_check_interval ?q) \<le> t - tcl_last_check ?q" by (simp add: check_all_frame)
  have en: "tcl_check_enable ?q" using assms(1) by (simp add: check_all_frame)
  note step = check_health_due [OF en due, of True]
  have "0 < unat (tcl_check_max_failed p)" using assms(2) by (simp add: word_le_nat_alt)
  then have "tcl_healthy (check_all (map (\<lambda>t. (t, False)) ts) ?r) \<longleftrightarrow>
      0 + length ts < unat (tcl_check_max_failed ?r)"
    using sp(2) step assms(3) en by (intro failures_counted) (simp_all add: check_all_frame)
  then show ?thesis by (simp add: check_all_frame)
qed

definition demo_tcp_local :: tcp_local where
  "demo_tcp_local =
     \<lparr>tcl_name = ''web'', tcl_local_ip = ''127.0.0.1'', tcl_local_port = 80, tcl_tcp_mux = False, tcl_stcp = False,
      tcl_secret = [], tcl_check_enable = True, tcl_check_timeout = 2, tcl_check_interval = 5,
      tcl_check_max_failed = 2, tcl_last_check = 0, tcl_failed = 0, tcl_healthy = True\<rparr>"

theorem health_check_exact_witness:
  "\<not> tcl_healthy (check_all ([(5000000000, False)] @ (10000000000, True) #
      map (\<lambda>t. (t, False)) [15000000000, 20000000000]) demo_tcp_local) \<and>
   tcl_healthy (check_all ([(5000000000, False)] @ (10000000000, True) #
      map (\<lambda>t. (t, False)) [15000000000]) demo_tcp_local)"
  using health_check_exact [of demo_tcp_local "[15000000000, 20000000000]" "[(5000000000, False)]" 10000000000]
    health_check_exact [of demo_tcp_local "[15000000000]" "[(5000000000, False)]" 10000000000]
  by (simp add: demo_tcp_local_def seconds_def)

subsection \<open>UDP packets, there and back\<close>

lemma encode_decode_packet:
  assumes "sha_ok pf" "aead_ok pf" "gzip_ok pf" "length nonce = 12"
    and "encode_packet pf compr encr secret nonce packet = Inr data"
  shows "decode_packet pf compr encr secret data = Inr packet"
  using assms packet_encrypt_Inr [OF assms(1,2,4)] compress_Inr [OF assms(3)]
  by (auto simp: encode_packet_def decode_packet_def split: if_splits sum.splits)

text \<open>
  One packet with its answer: the public sender, the packet and the answer of the local service, and
  both as they travel through the tunnel.
\<close>

record exchange =
  ex_tx :: chan
  ex_src :: string
  ex_packet :: bytes
  ex_request :: bytes
  ex_answer :: bytes
  ex_response :: bytes

fun req_frames :: "u32 \<Rightarrow> exchange list \<Rightarrow> udp_mux_frame list" where
  "req_frames i [] = []"
| "req_frames i (x # xs) = Req i (ex_src x) (ex_request x) # req_frames (i + 1) xs"

fun resp_frames :: "u32 \<Rightarrow> exchange list \<Rightarrow> udp_mux_frame list" where
  "resp_frames i [] = []"
| "resp_frames i (x # xs) = Resp i (ex_response x) # resp_frames (i + 1) xs"

definition udp_send_all :: "exchange list \<Rightarrow> udp_tunnel \<Rightarrow> udp_tunnel" where
  "udp_send_all xs t = fold (\<lambda>x t. snd (roundtrip_send (ex_tx x) (ex_src x) (ex_request x) t)) xs t"

fun udp_read_all :: "udp_mux_frame list \<Rightarrow> udp_tunnel \<Rightarrow> (chan \<times> bytes) list" where
  "udp_read_all [] t = []"
| "udp_read_all (f # fs) t = (let (ds, t) = udp_reader_frame f t in ds @ udp_read_all fs t)"

lemma udp_send_all_frames:
  assumes "\<not> ut_closed t" "length xs \<le> 2 ^ 32"
  shows "ut_frames (udp_send_all xs t) = ut_frames t @ req_frames (ut_next_request_id t) xs \<and>
    (\<forall>n < length xs. ut_pending (udp_send_all xs t) (ut_next_request_id t + of_nat n) = Some (ex_tx (xs ! n))) \<and>
    (\<forall>i. (\<forall>n < length xs. i \<noteq> ut_next_request_id t + of_nat n) \<longrightarrow>
       ut_pending (udp_send_all xs t) i = ut_pending t i)"
  using assms
proof (induction xs arbitrary: t)
  case (Cons x xs)
  let ?i = "ut_next_request_id t"
  let ?t = "snd (roundtrip_send (ex_tx x) (ex_src x) (ex_request x) t)"
  have t: "ut_frames ?t = ut_frames t @ [Req ?i (ex_src x) (ex_request x)]" "\<not> ut_closed ?t"
    "ut_next_request_id ?t = ?i + 1" "ut_pending ?t = (ut_pending t)(?i \<mapsto> ex_tx x)"
    using Cons.prems(1) by (simp_all add: roundtrip_send_def Let_def)
  have "length xs \<le> 2 ^ 32" using Cons.prems(2) by simp
  note IH = Cons.IH [OF t(2) this]
  have all: "udp_send_all (x # xs) t = udp_send_all xs ?t" by (simp add: udp_send_all_def)
  have fresh: "?i \<noteq> ?i + 1 + of_nat n" if "n < length xs" for n
  proof
    assume "?i = ?i + 1 + of_nat n"
    then have "?i + of_nat (Suc n) = ?i + of_nat 0" by (simp add: add.commute add.left_commute)
    with that Cons.prems(2) stream_ids_distinct [of "Suc n" 0 ?i] show False by simp
  qed
  have "ut_pending (udp_send_all xs ?t) (?i + of_nat n) = Some (ex_tx ((x # xs) ! n))"
    if "n < length (x # xs)" for n
  proof (cases n)
    case 0
    with IH fresh t(3,4) show ?thesis by simp
  next
    case (Suc m)
    with that IH t(3) show ?thesis by (simp add: add.assoc)
  qed
  moreover have "ut_pending (udp_send_all xs ?t) i = ut_pending t i"
    if i: "\<forall>n < length (x # xs). i \<noteq> ?i + of_nat n" for i
  proof -
    have "i \<noteq> ?i + 1 + of_nat n" if "n < length xs" for n
      using i [THEN spec, of "Suc n"] that by (simp add: add.commute add.left_commute)
    with IH t(3) have "ut_pending (udp_send_all xs ?t) i = ut_pending ?t i" by simp
    moreover have "i \<noteq> ?i" using i [THEN spec, of 0] by simp
    ultimately show ?thesis by (simp add: t(4))
  qed
  ultimately show ?case using IH t(1,3) unfolding all by simp
qed (simp add: udp_send_all_def)

lemma udp_read_all_responses:
  assumes "\<forall>n < length xs. ut_pending t (i + of_nat n) = Some (ex_tx (xs ! n))" "length xs \<le> 2 ^ 32"
  shows "udp_read_all (resp_frames i xs) t = map (\<lambda>x. (ex_tx x, ex_response x)) xs"
  using assms
proof (induction xs arbitrary: i t)
  case (Cons x xs)
  let ?t = "t\<lparr>ut_pending := (ut_pending t)(i := None)\<rparr>"
  have "ut_pending ?t (i + 1 + of_nat n) = Some (ex_tx (xs ! n))" if n: "n < length xs" for n
  proof -
    have "i + of_nat (Suc n) \<noteq> i + of_nat 0"
      using stream_ids_distinct [of "Suc n" 0 i] n Cons.prems(2) by auto
    with Cons.prems(1) [THEN spec, of "Suc n"] n show ?thesis by (simp add: add.commute add.left_commute)
  qed
  moreover have "ut_pending t i = Some (ex_tx x)" using Cons.prems(1) [THEN spec, of 0] by simp
  ultimately show ?case using Cons.IH [of ?t "i + 1"] Cons.prems(2) by simp
qed simp

text \<open>
  The exchanges that take place, \<open>k\<close> requests having been handled before: the server encodes the packet
  under some nonce, the local service answers, the client encodes the answer.
\<close>

fun exchanges_ok ::
  "platform \<Rightarrow> udp_local \<Rightarrow> (nat \<Rightarrow> bytes \<Rightarrow> local_answer) \<Rightarrow> (nat \<Rightarrow> bytes) \<Rightarrow> nat \<Rightarrow> exchange list \<Rightarrow> bool" where
  "exchanges_ok pf p services nonces k [] = True"
| "exchanges_ok pf p services nonces k (x # xs) =
     ((\<exists>nonce. length nonce = 12 \<and>
         encode_packet pf (ucl_use_compression p) (ucl_use_encryption p) (ucl_secret p) nonce (ex_packet x)
           = Inr (ex_request x)) \<and>
      services k (ex_packet x) = Responded (ex_answer x) \<and> length (nonces k) = 12 \<and>
      encode_packet pf (ucl_use_compression p) (ucl_use_encryption p) (ucl_secret p) (nonces k) (ex_answer x)
        = Inr (ex_response x) \<and>
      exchanges_ok pf p services nonces (Suc k) xs)"

lemma udp_work_loop_exchanges:
  assumes "sha_ok pf" "aead_ok pf" "gzip_ok pf" "sink_ok w" "exchanges_ok pf p services nonces k xs"
  shows "udp_work_loop pf p services nonces k (req_frames i xs) fin w =
    (fin, w\<lparr>sk_data := sk_data w @ concat (map udp_bytes (resp_frames i xs))\<rparr>)"
  using assms(4,5)
proof (induction xs arbitrary: k i w)
  case (Cons x xs)
  let ?w = "w\<lparr>sk_data := sk_data w @ udp_bytes (Resp i (ex_response x))\<rparr>"
  obtain nonce where "length nonce = 12"
    "encode_packet pf (ucl_use_compression p) (ucl_use_encryption p) (ucl_secret p) nonce (ex_packet x)
      = Inr (ex_request x)" using Cons.prems(2) by auto
  from encode_decode_packet [OF assms(1-3) this] Cons.prems(2)
  have "udp_request pf p (services k) (nonces k) (ex_request x) = Inr (ex_response x)"
    by (simp add: udp_request_def)
  moreover have "write_udp_mux_frame (Resp i (ex_response x)) w = (Inr (), ?w)"
    using Cons.prems(1) by (simp add: write_udp_mux_frame_def write_flush_ok)
  moreover have "udp_work_loop pf p services nonces (Suc k) (req_frames (i + 1) xs) fin ?w =
      (fin, ?w\<lparr>sk_data := sk_data ?w @ concat (map udp_bytes (resp_frames (i + 1) xs))\<rparr>)"
    using Cons.IH [of ?w "Suc k" "i + 1"] Cons.prems by simp
  ultimately show ?case by simp
qed simp

lemma exchanges_decoded:
  assumes "sha_ok pf" "aead_ok pf" "gzip_ok pf" "exchanges_ok pf p services nonces k xs" "x \<in> set xs"
  shows "decode_packet pf (ucl_use_compression p) (ucl_use_encryption p) (ucl_secret p) (ex_response x)
    = Inr (ex_answer x)"
  using assms(4,5)
proof (induction xs arbitrary: k)
  case (Cons y ys)
  with encode_decode_packet [OF assms(1-3), where nonce = "nonces k"] show ?case by auto
qed simp

text \<open>
  UDP packets, there and back. Packets from any number of senders go through a tunnel one after the
  other; the client hands each to the local service and writes the answers; the server's reader puts
  each answer on the channel of the packet it belongs to, and what the sender gets back is what the local
  service answered, through compression and encryption if they are configured. The request numbers may
  run through all \<open>2 ^ 32\<close> values.
\<close>

theorem udp_there_and_back:
  assumes "sha_ok pf" "aead_ok pf" "gzip_ok pf" "sink_ok w" "sk_data w = []"
    and "\<not> ut_closed t" "ut_frames t = []" "length xs \<le> 2 ^ 32"
    and "exchanges_ok pf p services nonces 0 xs"
  shows "\<exists>fs. udp_work_conn pf None None p services nonces (ut_frames (udp_send_all xs t)) fin w =
      (fin, w\<lparr>sk_data := concat (map udp_bytes fs)\<rparr>) \<and>
    udp_read_all fs (udp_send_all xs t) = map (\<lambda>x. (ex_tx x, ex_response x)) xs \<and>
    list_all (\<lambda>x. udp_packet_end pf (\<lambda>_. None) (ucl_use_compression p) (ucl_use_encryption p) (ucl_secret p)
        (Answer (ex_response x)) = Inr (ex_answer x)) xs"
proof (intro exI conjI)
  let ?i = "ut_next_request_id t"
  note sent = udp_send_all_frames [OF assms(6,8)]
  show "udp_work_conn pf None None p services nonces (ut_frames (udp_send_all xs t)) fin w =
      (fin, w\<lparr>sk_data := concat (map udp_bytes (resp_frames ?i xs))\<rparr>)"
    using sent assms(5,7) udp_work_loop_exchanges [OF assms(1-4,9)] by (simp add: udp_work_conn_def)
  show "udp_read_all (resp_frames ?i xs) (udp_send_all xs t) = map (\<lambda>x. (ex_tx x, ex_response x)) xs"
    using sent assms(8) by (intro udp_read_all_responses) simp_all
  show "list_all (\<lambda>x. udp_packet_end pf (\<lambda>_. None) (ucl_use_compression p) (ucl_use_encryption p) (ucl_secret p)
      (Answer (ex_response x)) = Inr (ex_answer x)) xs"
    using exchanges_decoded [OF assms(1-3,9)] by (simp add: list_all_iff udp_packet_end_def)
qed

definition demo_udp_local :: udp_local where
  "demo_udp_local = \<lparr>ucl_name = ''dns'', ucl_local_ip = ''127.0.0.1'', ucl_local_port = 53,
     ucl_use_compression = True, ucl_use_encryption = True, ucl_secret = ''k''\<rparr>"

definition demo_exchange :: "chan \<Rightarrow> u8 \<Rightarrow> exchange" where
  "demo_exchange tx b =
     \<lparr>ex_tx = tx, ex_src = ''1.2.3.4:5'', ex_packet = [b], ex_request = replicate 12 5 @ [b + 108] @ replicate 16 0,
      ex_answer = [b, b], ex_response = replicate 12 6 @ [b + 108, b + 108] @ replicate 16 0\<rparr>"

theorem udp_there_and_back_witness:
  "\<exists>fs. udp_work_conn demo_platform None None demo_udp_local (\<lambda>_ q. Responded (q @ q)) (\<lambda>_. replicate 12 6)
        (ut_frames (udp_send_all [demo_exchange 7 1, demo_exchange 9 2] udp_tunnel_new)) ConnectionClosed demo_sink =
      (ConnectionClosed, demo_sink\<lparr>sk_data := concat (map udp_bytes fs)\<rparr>) \<and>
    udp_read_all fs (udp_send_all [demo_exchange 7 1, demo_exchange 9 2] udp_tunnel_new) =
      map (\<lambda>x. (ex_tx x, ex_response x)) [demo_exchange 7 1, demo_exchange 9 2] \<and>
    list_all (\<lambda>x. udp_packet_end demo_platform (\<lambda>_. None) (ucl_use_compression demo_udp_local)
        (ucl_use_encryption demo_udp_local) (ucl_secret demo_udp_local)
        (Answer (ex_response x)) = Inr (ex_answer x)) [demo_exchange 7 1, demo_exchange 9 2]"
proof (rule udp_there_and_back)
  have "encode_packet demo_platform True True ''k'' (replicate 12 5) [b] = Inr (replicate 12 5 @ [b + 108] @ replicate 16 0)"
    "encode_packet demo_platform True True ''k'' (replicate 12 6) [b, b] =
       Inr (replicate 12 6 @ [b + 108, b + 108] @ replicate 16 0)" for b
    by (simp_all add: encode_packet_def compress_def packet_encrypt_def demo_platform_def derive_key_def
        as_bytes_def as_byte_def)
  then show "exchanges_ok demo_platform demo_udp_local (\<lambda>_ q. Responded (q @ q)) (\<lambda>_. replicate 12 6) 0
      [demo_exchange 7 1, demo_exchange 9 2]"
    by (auto simp: demo_udp_local_def demo_exchange_def intro!: exI [of _ "replicate 12 5"])
qed (simp_all add: demo_platform_ok demo_gzip_ok demo_sink_def sink_ok_def udp_tunnel_new_def)

end
