(* ===== verification/ClientConn.thy ===== *)
theory ClientConn
  imports LocalProxies
begin

text \<open>
  The connections a client makes, \<^verbatim>\<open>arp-client/src/control/mod.rs\<close>: which transport is used and how the
  server is dialled, the messages the client builds, the login and the registration of the configured
  proxies, work connections and the pool of them, and the visitors. The records \<open>outside\<close> and \<open>host\<close> hold
  what certificates, name resolution, the transports and the operating system answer.
\<close>

subsection \<open>Transports\<close>

datatype cached_transport =
    PlainTcp
  | Tls "bytes list" string
  | Ws
  | Wss "bytes list" string
  | Kcp
  | Quic "bytes list"

text \<open>
  How the server is dialled: the address, for TLS and QUIC the trusted certificates and the name the
  server must prove, for WebSocket the URL, for QUIC the local address.
\<close>

datatype dial =
    DialTcp string
  | DialTls string "bytes list" string
  | DialWs string string
  | DialWss string "bytes list" string string
  | DialKcp socket_addr
  | DialQuic string socket_addr "bytes list" string

datatype dial_end =
    Connected conn
  | TcpFailed io_error
  | TlsFailed string
  | WsFailed string
  | KcpFailed string
  | EndpointFailed io_error
  | QuicInitFailed string
  | QuicFailed string
  | QuicOpenFailed string

text \<open>
  \<open>ou_file\<close> opens a file of certificates and reads them one after the other, \<open>ou_add\<close> is the error of
  trusting one, \<open>ou_quic\<close> that of making a QUIC configuration from them, \<open>ou_name\<close> that of taking a text as
  a TLS server name, \<open>ou_resolve\<close> the resolver, \<open>ou_dial\<close> what dialling leads to.
\<close>

record outside =
  ou_file :: "string \<Rightarrow> string + (string + bytes) list"
  ou_add :: "bytes \<Rightarrow> string option"
  ou_quic :: "bytes list \<Rightarrow> string option"
  ou_name :: "string \<Rightarrow> string option"
  ou_resolve :: "string \<Rightarrow> u16 \<Rightarrow> string + socket_addr list"
  ou_dial :: "dial \<Rightarrow> dial_end"

fun load_roots :: "(bytes \<Rightarrow> string option) \<Rightarrow> (string + bytes) list \<Rightarrow> bytes list \<Rightarrow> bytes list result" where
  "load_roots add [] roots = Inr roots"
| "load_roots add (Inl e # certs) roots = Inl (Config (''Failed to parse CA cert: '' @ e))"
| "load_roots add (Inr cert # certs) roots =
     (case add cert of
        Some e \<Rightarrow> Inl (Config (''Failed to add CA cert: '' @ e))
      | None \<Rightarrow> load_roots add certs (roots @ [cert]))"

definition open_roots :: "outside \<Rightarrow> string \<Rightarrow> bytes list result" where
  "open_roots ou file =
     (case ou_file ou file of
        Inl e \<Rightarrow> Inl (Config (''Failed to open trusted CA file: '' @ e))
      | Inr certs \<Rightarrow> load_roots (ou_add ou) certs [])"

definition build_quic_client_config :: "outside \<Rightarrow> client_config \<Rightarrow> bytes list result" where
  "build_quic_client_config ou config =
     (let file = tl_trusted_ca_file (tr_tls (cli_transport config)) in
      if file = [] then Inl (Config ''quic transport requires transport.tls.trusted_ca_file'')
      else
        case open_roots ou file of
          Inl e \<Rightarrow> Inl e
        | Inr roots \<Rightarrow>
            (case ou_quic ou roots of
               Some e \<Rightarrow> Inl (Config (''Failed to build QUIC client config: '' @ e))
             | None \<Rightarrow> Inr roots))"

definition build_tls_connector :: "outside \<Rightarrow> client_config \<Rightarrow> bytes list result" where
  "build_tls_connector ou config =
     (let file = tl_trusted_ca_file (tr_tls (cli_transport config)) in
      if file = [] then Inl (Config ''tls.enable is true but trusted_ca_file is empty'')
      else open_roots ou file)"

definition tls_name :: "client_config \<Rightarrow> string" where
  "tls_name config =
     (let name = tl_server_name (tr_tls (cli_transport config)) in
      if name \<noteq> [] then name else cli_server_addr config)"

definition tls_server_name :: "outside \<Rightarrow> client_config \<Rightarrow> string result" where
  "tls_server_name ou config =
     (let server_name = tls_name config in
      case ou_name ou server_name of
        Some e \<Rightarrow> Inl (Config (''Invalid TLS server_name '' @ server_name @ '': '' @ e))
      | None \<Rightarrow> Inr server_name)"

definition with_tls :: "outside \<Rightarrow> client_config \<Rightarrow> (bytes list \<Rightarrow> string \<Rightarrow> cached_transport) \<Rightarrow> cached_transport result" where
  "with_tls ou config f =
     (case build_tls_connector ou config of
        Inl e \<Rightarrow> Inl e
      | Inr connector \<Rightarrow>
          (case tls_server_name ou config of
             Inl e \<Rightarrow> Inl e
           | Inr server_name \<Rightarrow> Inr (f connector server_name)))"

definition cached_transport_build :: "outside \<Rightarrow> client_config \<Rightarrow> cached_transport result" where
  "cached_transport_build ou config =
     (case tr_protocol (cli_transport config) of
        TpKcp \<Rightarrow> Inr Kcp
      | TpQuic \<Rightarrow> (case build_quic_client_config ou config of Inl e \<Rightarrow> Inl e | Inr roots \<Rightarrow> Inr (Quic roots))
      | TpWebsocket \<Rightarrow> if tl_enable (tr_tls (cli_transport config)) then with_tls ou config Wss else Inr Ws
      | TpTcp \<Rightarrow> if tl_enable (tr_tls (cli_transport config)) then with_tls ou config Tls else Inr PlainTcp)"

definition resolve_socket_addr :: "outside \<Rightarrow> string \<Rightarrow> u16 \<Rightarrow> socket_addr result" where
  "resolve_socket_addr ou hst port =
     (case ou_resolve ou hst port of
        Inl e \<Rightarrow> Inl (Config (''Failed to resolve '' @ local_addr hst port @ '': '' @ e))
      | Inr [] \<Rightarrow> Inl (Config (''No socket address resolved for '' @ local_addr hst port))
      | Inr (a # _) \<Rightarrow> Inr a)"

definition dial_plan :: "outside \<Rightarrow> client_config \<Rightarrow> cached_transport \<Rightarrow> dial result" where
  "dial_plan ou config cached =
     (let server_addr = local_addr (cli_server_addr config) (cli_server_port config) in
      case cached of
        Kcp \<Rightarrow>
          (case resolve_socket_addr ou (cli_server_addr config) (cli_server_port config) of
             Inl e \<Rightarrow> Inl e
           | Inr a \<Rightarrow> Inr (DialKcp a))
      | Quic roots \<Rightarrow>
          (case resolve_socket_addr ou (cli_server_addr config) (cli_server_port config) of
             Inl e \<Rightarrow> Inl e
           | Inr a \<Rightarrow>
               Inr (DialQuic (case sa_ip a of V4 _ _ _ _ \<Rightarrow> ''0.0.0.0:0'' | V6 _ \<Rightarrow> ''[::]:0'') a roots (tls_name config)))
      | Ws \<Rightarrow> Inr (DialWs server_addr (''ws://'' @ server_addr @ ''/ws''))
      | Wss connector server_name \<Rightarrow>
          Inr (DialWss server_addr connector server_name (''wss://'' @ server_addr @ ''/ws''))
      | Tls connector server_name \<Rightarrow> Inr (DialTls server_addr connector server_name)
      | PlainTcp \<Rightarrow> Inr (DialTcp server_addr))"

fun dial_result :: "bool \<Rightarrow> dial_end \<Rightarrow> conn result" where
  "dial_result wss (Connected c) = Inr c"
| "dial_result wss (TcpFailed e) = Inl (Io e)"
| "dial_result wss (TlsFailed e) =
     Inl (Transport ((if wss then ''WSS TLS connect failed: '' else ''TLS connect failed: '') @ e))"
| "dial_result wss (WsFailed e) =
     Inl (Transport ((if wss then ''WSS handshake failed: '' else ''WS handshake failed: '') @ e))"
| "dial_result wss (KcpFailed e) = Inl (Transport (''KCP connect failed: '' @ e))"
| "dial_result wss (EndpointFailed e) = Inl (Io e)"
| "dial_result wss (QuicInitFailed e) = Inl (Transport (''QUIC connect init failed: '' @ e))"
| "dial_result wss (QuicFailed e) = Inl (Transport (''QUIC connect failed: '' @ e))"
| "dial_result wss (QuicOpenFailed e) = Inl (Transport (''QUIC stream open failed: '' @ e))"

fun is_wss :: "cached_transport \<Rightarrow> bool" where
  "is_wss (Wss _ _) = True"
| "is_wss _ = False"

definition connect_server_transport_cached :: "outside \<Rightarrow> client_config \<Rightarrow> cached_transport \<Rightarrow> conn result" where
  "connect_server_transport_cached ou config cached =
     (case dial_plan ou config cached of
        Inl e \<Rightarrow> Inl e
      | Inr d \<Rightarrow> dial_result (is_wss cached) (ou_dial ou d))"

subsection \<open>Messages\<close>

definition effective_multiplexer :: "client_config \<Rightarrow> proxy_config \<Rightarrow> string" where
  "effective_multiplexer config pc =
     (let has_lb_group = trim (lb_group (pc_load_balancer pc)) \<noteq> [] in
      if pc_multiplexer pc = [] \<and> tr_tcp_mux (cli_transport config) \<and> pc_proxy_type pc = Tcp \<and> \<not> has_lb_group
      then ''tcp_mux''
      else pc_multiplexer pc)"

definition new_proxy_of :: "proxy_config \<Rightarrow> string \<Rightarrow> new_proxy_msg" where
  "new_proxy_of pc multiplexer =
     \<lparr>np_proxy_name = pc_name pc, np_proxy_type = proxy_type_name (pc_proxy_type pc),
      np_use_encryption = pc_use_encryption pc, np_use_compression = pc_use_compression pc,
      np_local_ip = pc_local_ip pc, np_local_port = pc_local_port pc, np_remote_port = pc_remote_port pc,
      np_custom_domains = pc_custom_domains pc, np_subdomain = pc_subdomain pc,
      np_locations = pc_locations pc, np_host_header_rewrite = pc_host_header_rewrite pc,
      np_sk = pc_sk pc, np_multiplexer = multiplexer, np_fallback_to_relay = pc_fallback_to_relay pc,
      np_extra =
        JObject [(''load_balancer'',
          JObject [(''group'', JString (lb_group (pc_load_balancer pc))),
                   (''group_key'', JString (lb_group_key (pc_load_balancer pc)))])]\<rparr>"

record host =
  ho_name :: string
  ho_user :: string
  ho_os :: string
  ho_arch :: string
  ho_version :: string

definition effective_client_id :: "host \<Rightarrow> client_config \<Rightarrow> string" where
  "effective_client_id ho config =
     (if trim (cli_client_id config) \<noteq> [] then trim (cli_client_id config)
      else ho_user ho @ ''@'' @ ho_name ho @ '':'' @ cli_server_addr config)"

definition login_of :: "platform \<Rightarrow> host \<Rightarrow> client_config \<Rightarrow> i64 \<Rightarrow> login_msg" where
  "login_of pf ho config now =
     \<lparr>lg_version = ho_version ho, lg_hostname = ho_name ho, lg_os = ho_os ho, lg_arch = ho_arch ho,
      lg_user = ho_user ho, lg_client_id = effective_client_id ho config, lg_timestamp = now,
      lg_privilege_key = sign pf (ac_token (cli_auth config)) (show_int (sint now)), lg_run_id = [],
      lg_pool_count = tr_pool_count (cli_transport config)\<rparr>"

definition new_work_conn_of :: "platform \<Rightarrow> client_config \<Rightarrow> string \<Rightarrow> new_work_conn_msg" where
  "new_work_conn_of pf config run_id =
     \<lparr>nw_run_id = run_id, nw_privilege_key = sign pf (ac_token (cli_auth config)) run_id\<rparr>"

definition stcp_visitor_of :: "platform \<Rightarrow> visitor_config \<Rightarrow> i64 \<Rightarrow> stcp_visitor_conn_msg" where
  "stcp_visitor_of pf visitor ts =
     \<lparr>sv_proxy_name = vc_server_name visitor,
      sv_sk_signature = sign pf (vc_sk visitor) (show_int (sint ts)), sv_timestamp = ts\<rparr>"

definition nat_hole_visitor_of :: "string \<Rightarrow> string \<Rightarrow> string \<Rightarrow> nat_hole_visitor_msg" where
  "nat_hole_visitor_of server_name sk visitor_addr =
     \<lparr>nv_proxy_name = server_name, nv_signed_msg = sk @ ''|'' @ visitor_addr\<rparr>"

definition expected :: "string \<Rightarrow> message \<Rightarrow> error" where
  "expected what msg =
     Protocol (''Expected '' @ what @ '', got '' @ [CHR 0x27, of_byte (type_byte msg), CHR 0x27])"

subsection \<open>Login and registration\<close>

text \<open>
  \<open>send\<close> is the outcome of sending the request and \<open>recv\<close> that of reading the answer. A login yields the run
  identifier.
\<close>

definition client_login :: "unit result \<Rightarrow> message option result \<Rightarrow> string result" where
  "client_login send recv =
     (case send of
        Inl e \<Rightarrow> Inl e
      | Inr _ \<Rightarrow>
          (case recv of
             Inl e \<Rightarrow> Inl e
           | Inr None \<Rightarrow> Inl ConnectionClosed
           | Inr (Some (LoginResp resp)) \<Rightarrow>
               if lr_error resp \<noteq> [] then Inl (Auth (lr_error resp)) else Inr (lr_run_id resp)
           | Inr (Some msg) \<Rightarrow> Inl (expected ''LoginResp'' msg)))"

definition registration_answer :: "unit result \<Rightarrow> message option result \<Rightarrow> unit result" where
  "registration_answer send recv =
     (case send of
        Inl e \<Rightarrow> Inl e
      | Inr _ \<Rightarrow>
          (case recv of
             Inl e \<Rightarrow> Inl e
           | Inr None \<Rightarrow> Inl ConnectionClosed
           | Inr (Some (NewProxyResp resp)) \<Rightarrow>
               if nr_error resp \<noteq> [] then Inl (Proxy (nr_error resp)) else Inr ()
           | Inr (Some msg) \<Rightarrow> Inl (expected ''NewProxyResp'' msg)))"

definition effective_proxy :: "client_config \<Rightarrow> proxy_config \<Rightarrow> proxy_config" where
  "effective_proxy config pc = pc\<lparr>pc_multiplexer := effective_multiplexer config pc\<rparr>"

text \<open>
  The proxies are registered one after the other; \<open>answers\<close> gives for each request what sending and reading
  lead to, and the clock when the proxy is entered.
\<close>

fun register_proxies ::
  "client_config \<Rightarrow> (new_proxy_msg \<Rightarrow> unit result \<times> message option result \<times> int) \<Rightarrow> proxy_config list \<Rightarrow>
   client_proxies \<Rightarrow> unit result \<times> client_proxies" where
  "register_proxies config answers [] m = (Inr (), m)"
| "register_proxies config answers (pc # pcs) m =
     (let (send, recv, now) = answers (new_proxy_of pc (effective_multiplexer config pc)) in
      case registration_answer send recv of
        Inl e \<Rightarrow> (Inl e, m)
      | Inr _ \<Rightarrow> register_proxies config answers pcs (client_register_proxy now (effective_proxy config pc) m))"

subsection \<open>Work connections\<close>

definition client_handle_work_conn ::
  "int \<Rightarrow> bool \<Rightarrow> (tcp_local \<Rightarrow> unit result) \<Rightarrow> (tcp_local \<Rightarrow> unit result) \<Rightarrow> (tcp_local \<Rightarrow> unit result) \<Rightarrow>
   (udp_local \<Rightarrow> error) \<Rightarrow> client_proxy \<Rightarrow> unit result \<times> client_proxy" where
  "client_handle_work_conn now ok mux stcp plain udp proxy =
     (case proxy of
        LTcp p \<Rightarrow> (case tcp_handle_work_conn now ok mux stcp plain p of (r, p) \<Rightarrow> (r, LTcp p))
      | LUdp p \<Rightarrow> (Inl (udp p), LUdp p)
      | LXtcp p \<Rightarrow> (xtcp_work_conn, LXtcp p))"

text \<open>
  \<open>send\<close> and \<open>recv\<close> are what sending on and reading from the new connection lead to, \<open>handle\<close> is the proxy's
  handler; the table of proxies is returned with the proxy's state after the connection.
\<close>

definition create_work_conn_static ::
  "platform \<Rightarrow> outside \<Rightarrow> client_config \<Rightarrow> cached_transport \<Rightarrow> (conn \<Rightarrow> message \<Rightarrow> unit result) \<Rightarrow>
   (conn \<Rightarrow> message option result) \<Rightarrow> (conn \<Rightarrow> client_proxy \<Rightarrow> unit result \<times> client_proxy) \<Rightarrow> string \<Rightarrow>
   client_proxies \<Rightarrow> unit result \<times> client_proxies" where
  "create_work_conn_static pf ou config cached send recv handle run_id m =
     (if trim run_id = [] then (Inl (Protocol ''refuse to create work connection with empty run_id''), m)
      else
        case connect_server_transport_cached ou config cached of
          Inl e \<Rightarrow> (Inl e, m)
        | Inr c \<Rightarrow>
            (case send c (NewWorkConn (new_work_conn_of pf config run_id)) of
               Inl e \<Rightarrow> (Inl e, m)
             | Inr _ \<Rightarrow>
                 (case recv c of
                    Inl e \<Rightarrow> (Inl e, m)
                  | Inr None \<Rightarrow> (Inl ConnectionClosed, m)
                  | Inr (Some (StartWorkConn start_msg)) \<Rightarrow>
                      if sw_error start_msg \<noteq> [] then (Inl (Proxy (sw_error start_msg)), m)
                      else
                        (case client_get_proxy (sw_proxy_name start_msg) m of
                           None \<Rightarrow> (Inl (Proxy (''Unknown proxy: '' @ sw_proxy_name start_msg)), m)
                         | Some proxy \<Rightarrow>
                             (case handle c proxy of
                                (r, proxy) \<Rightarrow> (r, m(sw_proxy_name start_msg \<mapsto> proxy))))
                  | Inr (Some msg) \<Rightarrow> (Inl (expected ''StartWorkConn'' msg), m))))"

text \<open>
  One turn of a pool task. \<open>before\<close>, \<open>after\<close> and \<open>asleep\<close> tell whether the session has been cancelled by the
  start of the turn, by the end of the connection, and while the task sleeps (in milliseconds).
\<close>

datatype pool_next = PoolStop | PoolAgain | PoolSleep nat

definition pool_turn :: "bool \<Rightarrow> bool \<Rightarrow> bool \<Rightarrow> (string \<Rightarrow> unit result) \<Rightarrow> string \<Rightarrow> pool_next" where
  "pool_turn before after asleep work_conn run_id =
     (if before then PoolStop
      else if trim run_id = [] then (if asleep then PoolStop else PoolSleep 200)
      else
        let r = work_conn run_id in
        if after then PoolStop
        else
          case r of
            Inl ConnectionClosed \<Rightarrow> PoolAgain
          | Inl e \<Rightarrow> (if asleep then PoolStop else PoolSleep 1000)
          | Inr _ \<Rightarrow> PoolAgain)"

definition pool_tasks :: "client_config \<Rightarrow> nat" where
  "pool_tasks config = unat (tr_pool_count (cli_transport config))"

subsection \<open>Visitors\<close>

datatype visitor_kind = StcpVisitor | XtcpVisitor

definition visitor_kind_of :: "visitor_config \<Rightarrow> visitor_kind option" where
  "visitor_kind_of visitor =
     (if vc_visitor_type visitor = ''stcp'' then Some StcpVisitor
      else if vc_visitor_type visitor = ''xtcp'' then Some XtcpVisitor
      else None)"

definition start_visitors :: "client_config \<Rightarrow> (visitor_kind \<times> visitor_config) list" where
  "start_visitors config =
     concat (map (\<lambda>v. case visitor_kind_of v of None \<Rightarrow> [] | Some k \<Rightarrow> [(k, v)]) (cli_visitors config))"

text \<open>The address a visitor listens on; \<open>bind\<close> is the error of binding it.\<close>

definition visitor_listen :: "(string \<Rightarrow> io_error option) \<Rightarrow> visitor_kind \<Rightarrow> visitor_config \<Rightarrow> string result" where
  "visitor_listen bind kind visitor =
     (let bind_addr = (if trim (vc_bind_addr visitor) = [] then ''127.0.0.1'' else vc_bind_addr visitor);
          addr = local_addr bind_addr (vc_bind_port visitor)
      in if vc_bind_port visitor = 0 then
           Inl (Config ((case kind of StcpVisitor \<Rightarrow> ''stcp'' | XtcpVisitor \<Rightarrow> ''xtcp'')
             @ '' visitor '' @ vc_name visitor @ '' bind_port cannot be 0''))
         else (case bind addr of Some e \<Rightarrow> Inl (Io e) | None \<Rightarrow> Inr addr))"

datatype visitor_event = VisitorCancelled | VisitorAccepted conn | VisitorAcceptError io_error

fun visitor_loop :: "visitor_event list \<Rightarrow> conn list \<times> unit result option" where
  "visitor_loop [] = ([], None)"
| "visitor_loop (VisitorCancelled # evs) = ([], Some (Inr ()))"
| "visitor_loop (VisitorAcceptError e # evs) = ([], Some (Inl (Io e)))"
| "visitor_loop (VisitorAccepted c # evs) = (let (cs, r) = visitor_loop evs in (c # cs, r))"

text \<open>A connection of an STCP visitor; \<open>copied\<close> is the outcome of copying in both directions.\<close>

definition client_stcp_visitor_conn ::
  "platform \<Rightarrow> outside \<Rightarrow> client_config \<Rightarrow> cached_transport \<Rightarrow> visitor_config \<Rightarrow> i64 \<Rightarrow>
   (conn \<Rightarrow> message \<Rightarrow> unit result) \<Rightarrow> (conn \<Rightarrow> (u64 \<times> u64) result) \<Rightarrow> unit result" where
  "client_stcp_visitor_conn pf ou config cached visitor ts send copied =
     (case connect_server_transport_cached ou config cached of
        Inl e \<Rightarrow> Inl e
      | Inr c \<Rightarrow>
          (case send c (StcpVisitorConn (stcp_visitor_of pf visitor ts)) of
             Inl e \<Rightarrow> Inl e
           | Inr _ \<Rightarrow> (case copied c of Inl e \<Rightarrow> Inl e | Inr _ \<Rightarrow> Inr ())))"

definition normalize_relay_addr :: "string \<Rightarrow> string \<Rightarrow> string" where
  "normalize_relay_addr relay_addr server_addr =
     (case parse_socket_addr relay_addr of
        None \<Rightarrow> relay_addr
      | Some sa \<Rightarrow>
          if \<not> is_unspecified (sa_ip sa) \<and> \<not> is_loopback (sa_ip sa) then relay_addr
          else local_addr server_addr (sa_port sa))"

definition punch_timeout :: "visitor_config \<Rightarrow> u64" where
  "punch_timeout visitor = max (vc_xtcp_punch_timeout_secs visitor) 3"

text \<open>
  A connection of an XTCP visitor once its two sockets are bound (\<open>sockets\<close> is the error of that): \<open>peer\<close> is
  the answer of the server, \<open>first\<close> the end of the race between connecting and accepting, \<open>relay\<close> what
  connecting to the relay leads to.
\<close>

definition xtcp_peer_stream ::
  "client_config \<Rightarrow> visitor_config \<Rightarrow> io_error option \<Rightarrow> nat_hole_resp_msg result \<Rightarrow>
   (string \<Rightarrow> u64 \<Rightarrow> race_end + race_end) \<Rightarrow> (string \<Rightarrow> io_error + conn) \<Rightarrow> conn result" where
  "xtcp_peer_stream config visitor sockets peer first relay =
     (case sockets of
        Some e \<Rightarrow> Inl (Io e)
      | None \<Rightarrow>
          (case peer of
             Inl e \<Rightarrow> Inl e
           | Inr resp \<Rightarrow>
               let relay_addr = normalize_relay_addr (nh_relay_addr resp) (cli_server_addr config) in
               (case (case first (nh_client_addr resp) (punch_timeout visitor) of
                        Inl conn_end \<Rightarrow> race_result ''peer'' ''connect'' conn_end
                      | Inr acc_end \<Rightarrow> race_result ''peer'' ''accept'' acc_end) of
                  Inr c \<Rightarrow> Inr c
                | Inl e \<Rightarrow>
                    if vc_fallback_to_relay visitor \<and> relay_addr \<noteq> [] then
                      (case relay relay_addr of
                         Inr c \<Rightarrow> Inr c
                       | Inl ioe \<Rightarrow>
                           Inl (Proxy (''xtcp direct failed ('' @ error_to_string e @ ''), relay connect ''
                             @ relay_addr @ '' failed: '' @ io_msg ioe)))
                    else if vc_fallback_to_relay visitor then
                      Inl (Proxy (''xtcp direct failed: '' @ error_to_string e @ '', relay unavailable''))
                    else
                      Inl (Proxy (''xtcp direct failed: '' @ error_to_string e @ '' (fallback disabled)'')))))"

definition handle_xtcp_visitor_conn ::
  "(conn \<Rightarrow> (u64 \<times> u64) result) \<Rightarrow> conn result \<Rightarrow> sink \<Rightarrow> sink" where
  "handle_xtcp_visitor_conn copied peer inbound =
     (case (case peer of Inl e \<Rightarrow> Inl e | Inr c \<Rightarrow> (case copied c of Inl e \<Rightarrow> Inl e | Inr _ \<Rightarrow> Inr ())) of
        Inr _ \<Rightarrow> inbound
      | Inl e \<Rightarrow> snd (write_all (as_bytes (''xtcp error: '' @ error_to_string e @ [CHR 0x0A])) inbound))"

subsection \<open>What is sent in the clear\<close>

fun in_clear :: "dial \<Rightarrow> bool" where
  "in_clear (DialTcp _) = True"
| "in_clear (DialWs _ _) = True"
| "in_clear (DialKcp _) = True"
| "in_clear _ = False"

text \<open>The certificates and the name by which the server is authenticated.\<close>

fun dial_trust :: "dial \<Rightarrow> (bytes list \<times> string) option" where
  "dial_trust (DialTls _ roots name) = Some (roots, name)"
| "dial_trust (DialWss _ roots name _) = Some (roots, name)"
| "dial_trust (DialQuic _ _ roots name) = Some (roots, name)"
| "dial_trust _ = None"

lemma load_roots_Inr:
  "load_roots add certs roots = Inr rs \<Longrightarrow> \<exists>xs. certs = map Inr xs \<and> rs = roots @ xs"
proof (induction add certs roots rule: load_roots.induct)
  case (3 add cert certs roots)
  then obtain xs where "certs = map Inr xs" "rs = (roots @ [cert]) @ xs" by (auto split: option.splits)
  then show ?case by (intro exI [of _ "cert # xs"]) simp
qed auto

lemma open_roots_Inr:
  "open_roots ou file = Inr roots \<Longrightarrow> ou_file ou file = Inr (map Inr roots)"
  by (auto simp: open_roots_def split: sum.splits dest: load_roots_Inr)

text \<open>
  When the traffic between client and server is encrypted. A connection is dialled with TLS exactly for the
  QUIC transport and for TCP and WebSocket with \<^verbatim>\<open>tls.enable\<close>; then exactly the certificates of the trusted
  file are trusted and the configured name (or else the server's address) has to be proved, so there is no silent
  way back to plain text. With the KCP transport everything is sent in the clear, \<^verbatim>\<open>tls.enable\<close> or not.
\<close>

theorem transport_security:
  assumes "cached_transport_build ou config = Inr cached" "dial_plan ou config cached = Inr d"
  shows "(in_clear d \<longleftrightarrow> (case tr_protocol (cli_transport config) of
        TpQuic \<Rightarrow> False
      | TpKcp \<Rightarrow> True
      | _ \<Rightarrow> \<not> tl_enable (tr_tls (cli_transport config)))) \<and>
    (\<not> in_clear d \<longrightarrow>
      (\<exists>roots. dial_trust d = Some (roots, tls_name config) \<and>
        ou_file ou (tl_trusted_ca_file (tr_tls (cli_transport config))) = Inr (map Inr roots)))"
proof (cases "tr_protocol (cli_transport config)")
  case TpTcp
  with assms show ?thesis
    by (auto simp: cached_transport_build_def with_tls_def build_tls_connector_def tls_server_name_def dial_plan_def
        Let_def split: if_splits sum.splits option.splits intro!: open_roots_Inr)
next
  case TpKcp
  with assms show ?thesis
    by (auto simp: cached_transport_build_def dial_plan_def Let_def split: sum.splits)
next
  case TpQuic
  with assms show ?thesis
    by (auto simp: cached_transport_build_def build_quic_client_config_def dial_plan_def Let_def
        split: if_splits sum.splits option.splits intro!: open_roots_Inr)
next
  case TpWebsocket
  with assms show ?thesis
    by (auto simp: cached_transport_build_def with_tls_def build_tls_connector_def tls_server_name_def dial_plan_def
        Let_def split: if_splits sum.splits option.splits intro!: open_roots_Inr)
qed

definition demo_outside :: outside where
  "demo_outside =
     \<lparr>ou_file = (\<lambda>f. if f = ''ca.pem'' then Inr [Inr [1]] else Inl ''no such file''), ou_add = (\<lambda>_. None),
      ou_quic = (\<lambda>_. None), ou_name = (\<lambda>_. None),
      ou_resolve = (\<lambda>h p. Inr [\<lparr>sa_ip = V4 192 0 2 1, sa_port = p\<rparr>]), ou_dial = (\<lambda>_. Connected 0)\<rparr>"

definition demo_tls_config :: "transport_protocol \<Rightarrow> client_config" where
  "demo_tls_config proto = demo_client_config
     \<lparr>cli_transport := transport_default\<lparr>tr_protocol := proto,
        tr_tls := tls_default\<lparr>tl_enable := True, tl_trusted_ca_file := ''ca.pem''\<rparr>\<rparr>\<rparr>"

theorem transport_security_witness:
  "dial_trust (DialTls (local_addr ''proxy.example'' 7000) [[1]] ''proxy.example'') = Some ([[1]], tls_name (demo_tls_config TpTcp)) \<and>
   in_clear (DialKcp \<lparr>sa_ip = V4 192 0 2 1, sa_port = 7000\<rparr>)"
proof -
  note evals = demo_tls_config_def demo_outside_def demo_client_config_def transport_default_def tls_default_def
    cached_transport_build_def with_tls_def build_tls_connector_def tls_server_name_def open_roots_def tls_name_def
    dial_plan_def resolve_socket_addr_def
  have "cached_transport_build demo_outside (demo_tls_config TpTcp) = Inr (Tls [[1]] ''proxy.example'')"
    by (simp add: evals)
  moreover have "dial_plan demo_outside (demo_tls_config TpTcp) (Tls [[1]] ''proxy.example'') =
       Inr (DialTls (local_addr ''proxy.example'' 7000) [[1]] ''proxy.example'')"
    by (simp add: evals)
  ultimately have tcp: "dial_trust (DialTls (local_addr ''proxy.example'' 7000) [[1]] ''proxy.example'') =
      Some ([[1]], tls_name (demo_tls_config TpTcp))"
    using transport_security [of demo_outside "demo_tls_config TpTcp"] by fastforce
  have "cached_transport_build demo_outside (demo_tls_config TpKcp) = Inr Kcp"
    "dial_plan demo_outside (demo_tls_config TpKcp) Kcp = Inr (DialKcp \<lparr>sa_ip = V4 192 0 2 1, sa_port = 7000\<rparr>)"
    by (simp_all add: evals)
  from transport_security [OF this] tcp show ?thesis by (simp add: demo_tls_config_def)
qed

end
