(* ===== verification/ClientControl.thy ===== *)
theory ClientControl
  imports ClientConn "HOL-Library.Multiset"
begin

text \<open>
  The client's session with the server, \<^verbatim>\<open>Control\<close> of \<^verbatim>\<open>arp-client/src/control/mod.rs\<close>: its state, the
  commands that other tasks put to it, the message loop with its heartbeat, the requests that wait for an
  answer (opening an XTCP path, registering and closing a proxy while running, reloading), and the whole
  life of a session. Each turn of the loop gets the clock and what the network answers during that turn.
\<close>

subsection \<open>State and commands\<close>

record pending_proxy_resp =
  pp_reply_tx :: nat
  pp_proxy_config :: proxy_config
  pp_multiplexer :: string

record client_control =
  cn_config :: client_config
  cn_run_id :: string
  cn_proxies :: client_proxies
  cn_pending_xtcp :: "nat option"
  cn_pending_proxy :: "pending_proxy_resp option"
  cn_last_pong :: i64
  cn_cached :: cached_transport
  cn_cancelled :: bool

datatype control_command =
    OpenXtcp string string string nat
  | RegisterProxy proxy_config string nat
  | CloseProxyCmd string nat

text \<open>
  What a turn does to the outside: a message that went out, an answer to a waiting task (known by its
  number), a waiting task whose sender is dropped without an answer, a task started for a work connection.
\<close>

datatype client_effect =
    Put message
  | XtcpReply nat "nat_hole_resp_msg result"
  | ProxyReply nat "string result"
  | CloseReply nat "unit result"
  | HungUp nat
  | WorkConnTask string

text \<open>
  The surroundings of one turn: wall clock (seconds), monotonic clock (nanoseconds), what sending a message
  leads to (\<open>None\<close> when it takes longer than ten seconds), and the listener an XTCP proxy opens.
\<close>

record turn =
  tn_now :: i64
  tn_clock :: int
  tn_wire :: "message \<Rightarrow> unit result option"
  tn_listener :: "io_error + string"

definition transport_label :: "cached_transport \<Rightarrow> string" where
  "transport_label cached =
     (case cached of
        PlainTcp \<Rightarrow> ''tcp (plaintext)''
      | Tls _ _ \<Rightarrow> ''tcp+tls''
      | Ws \<Rightarrow> ''ws (plaintext websocket)''
      | Wss _ _ \<Rightarrow> ''wss (websocket+tls)''
      | Kcp \<Rightarrow> ''kcp''
      | Quic _ \<Rightarrow> ''quic+tls'')"

definition client_control_new :: "outside \<Rightarrow> client_config \<Rightarrow> client_proxies \<Rightarrow> i64 \<Rightarrow> (conn \<times> client_control) result" where
  "client_control_new ou config m now =
     (case cached_transport_build ou config of
        Inl e \<Rightarrow> Inl e
      | Inr cached \<Rightarrow>
          (case connect_server_transport_cached ou config cached of
             Inl e \<Rightarrow> Inl e
           | Inr transport \<Rightarrow>
               Inr (transport,
                 \<lparr>cn_config = config, cn_run_id = [], cn_proxies = m, cn_pending_xtcp = None,
                  cn_pending_proxy = None, cn_last_pong = now, cn_cached = cached, cn_cancelled = False\<rparr>)))"

definition client_shutdown :: "client_control \<Rightarrow> client_control" where
  "client_shutdown c = c\<lparr>cn_cancelled := True\<rparr>"

definition send_control_message :: "turn \<Rightarrow> message \<Rightarrow> unit result \<times> client_effect list" where
  "send_control_message tn msg =
     (case tn_wire tn msg of
        None \<Rightarrow> (Inl (Timeout ''send message timeout (10s)''), [])
      | Some (Inl e) \<Rightarrow> (Inl e, [])
      | Some (Inr _) \<Rightarrow> (Inr (), [Put msg]))"

definition handle_close_proxy_cmd ::
  "turn \<Rightarrow> string \<Rightarrow> client_control \<Rightarrow> unit result \<times> client_effect list \<times> client_control" where
  "handle_close_proxy_cmd tn proxy_name c =
     (case send_control_message tn (CloseProxy \<lparr>cp_proxy_name = proxy_name\<rparr>) of
        (Inl e, effs) \<Rightarrow> (Inl e, effs, c)
      | (Inr _, effs) \<Rightarrow> (Inr (), effs, c\<lparr>cn_proxies := client_unregister_proxy proxy_name (cn_proxies c)\<rparr>))"

fun handle_control_command ::
  "turn \<Rightarrow> control_command \<Rightarrow> client_control \<Rightarrow> unit result \<times> client_effect list \<times> client_control" where
  "handle_control_command tn (OpenXtcp server_name sk visitor_addr reply_tx) c =
     (case cn_pending_xtcp c of
        Some _ \<Rightarrow> (Inr (), [XtcpReply reply_tx (Inl (Proxy ''xtcp visitor request already in progress''))], c)
      | None \<Rightarrow>
          (case send_control_message tn (NatHoleVisitor (nat_hole_visitor_of server_name sk visitor_addr)) of
             (Inl e, effs) \<Rightarrow> (Inl e, effs @ [HungUp reply_tx], c\<lparr>cn_pending_xtcp := None\<rparr>)
           | (Inr _, effs) \<Rightarrow> (Inr (), effs, c\<lparr>cn_pending_xtcp := Some reply_tx\<rparr>)))"
| "handle_control_command tn (RegisterProxy proxy_config multiplexer reply_tx) c =
     (case cn_pending_proxy c of
        Some _ \<Rightarrow> (Inr (), [ProxyReply reply_tx (Inl (Proxy ''another proxy registration is in progress''))], c)
      | None \<Rightarrow>
          (case send_control_message tn (NewProxy (new_proxy_of proxy_config multiplexer)) of
             (Inl e, effs) \<Rightarrow> (Inr (), effs @ [ProxyReply reply_tx (Inl e)], c\<lparr>cn_pending_proxy := None\<rparr>)
           | (Inr _, effs) \<Rightarrow>
               (Inr (), effs,
                c\<lparr>cn_pending_proxy :=
                    Some \<lparr>pp_reply_tx = reply_tx, pp_proxy_config = proxy_config, pp_multiplexer = multiplexer\<rparr>\<rparr>)))"
| "handle_control_command tn (CloseProxyCmd proxy_name reply_tx) c =
     (case handle_close_proxy_cmd tn proxy_name c of
        (result, effs, c) \<Rightarrow> (Inr (), effs @ [CloseReply reply_tx result], c))"

subsection \<open>Messages from the server\<close>

definition handle_nathole_response :: "nat_hole_resp_msg \<Rightarrow> client_control \<Rightarrow> client_effect list \<times> client_control" where
  "handle_nathole_response resp c =
     (case cn_pending_xtcp c of
        None \<Rightarrow> ([], c)
      | Some tx \<Rightarrow>
          ([XtcpReply tx (if nh_error resp = [] then Inr resp else Inl (Proxy (nh_error resp)))],
           c\<lparr>cn_pending_xtcp := None\<rparr>))"

definition handle_new_proxy_resp ::
  "int \<Rightarrow> new_proxy_resp_msg \<Rightarrow> client_control \<Rightarrow> client_effect list \<times> client_control" where
  "handle_new_proxy_resp clock resp c =
     (case cn_pending_proxy c of
        None \<Rightarrow> ([], c)
      | Some pending \<Rightarrow>
          if nr_error resp \<noteq> [] then
            ([ProxyReply (pp_reply_tx pending)
                (Inl (Proxy (''proxy '' @ nr_proxy_name resp @ '' registration failed: '' @ nr_error resp)))],
             c\<lparr>cn_pending_proxy := None\<rparr>)
          else
            let effective = (pp_proxy_config pending)\<lparr>pc_multiplexer := pp_multiplexer pending\<rparr> in
            ([ProxyReply (pp_reply_tx pending) (Inr (nr_remote_addr resp))],
             c\<lparr>cn_pending_proxy := None, cn_proxies := client_register_proxy clock effective (cn_proxies c)\<rparr>))"

definition handle_req_work_conn :: "req_work_conn_msg \<Rightarrow> client_control \<Rightarrow> client_effect list" where
  "handle_req_work_conn req c =
     (if rq_proxy_name req \<noteq> [] \<and> \<not> is_proxy_available (rq_proxy_name req) (cn_proxies c) then []
      else if trim (cn_run_id c) = [] then []
      else [WorkConnTask (cn_run_id c)])"

definition nat_hole_answer :: "io_error + string \<Rightarrow> nat_hole_client_msg \<Rightarrow> client_proxies \<Rightarrow> nat_hole_resp_msg" where
  "nat_hole_answer listener req m =
     (case client_nat_hole listener (nc_proxy_name req) m of
        Inr client_addr \<Rightarrow>
          \<lparr>nh_visitor_addr = nc_visitor_addr req, nh_client_addr = client_addr, nh_relay_addr = [], nh_error = []\<rparr>
      | Inl e \<Rightarrow>
          \<lparr>nh_visitor_addr = nc_visitor_addr req, nh_client_addr = [], nh_relay_addr = [],
           nh_error = error_to_string e\<rparr>)"

fun handle_server_message ::
  "turn \<Rightarrow> message \<Rightarrow> client_control \<Rightarrow> unit result \<times> client_effect list \<times> client_control" where
  "handle_server_message tn (ReqWorkConn req) c = (Inr (), handle_req_work_conn req c, c)"
| "handle_server_message tn (message.Ping _) c =
     (case send_control_message tn (message.Pong \<lparr>po_timestamp = tn_now tn\<rparr>) of (r, effs) \<Rightarrow> (r, effs, c))"
| "handle_server_message tn (NewProxyResp resp) c = (Inr (), handle_new_proxy_resp (tn_clock tn) resp c)"
| "handle_server_message tn (message.Pong _) c = (Inr (), [], c\<lparr>cn_last_pong := tn_now tn\<rparr>)"
| "handle_server_message tn (NatHoleClient req) c =
     (case send_control_message tn (NatHoleResp (nat_hole_answer (tn_listener tn) req (cn_proxies c))) of
        (r, effs) \<Rightarrow> (r, effs, c))"
| "handle_server_message tn (NatHoleResp resp) c = (Inr (), handle_nathole_response resp c)"
| "handle_server_message tn _ c = (Inr (), [], c)"

subsection \<open>The message loop\<close>

text \<open>Reading a message: nothing within sixty seconds, or what the transport returns.\<close>

datatype recv_end = RecvTimeout | Recv "message option result"

fun recv_control_message :: "recv_end \<Rightarrow> message option result" where
  "recv_control_message RecvTimeout = Inr None"
| "recv_control_message (Recv (Inr (Some msg))) = Inr (Some msg)"
| "recv_control_message (Recv (Inr None)) = Inl ConnectionClosed"
| "recv_control_message (Recv (Inl e)) = Inl e"

text \<open>
  What wakes the loop. The sending of a heartbeat is itself under a timeout of ten seconds;
  \<open>HeartbeatTick True\<close> is the tick at which that one expires.
\<close>

datatype loop_event =
    TimeoutTick
  | HeartbeatTick bool
  | CommandRecv "control_command option"
  | MessageRecv recv_end

definition heartbeat_interval :: "client_config \<Rightarrow> u64" where
  "heartbeat_interval config =
     (if tr_heartbeat_interval (cli_transport config) > 0 then tr_heartbeat_interval (cli_transport config) else 30)"

definition heartbeat_timeout :: "client_config \<Rightarrow> u64" where
  "heartbeat_timeout config =
     (if tr_heartbeat_timeout (cli_transport config) > 0 then tr_heartbeat_timeout (cli_transport config) else 90)"

fun loop_turn ::
  "turn \<Rightarrow> loop_event \<Rightarrow> client_control \<Rightarrow> unit result \<times> client_effect list \<times> client_control" where
  "loop_turn tn TimeoutTick c =
     (if sint (tn_now tn - cn_last_pong c) > sint (heartbeat_timeout (cn_config c))
      then (Inl (Timeout ''heartbeat timeout''), [], c)
      else (Inr (), [], c))"
| "loop_turn tn (HeartbeatTick expired) c =
     (if expired then (Inl (Timeout ''ping send timeout''), [], c)
      else
        case send_control_message tn (message.Ping \<lparr>pi_timestamp = tn_now tn\<rparr>) of
          (r, effs) \<Rightarrow> (r, effs, c))"
| "loop_turn tn (CommandRecv None) c = (Inr (), [], c)"
| "loop_turn tn (CommandRecv (Some cmd)) c = handle_control_command tn cmd c"
| "loop_turn tn (MessageRecv r) c =
     (case recv_control_message r of
        Inl e \<Rightarrow> (Inl e, [], c)
      | Inr None \<Rightarrow> (Inr (), [], c)
      | Inr (Some msg) \<Rightarrow> handle_server_message tn msg c)"

text \<open>The loop only ever ends with an error; \<open>None\<close> is a loop still running after the given turns.\<close>

fun run_message_loop ::
  "(turn \<times> loop_event) list \<Rightarrow> client_control \<Rightarrow> error option \<times> client_effect list \<times> client_control" where
  "run_message_loop [] c = (None, [], c)"
| "run_message_loop ((tn, ev) # evs) c =
     (case loop_turn tn ev c of
        (Inl e, effs, c) \<Rightarrow> (Some e, effs, c)
      | (Inr _, effs, c) \<Rightarrow>
          (case run_message_loop evs c of (r, effs', c) \<Rightarrow> (r, effs @ effs', c)))"

subsection \<open>The life of a session\<close>

definition answer_pending :: "client_control \<Rightarrow> client_effect list \<times> client_control" where
  "answer_pending c =
     (let e = Transport ''control shutting down'' in
      ((case cn_pending_xtcp c of None \<Rightarrow> [] | Some tx \<Rightarrow> [XtcpReply tx (Inl e)])
       @ (case cn_pending_proxy c of None \<Rightarrow> [] | Some p \<Rightarrow> [ProxyReply (pp_reply_tx p) (Inl e)]),
       c\<lparr>cn_pending_xtcp := None, cn_pending_proxy := None\<rparr>))"

definition end_session :: "client_control \<Rightarrow> client_effect list \<times> client_control" where
  "end_session c = answer_pending ((client_shutdown c)\<lparr>cn_run_id := []\<rparr>)"

definition loop_until_end ::
  "(turn \<times> loop_event) list \<Rightarrow> client_control \<Rightarrow> error option \<times> client_effect list \<times> client_control" where
  "loop_until_end evs c =
     (case run_message_loop evs c of
        (None, effs, c) \<Rightarrow> (None, effs, c)
      | (Some e, effs, c) \<Rightarrow> (case end_session c of (effs', c) \<Rightarrow> (Some e, effs @ effs', c)))"

text \<open>
  \<^verbatim>\<open>Control::run\<close>: \<open>login\<close> is the exchange of the login, \<open>answers\<close> those of the registrations, \<open>evs\<close> the turns of
  the loop. \<open>None\<close> is a session still running.
\<close>

definition client_control_run ::
  "unit result \<times> message option result \<Rightarrow> (new_proxy_msg \<Rightarrow> unit result \<times> message option result \<times> int) \<Rightarrow>
   (turn \<times> loop_event) list \<Rightarrow> client_control \<Rightarrow> error option \<times> client_effect list \<times> client_control" where
  "client_control_run login answers evs c =
     (case client_login (fst login) (snd login) of
        Inl e \<Rightarrow> (Some e, [], c)
      | Inr run_id \<Rightarrow>
          let c = c\<lparr>cn_run_id := run_id\<rparr> in
          (case register_proxies (cn_config c) answers (cli_proxies (cn_config c)) (cn_proxies c) of
             (Inl e, m) \<Rightarrow> (Some e, [], c\<lparr>cn_proxies := m\<rparr>)
           | (Inr _, m) \<Rightarrow> loop_until_end evs (c\<lparr>cn_proxies := m\<rparr>)))"

subsection \<open>Requests of other tasks\<close>

text \<open>
  A task that has put a command waits at most ten seconds: the answer, the sender dropped without one, or
  neither in time.
\<close>

datatype 'a awaited = Answered 'a | SenderDropped | NoAnswer

definition await_register :: "string result awaited \<Rightarrow> client_control \<Rightarrow> string result \<times> client_control" where
  "await_register aw c =
     (case aw of
        Answered result \<Rightarrow> (result, c)
      | SenderDropped \<Rightarrow> (Inl (Transport ''register proxy channel closed''), c)
      | NoAnswer \<Rightarrow> (Inl (Timeout ''register proxy timeout''), c\<lparr>cn_pending_proxy := None\<rparr>))"

definition await_close :: "unit result awaited \<Rightarrow> unit result" where
  "await_close aw =
     (case aw of
        Answered result \<Rightarrow> result
      | SenderDropped \<Rightarrow> Inl (Transport ''close proxy channel closed'')
      | NoAnswer \<Rightarrow> Inl (Timeout ''close proxy timeout''))"

definition await_xtcp :: "nat_hole_resp_msg result awaited \<Rightarrow> client_control \<Rightarrow> nat_hole_resp_msg result \<times> client_control" where
  "await_xtcp aw c =
     (case aw of
        Answered result \<Rightarrow> (result, c)
      | SenderDropped \<Rightarrow> (Inl (Transport ''xtcp response channel closed''), c\<lparr>cn_pending_xtcp := None\<rparr>)
      | NoAnswer \<Rightarrow> (Inl (Timeout ''xtcp nat hole response timeout''), c\<lparr>cn_pending_xtcp := None\<rparr>))"

fun proxy_reply :: "nat \<Rightarrow> client_effect list \<Rightarrow> string result awaited" where
  "proxy_reply tx [] = NoAnswer"
| "proxy_reply tx (ProxyReply tx' r # effs) = (if tx' = tx then Answered r else proxy_reply tx effs)"
| "proxy_reply tx (_ # effs) = proxy_reply tx effs"

fun close_reply :: "nat \<Rightarrow> client_effect list \<Rightarrow> unit result awaited" where
  "close_reply tx [] = NoAnswer"
| "close_reply tx (CloseReply tx' r # effs) = (if tx' = tx then Answered r else close_reply tx effs)"
| "close_reply tx (_ # effs) = close_reply tx effs"

fun xtcp_reply :: "nat \<Rightarrow> client_effect list \<Rightarrow> nat_hole_resp_msg result awaited" where
  "xtcp_reply tx [] = NoAnswer"
| "xtcp_reply tx (XtcpReply tx' r # effs) = (if tx' = tx then Answered r else xtcp_reply tx effs)"
| "xtcp_reply tx (HungUp tx' # effs) = (if tx' = tx then SenderDropped else xtcp_reply tx effs)"
| "xtcp_reply tx (_ # effs) = xtcp_reply tx effs"

text \<open>
  A request from the moment the loop takes it up: the turn in which it does, then the turns until the
  answer is there or the ten seconds are over. A session that has ended takes up nothing.
\<close>

definition take_up ::
  "turn \<Rightarrow> control_command \<Rightarrow> (turn \<times> loop_event) list \<Rightarrow> client_control \<Rightarrow> client_effect list \<times> client_control" where
  "take_up tn cmd evs c =
     (if cn_cancelled c then ([], c) else snd (loop_until_end ((tn, CommandRecv (Some cmd)) # evs) c))"

definition register_proxy_dynamic ::
  "nat \<Rightarrow> turn \<Rightarrow> (turn \<times> loop_event) list \<Rightarrow> proxy_config \<Rightarrow> client_control \<Rightarrow>
   string result \<times> client_effect list \<times> client_control" where
  "register_proxy_dynamic tx tn evs pc c =
     (let (effs, c) = take_up tn (RegisterProxy pc (effective_multiplexer (cn_config c) pc) tx) evs c;
          (r, c) = await_register (proxy_reply tx effs) c
      in (r, effs, c))"

definition close_proxy_dynamic ::
  "nat \<Rightarrow> turn \<Rightarrow> (turn \<times> loop_event) list \<Rightarrow> string \<Rightarrow> client_control \<Rightarrow>
   unit result \<times> client_effect list \<times> client_control" where
  "close_proxy_dynamic tx tn evs proxy_name c =
     (let (effs, c) = take_up tn (CloseProxyCmd proxy_name tx) evs c
      in (await_close (close_reply tx effs), effs, c))"

definition request_xtcp_peer ::
  "nat \<Rightarrow> turn \<Rightarrow> (turn \<times> loop_event) list \<Rightarrow> string \<Rightarrow> string \<Rightarrow> string \<Rightarrow> client_control \<Rightarrow>
   nat_hole_resp_msg result \<times> client_effect list \<times> client_control" where
  "request_xtcp_peer tx tn evs server_name sk visitor_addr c =
     (let (effs, c) = take_up tn (OpenXtcp server_name sk visitor_addr tx) evs c;
          (r, c) = await_xtcp (xtcp_reply tx effs) c
      in (r, effs, c))"

text \<open>
  Reloading: the proxies that the new configuration does not name are closed, those the table does not
  name are registered. \<open>closing\<close> and \<open>opening\<close> give the turns of each request.
\<close>

type_synonym request = "nat \<times> turn \<times> (turn \<times> loop_event) list"

fun reload_close ::
  "(string \<Rightarrow> request) \<Rightarrow> string list \<Rightarrow> string list \<Rightarrow> client_control \<Rightarrow> nat \<times> client_effect list \<times> client_control" where
  "reload_close closing new_names [] c = (0, [], c)"
| "reload_close closing new_names (name # names) c =
     (if name \<in> set new_names then reload_close closing new_names names c
      else
        let (tx, tn, evs) = closing name;
            (r, effs, c) = close_proxy_dynamic tx tn evs name c;
            (removed, effs', c) = reload_close closing new_names names c
        in (case r of Inl _ \<Rightarrow> removed | Inr _ \<Rightarrow> removed + 1, effs @ effs', c))"

fun reload_register ::
  "(proxy_config \<Rightarrow> request) \<Rightarrow> string list \<Rightarrow> proxy_config list \<Rightarrow> client_control \<Rightarrow>
   nat \<times> client_effect list \<times> client_control" where
  "reload_register opening current_names [] c = (0, [], c)"
| "reload_register opening current_names (pc # pcs) c =
     (if pc_name pc \<in> set current_names then reload_register opening current_names pcs c
      else
        let (tx, tn, evs) = opening pc;
            (r, effs, c) = register_proxy_dynamic tx tn evs pc c;
            (added, effs', c) = reload_register opening current_names pcs c
        in (case r of Inl _ \<Rightarrow> added | Inr _ \<Rightarrow> added + 1, effs @ effs', c))"

definition reload_proxies ::
  "string list \<Rightarrow> (string \<Rightarrow> request) \<Rightarrow> (proxy_config \<Rightarrow> request) \<Rightarrow> client_config result \<Rightarrow> client_control \<Rightarrow>
   (nat \<times> nat) result \<times> client_effect list \<times> client_control" where
  "reload_proxies order closing opening loaded c =
     (case loaded of
        Inl e \<Rightarrow> (Inl e, [], c)
      | Inr new_config \<Rightarrow>
          let current_names = list_proxy_names order (cn_proxies c);
              new_names = map pc_name (cli_proxies new_config);
              (removed, effs, c) = reload_close closing new_names current_names c;
              (added, effs', c) = reload_register opening current_names (cli_proxies new_config) c
          in (Inr (added, removed), effs @ effs', c))"

subsection \<open>Requests and answers\<close>

fun command_tx :: "control_command \<Rightarrow> nat" where
  "command_tx (OpenXtcp _ _ _ tx) = tx"
| "command_tx (RegisterProxy _ _ tx) = tx"
| "command_tx (CloseProxyCmd _ tx) = tx"

text \<open>The requests a loop takes up, those it answers (or hangs up on), and those left waiting.\<close>

fun taken_up :: "loop_event \<Rightarrow> nat list" where
  "taken_up (CommandRecv (Some cmd)) = [command_tx cmd]"
| "taken_up _ = []"

fun handled :: "(turn \<times> loop_event) list \<Rightarrow> client_control \<Rightarrow> nat list" where
  "handled [] c = []"
| "handled ((tn, ev) # evs) c =
     taken_up ev @ (case loop_turn tn ev c of (Inl e, _, _) \<Rightarrow> [] | (Inr _, _, c) \<Rightarrow> handled evs c)"

fun answered :: "client_effect list \<Rightarrow> nat list" where
  "answered [] = []"
| "answered (XtcpReply tx _ # effs) = tx # answered effs"
| "answered (ProxyReply tx _ # effs) = tx # answered effs"
| "answered (CloseReply tx _ # effs) = tx # answered effs"
| "answered (HungUp tx # effs) = tx # answered effs"
| "answered (Put _ # effs) = answered effs"
| "answered (WorkConnTask _ # effs) = answered effs"

definition unanswered :: "client_control \<Rightarrow> nat list" where
  "unanswered c =
     (case cn_pending_xtcp c of None \<Rightarrow> [] | Some tx \<Rightarrow> [tx])
     @ (case cn_pending_proxy c of None \<Rightarrow> [] | Some p \<Rightarrow> [pp_reply_tx p])"

lemma answered_append [simp]: "answered (effs @ effs') = answered effs @ answered effs'"
  by (induction effs rule: answered.induct) simp_all

lemma send_control_message_answered [simp]: "send_control_message tn msg = (r, effs) \<Longrightarrow> answered effs = []"
  by (auto simp: send_control_message_def split: option.splits sum.splits)

lemma handle_control_command_conserves:
  "handle_control_command tn cmd c = (r, effs, c') \<Longrightarrow>
   mset (answered effs) + mset (unanswered c') = mset (unanswered c) + {#command_tx cmd#}"
  by (cases cmd)
    (auto simp: unanswered_def handle_close_proxy_cmd_def split: option.splits prod.splits sum.splits)

lemma handle_server_message_conserves:
  "handle_server_message tn msg c = (r, effs, c') \<Longrightarrow>
   mset (answered effs) + mset (unanswered c') = mset (unanswered c)"
  by (cases msg)
    (auto simp: unanswered_def handle_req_work_conn_def handle_new_proxy_resp_def handle_nathole_response_def Let_def
      split: option.splits prod.splits sum.splits if_splits)

lemma loop_turn_conserves:
  assumes "loop_turn tn ev c = (r, effs, c')"
  shows "mset (answered effs) + mset (unanswered c') = mset (unanswered c) + mset (taken_up ev)"
proof (cases ev)
  case (CommandRecv cmd)
  with assms show ?thesis
    by (cases cmd) (auto dest: handle_control_command_conserves)
next
  case (MessageRecv m)
  with assms show ?thesis
    by (auto split: sum.splits option.splits dest: handle_server_message_conserves)
qed (use assms in \<open>auto split: if_splits prod.splits\<close>)

lemma run_message_loop_conserves:
  "run_message_loop evs c = (r, effs, c') \<Longrightarrow>
   mset (answered effs) + mset (unanswered c') = mset (unanswered c) + mset (handled evs c)"
proof (induction evs arbitrary: c r effs c')
  case (Cons te evs)
  obtain tn ev where te: "te = (tn, ev)" by (cases te)
  obtain r1 effs1 c1 where t: "loop_turn tn ev c = (r1, effs1, c1)" by (cases "loop_turn tn ev c")
  obtain r2 effs2 c2 where l: "run_message_loop evs c1 = (r2, effs2, c2)" by (cases "run_message_loop evs c1")
  from Cons.prems Cons.IH [OF l] loop_turn_conserves [OF t] te t l show ?case
    by (auto simp: ac_simps split: sum.splits)
qed simp

lemma end_session_answers:
  "end_session c = (effs, c') \<Longrightarrow>
   answered effs = unanswered c \<and> unanswered c' = [] \<and> cn_run_id c' = [] \<and> cn_cancelled c'"
  by (auto simp: end_session_def answer_pending_def client_shutdown_def unanswered_def Let_def split: option.splits)


definition demo_turn :: "i64 \<Rightarrow> turn" where
  "demo_turn now = \<lparr>tn_now = now, tn_clock = 0, tn_wire = (\<lambda>_. Some (Inr ())), tn_listener = Inr ''0.0.0.0:9''\<rparr>"

definition demo_client_control :: client_control where
  "demo_client_control =
     \<lparr>cn_config = demo_client_config, cn_run_id = ''r'', cn_proxies = Map.empty, cn_pending_xtcp = None,
      cn_pending_proxy = None, cn_last_pong = 0, cn_cached = PlainTcp, cn_cancelled = False\<rparr>"

text \<open>A visitor's request is sent, a proxy is closed, and the connection breaks.\<close>

definition demo_events :: "(turn \<times> loop_event) list" where
  "demo_events =
     [(demo_turn 1, CommandRecv (Some (OpenXtcp ''p'' ''k'' ''a'' 7))),
      (demo_turn 2, CommandRecv (Some (CloseProxyCmd ''p'' 8))),
      (demo_turn 3, MessageRecv (Recv (Inr None)))]"


subsection \<open>The heartbeat\<close>

text \<open>
  A link that works: every message goes out in time, and every read gives a message or nothing yet.
\<close>

fun turn_ok :: "turn \<times> loop_event \<Rightarrow> bool" where
  "turn_ok (tn, ev) \<longleftrightarrow> tn_wire tn = (\<lambda>_. Some (Inr ())) \<and>
     (case ev of
        HeartbeatTick expired \<Rightarrow> \<not> expired
      | MessageRecv (Recv (Inl e)) \<Rightarrow> False
      | MessageRecv (Recv (Inr None)) \<Rightarrow> False
      | _ \<Rightarrow> True)"

text \<open>At every check the last \<^verbatim>\<open>Pong\<close> (at \<open>since\<close>, to begin with) is at most \<open>limit\<close> seconds old.\<close>

fun pong_at :: "turn \<Rightarrow> loop_event \<Rightarrow> i64 \<Rightarrow> i64" where
  "pong_at tn (MessageRecv (Recv (Inr (Some (message.Pong _))))) since = tn_now tn"
| "pong_at tn _ since = since"

fun pong_fresh :: "u64 \<Rightarrow> i64 \<Rightarrow> (turn \<times> loop_event) list \<Rightarrow> bool" where
  "pong_fresh limit since [] = True"
| "pong_fresh limit since ((tn, ev) # evs) =
     ((if ev = TimeoutTick then sint (tn_now tn - since) \<le> sint limit else True) \<and>
      pong_fresh limit (pong_at tn ev since) evs)"

lemma send_ok: "tn_wire tn = (\<lambda>_. Some (Inr ())) \<Longrightarrow> send_control_message tn msg = (Inr (), [Put msg])"
  by (simp add: send_control_message_def)

lemma handle_control_command_ok:
  "tn_wire tn = (\<lambda>_. Some (Inr ())) \<Longrightarrow> handle_control_command tn cmd c = (r, effs, c') \<Longrightarrow>
   r = Inr () \<and> cn_config c' = cn_config c \<and> cn_last_pong c' = cn_last_pong c"
  by (cases cmd) (auto simp: send_ok handle_close_proxy_cmd_def split: option.splits)

lemma handle_server_message_ok:
  "tn_wire tn = (\<lambda>_. Some (Inr ())) \<Longrightarrow> handle_server_message tn msg c = (r, effs, c') \<Longrightarrow>
   r = Inr () \<and> cn_config c' = cn_config c \<and>
   cn_last_pong c' = pong_at tn (MessageRecv (Recv (Inr (Some msg)))) (cn_last_pong c)"
  by (cases msg)
    (auto simp: send_ok handle_new_proxy_resp_def handle_nathole_response_def Let_def
      split: option.splits if_splits)

lemma loop_turn_ok:
  assumes ok: "turn_ok (tn, ev)" and t: "loop_turn tn ev c = (r, effs, c')"
  shows "r = (if ev = TimeoutTick \<and> sint (heartbeat_timeout (cn_config c)) < sint (tn_now tn - cn_last_pong c)
       then Inl (Timeout ''heartbeat timeout'') else Inr ()) \<and>
     cn_config c' = cn_config c \<and> cn_last_pong c' = pong_at tn ev (cn_last_pong c)"
proof (cases ev)
  case (CommandRecv cmd)
  with ok t show ?thesis by (cases cmd) (auto dest: handle_control_command_ok)
next
  case (MessageRecv m)
  with ok t show ?thesis
    by (cases m rule: recv_control_message.cases) (auto dest: handle_server_message_ok)
qed (use ok t in \<open>auto simp: send_ok split: if_splits\<close>)

lemma fst_run_message_loop:
  "loop_turn tn ev c = (r, effs, c') \<Longrightarrow>
   fst (run_message_loop ((tn, ev) # evs) c) = (case r of Inl e \<Rightarrow> Some e | Inr _ \<Rightarrow> fst (run_message_loop evs c'))"
  by (simp split: sum.splits prod.splits)

text \<open>
  C28: On a working link the heartbeat alone decides how long a session lasts. The loop goes on exactly as long
  as at every check the last \<^verbatim>\<open>Pong\<close> is at most \<^verbatim>\<open>heartbeat_timeout\<close> seconds old (90 when that is not
  configured); otherwise it ends with the heartbeat timeout, an error after which the client connects again.
\<close>

theorem heartbeat_exact:
  assumes "list_all turn_ok evs"
  shows "fst (run_message_loop evs c) =
    (if pong_fresh (heartbeat_timeout (cn_config c)) (cn_last_pong c) evs then None
     else Some (Timeout ''heartbeat timeout''))"
  using assms
proof (induction evs arbitrary: c)
  case (Cons te evs)
  obtain tn ev where te: "te = (tn, ev)" by (cases te)
  obtain r effs c' where t: "loop_turn tn ev c = (r, effs, c')" by (cases "loop_turn tn ev c")
  from Cons.prems te have ok: "turn_ok (tn, ev)" and rest: "list_all turn_ok evs" by simp_all
  from loop_turn_ok [OF ok t] Cons.IH [OF rest, of c'] show ?case
    unfolding te fst_run_message_loop [OF t] by (auto simp: not_less)
qed simp

theorem heartbeat_exact_witness:
  "fst (run_message_loop [(demo_turn 60, TimeoutTick), (demo_turn 89, MessageRecv (Recv (Inr (Some (message.Pong \<lparr>po_timestamp = 88\<rparr>))))),
     (demo_turn 179, TimeoutTick), (demo_turn 180, TimeoutTick)] demo_client_control) = Some (Timeout ''heartbeat timeout'') \<and>
   fst (run_message_loop [(demo_turn 60, TimeoutTick), (demo_turn 89, MessageRecv (Recv (Inr (Some (message.Pong \<lparr>po_timestamp = 88\<rparr>))))),
     (demo_turn 179, TimeoutTick)] demo_client_control) = None"
proof -
  have limit: "heartbeat_timeout demo_client_config = 90"
    by (simp add: heartbeat_timeout_def demo_client_config_def transport_default_def)
  show ?thesis
    by (subst (1 2) heartbeat_exact)
      (simp_all add: limit demo_turn_def demo_client_control_def)
qed

subsection \<open>Registering while running\<close>

abbreviation message_event :: "message \<Rightarrow> loop_event" where
  "message_event msg \<equiv> MessageRecv (Recv (Inr (Some msg)))"

lemma client_proxy_name_new [simp]: "client_proxy_name (client_proxy_new now pc) = pc_name pc"
  by (cases "pc_proxy_type pc")
    (simp_all add: client_proxy_new_def tcp_local_new_def udp_local_new_def xtcp_local_new_def Let_def)

lemma pending_proxy_None [simp]:
  "cn_pending_proxy c = None \<Longrightarrow> c\<lparr>cn_pending_proxy := None\<rparr> = c"
  "cn_pending_proxy c = None \<Longrightarrow> c\<lparr>cn_pending_proxy := None, cn_proxies := m\<rparr> = c\<lparr>cn_proxies := m\<rparr>"
  by (cases c; simp)+

lemma register_proxy_dynamic_answered:
  assumes "\<not> cn_cancelled c" "cn_pending_proxy c = None" "tn_wire tn = (\<lambda>_. Some (Inr ()))" "nr_error resp = []"
  shows "register_proxy_dynamic tx tn [(tn', message_event (NewProxyResp resp))] pc c =
    (Inr (nr_remote_addr resp),
     [Put (NewProxy (new_proxy_of pc (effective_multiplexer (cn_config c) pc))),
      ProxyReply tx (Inr (nr_remote_addr resp))],
     c\<lparr>cn_proxies := client_register_proxy (tn_clock tn') (effective_proxy (cn_config c) pc) (cn_proxies c)\<rparr>)"
  using assms
  by (simp add: register_proxy_dynamic_def take_up_def loop_until_end_def send_ok handle_new_proxy_resp_def
      effective_proxy_def await_register_def)

text \<open>
  C36: An answer is taken for the registration that happens to wait, whatever proxy it names. When the request
  for one proxy has timed out and a second one is being registered, the late answer about the first completes
  the second: its caller gets the first one's address and the proxy is entered in the table, and the answer
  that follows about the second proxy, be it a refusal, is ignored.
\<close>

theorem stale_answer_completes_other:
  assumes "\<not> cn_cancelled c" "cn_pending_proxy c = None"
    "tn_wire tn1 = (\<lambda>_. Some (Inr ()))" "tn_wire tn2 = (\<lambda>_. Some (Inr ()))" "nr_error resp1 = []"
  shows "register_proxy_dynamic tx1 tn1 [] pc1 c =
      (Inl (Timeout ''register proxy timeout''),
       [Put (NewProxy (new_proxy_of pc1 (effective_multiplexer (cn_config c) pc1)))], c) \<and>
    register_proxy_dynamic tx2 tn2
        [(tn3, message_event (NewProxyResp resp1)), (tn4, message_event (NewProxyResp resp2))] pc2 c =
      (Inr (nr_remote_addr resp1),
       [Put (NewProxy (new_proxy_of pc2 (effective_multiplexer (cn_config c) pc2))),
        ProxyReply tx2 (Inr (nr_remote_addr resp1))],
       c\<lparr>cn_proxies := (cn_proxies c)(pc_name pc2 \<mapsto>
          client_proxy_new (tn_clock tn3) (effective_proxy (cn_config c) pc2))\<rparr>)"
  using assms
  by (simp add: register_proxy_dynamic_def take_up_def loop_until_end_def send_ok handle_new_proxy_resp_def
      await_register_def client_register_proxy_def effective_proxy_def Let_def)

definition demo_proxy_config :: "string \<Rightarrow> proxy_config" where
  "demo_proxy_config name =
     \<lparr>pc_name = name, pc_proxy_type = Tcp, pc_local_ip = ''127.0.0.1'', pc_local_port = 22, pc_remote_port = 6000,
      pc_use_encryption = False, pc_use_compression = False, pc_custom_domains = [], pc_subdomain = [],
      pc_locations = [], pc_host_header_rewrite = [], pc_http_user = [], pc_http_pwd = [], pc_sk = [],
      pc_fallback_to_relay = False, pc_multiplexer = [], pc_bandwidth_limit = [], pc_bandwidth_limit_mode = [],
      pc_health_check = \<lparr>hc_enable = False, hc_check_type = [], hc_timeout_seconds = 0, hc_max_failed = 0,
        hc_interval_seconds = 0, hc_path = []\<rparr>,
      pc_load_balancer = \<lparr>lb_group = [], lb_group_key = []\<rparr>,
      pc_plugin = \<lparr>pl_plugin_type = [], pl_plugin_params = Map.empty\<rparr>\<rparr>"

theorem stale_answer_completes_other_witness:
  "fst (register_proxy_dynamic 2 (demo_turn 20)
     [(demo_turn 21, message_event (NewProxyResp \<lparr>nr_proxy_name = ''a'', nr_remote_addr = '':6000'', nr_error = []\<rparr>)),
      (demo_turn 22, message_event (NewProxyResp \<lparr>nr_proxy_name = ''b'', nr_remote_addr = [], nr_error = ''port in use''\<rparr>))]
     (demo_proxy_config ''b'') demo_client_control) = Inr '':6000''"
proof -
  have "\<not> cn_cancelled demo_client_control" "cn_pending_proxy demo_client_control = None"
    "\<And>t. tn_wire (demo_turn t) = (\<lambda>_. Some (Inr ()))"
    by (simp_all add: demo_client_control_def demo_turn_def)
  note stale_answer_completes_other [OF this(1,2) this(3) [of 1] this(3) [of 20],
    of "\<lparr>nr_proxy_name = ''a'', nr_remote_addr = '':6000'', nr_error = []\<rparr>" 1 "demo_proxy_config ''a''" 2
       "demo_turn 21" "demo_turn 22"
       "\<lparr>nr_proxy_name = ''b'', nr_remote_addr = [], nr_error = ''port in use''\<rparr>" "demo_proxy_config ''b''"]
  then show ?thesis by simp
qed

subsection \<open>Reloading\<close>

text \<open>
  A reload during which the link works and the server accepts: each closing is sent, each registration is
  answered without an error.
\<close>

definition closing_ok :: "request \<Rightarrow> bool" where
  "closing_ok q \<longleftrightarrow> (case q of (tx, tn, evs) \<Rightarrow> tn_wire tn = (\<lambda>_. Some (Inr ())) \<and> evs = [])"

fun opening_ok :: "request \<Rightarrow> bool" where
  "opening_ok (tx, tn, [(tn', MessageRecv (Recv (Inr (Some (NewProxyResp resp)))))]) \<longleftrightarrow>
     tn_wire tn = (\<lambda>_. Some (Inr ())) \<and> nr_error resp = []"
| "opening_ok _ \<longleftrightarrow> False"

definition messages :: "client_effect list \<Rightarrow> message list" where
  "messages effs = concat (map (\<lambda>eff. case eff of Put msg \<Rightarrow> [msg] | _ \<Rightarrow> []) effs)"

lemma messages_simps [simp]:
  "messages [] = []" "messages (effs @ effs') = messages effs @ messages effs'"
  "messages (eff # effs) = (case eff of Put msg \<Rightarrow> [msg] | _ \<Rightarrow> []) @ messages effs"
  by (simp_all add: messages_def)

lemma opening_okE:
  assumes "opening_ok q"
  obtains tx tn tn' resp where "q = (tx, tn, [(tn', message_event (NewProxyResp resp))])"
    "tn_wire tn = (\<lambda>_. Some (Inr ()))" "nr_error resp = []"
  using assms by (cases q rule: opening_ok.cases) auto

lemma close_proxy_dynamic_ok:
  assumes "\<not> cn_cancelled c" "closing_ok (tx, tn, evs)"
  shows "close_proxy_dynamic tx tn evs name c =
    (Inr (), [Put (CloseProxy \<lparr>cp_proxy_name = name\<rparr>), CloseReply tx (Inr ())],
     c\<lparr>cn_proxies := (cn_proxies c)(name := None)\<rparr>)"
  using assms
  by (simp add: closing_ok_def close_proxy_dynamic_def take_up_def loop_until_end_def handle_close_proxy_cmd_def
      send_ok await_close_def client_unregister_proxy_def)

lemma reload_close_ok:
  assumes "\<not> cn_cancelled c" "\<forall>name. closing_ok (closing name)"
  shows "\<exists>effs. reload_close closing new names c =
      (length (filter (\<lambda>n. n \<notin> set new) names), effs,
       c\<lparr>cn_proxies := cn_proxies c |` (- (set names - set new))\<rparr>) \<and>
    messages effs = map (\<lambda>n. CloseProxy \<lparr>cp_proxy_name = n\<rparr>) (filter (\<lambda>n. n \<notin> set new) names)"
  using assms(1)
proof (induction names arbitrary: c)
  case (Cons name names)
  show ?case
  proof (cases "name \<in> set new")
    case False
    obtain tx tn evs where q: "closing name = (tx, tn, evs)" by (cases "closing name")
    with assms(2) have ok: "closing_ok (tx, tn, evs)" by metis
    define c1 where "c1 = c\<lparr>cn_proxies := (cn_proxies c)(name := None)\<rparr>"
    with Cons.prems have "\<not> cn_cancelled c1" by simp
    then obtain effs where IH: "reload_close closing new names c1 =
         (length (filter (\<lambda>n. n \<notin> set new) names), effs,
          c1\<lparr>cn_proxies := cn_proxies c1 |` (- (set names - set new))\<rparr>)"
      "messages effs = map (\<lambda>n. CloseProxy \<lparr>cp_proxy_name = n\<rparr>) (filter (\<lambda>n. n \<notin> set new) names)"
      using Cons.IH by blast
    have "cn_proxies c1 |` (- (set names - set new)) = cn_proxies c |` (- (set (name # names) - set new))"
      using False by (auto simp: c1_def restrict_map_def fun_eq_iff)
    then have "c1\<lparr>cn_proxies := cn_proxies c1 |` (- (set names - set new))\<rparr> =
        c\<lparr>cn_proxies := cn_proxies c |` (- (set (name # names) - set new))\<rparr>"
      by (simp only:) (simp add: c1_def)
    with IH q False close_proxy_dynamic_ok [OF Cons.prems ok, of name] show ?thesis
      by (simp add: c1_def [symmetric] del: set_simps)
  next
    case True
    then have "set (name # names) - set new = set names - set new" by auto
    with True Cons.IH [OF Cons.prems] show ?thesis by simp
  qed
qed (simp add: restrict_map_def)

lemma reload_register_ok:
  assumes "\<not> cn_cancelled c" "cn_pending_proxy c = None" "\<forall>pc. opening_ok (opening pc)"
  shows "\<exists>effs m. reload_register opening current pcs c =
      (length (filter (\<lambda>pc. pc_name pc \<notin> set current) pcs), effs, c\<lparr>cn_proxies := m\<rparr>) \<and>
    dom m = dom (cn_proxies c) \<union> (pc_name ` set pcs - set current) \<and>
    (\<forall>n. n \<in> set current \<longrightarrow> m n = cn_proxies c n) \<and>
    messages effs = map (\<lambda>pc. NewProxy (new_proxy_of pc (effective_multiplexer (cn_config c) pc)))
      (filter (\<lambda>pc. pc_name pc \<notin> set current) pcs)"
  using assms(1,2)
proof (induction pcs arbitrary: c)
  case Nil
  have "c = c\<lparr>cn_proxies := cn_proxies c\<rparr>" by simp
  then show ?case by (auto intro: exI [of _ "cn_proxies c"])
next
  case (Cons pc pcs)
  show ?case
  proof (cases "pc_name pc \<in> set current")
    case False
    obtain tx tn tn' resp where q: "opening pc = (tx, tn, [(tn', message_event (NewProxyResp resp))])"
      "tn_wire tn = (\<lambda>_. Some (Inr ()))" "nr_error resp = []"
      using assms(3) by (metis opening_okE)
    define m1 where "m1 = client_register_proxy (tn_clock tn') (effective_proxy (cn_config c) pc) (cn_proxies c)"
    obtain effs m where IH: "reload_register opening current pcs (c\<lparr>cn_proxies := m1\<rparr>) =
        (length (filter (\<lambda>pc. pc_name pc \<notin> set current) pcs), effs, c\<lparr>cn_proxies := m\<rparr>)"
      "dom m = dom m1 \<union> (pc_name ` set pcs - set current)" "\<forall>n. n \<in> set current \<longrightarrow> m n = m1 n"
      "messages effs = map (\<lambda>pc. NewProxy (new_proxy_of pc (effective_multiplexer (cn_config c) pc)))
        (filter (\<lambda>pc. pc_name pc \<notin> set current) pcs)"
      using Cons.IH [of "c\<lparr>cn_proxies := m1\<rparr>"] Cons.prems by auto
    have m1: "dom m1 = insert (pc_name pc) (dom (cn_proxies c))" "\<forall>n. n \<in> set current \<longrightarrow> m1 n = cn_proxies c n"
      using False by (auto simp: m1_def client_register_proxy_def effective_proxy_def Let_def)
    have "reload_register opening current (pc # pcs) c =
        (length (filter (\<lambda>pc. pc_name pc \<notin> set current) (pc # pcs)),
         [Put (NewProxy (new_proxy_of pc (effective_multiplexer (cn_config c) pc))),
          ProxyReply tx (Inr (nr_remote_addr resp))] @ effs, c\<lparr>cn_proxies := m\<rparr>)"
      using False q(1) register_proxy_dynamic_answered [OF Cons.prems q(2,3)] IH(1) by (simp add: m1_def)
    moreover have "dom m = dom (cn_proxies c) \<union> (pc_name ` set (pc # pcs) - set current)"
      using IH(2) m1(1) False by auto
    moreover have "\<forall>n. n \<in> set current \<longrightarrow> m n = cn_proxies c n" using IH(3) m1(2) by simp
    ultimately show ?thesis using IH(4) False
      by (intro exI [of _ "[Put (NewProxy (new_proxy_of pc (effective_multiplexer (cn_config c) pc))),
          ProxyReply tx (Inr (nr_remote_addr resp))] @ effs"] exI [of _ m]) simp
  next
    case True
    then have "pc_name ` set (pc # pcs) - set current = pc_name ` set pcs - set current" by auto
    with True Cons.IH [OF Cons.prems] show ?thesis by simp
  qed
qed

text \<open>
  C29: What a reload does when every request goes through. It closes the proxies of the table that the new
  configuration does not name and registers those of the configuration that the table does not name, in the
  order of the table and of the file, reports their numbers, and leaves a table with exactly the names of the
  new configuration. A proxy that both name is left as it is, also when its settings differ.
\<close>

theorem reload_exact:
  fixes new :: client_config
  assumes "\<not> cn_cancelled c" "cn_pending_proxy c = None" "dom (cn_proxies c) \<subseteq> set order"
    "\<forall>name. closing_ok (closing name)" "\<forall>pc. opening_ok (opening pc)"
  defines "stale \<equiv> filter (\<lambda>n. n \<notin> pc_name ` set (cli_proxies new)) (list_proxy_names order (cn_proxies c))"
    and "fresh \<equiv> filter (\<lambda>pc. cn_proxies c (pc_name pc) = None) (cli_proxies new)"
  shows "\<exists>effs m. reload_proxies order closing opening (Inr new) c =
      (Inr (length fresh, length stale), effs, c\<lparr>cn_proxies := m\<rparr>) \<and>
    dom m = pc_name ` set (cli_proxies new) \<and>
    (\<forall>n. n \<in> dom (cn_proxies c) \<inter> pc_name ` set (cli_proxies new) \<longrightarrow> m n = cn_proxies c n) \<and>
    messages effs = map (\<lambda>n. CloseProxy \<lparr>cp_proxy_name = n\<rparr>) stale
      @ map (\<lambda>pc. NewProxy (new_proxy_of pc (effective_multiplexer (cn_config c) pc))) fresh"
proof -
  define current new_names where "current = list_proxy_names order (cn_proxies c)"
    and "new_names = map pc_name (cli_proxies new)"
  have current: "set current = dom (cn_proxies c)"
    using assms(3) by (auto simp: current_def list_proxy_names_def)
  define c1 where "c1 = c\<lparr>cn_proxies := cn_proxies c |` (- (set current - set new_names))\<rparr>"
  obtain effs1 where r1: "reload_close closing new_names current c = (length stale, effs1, c1)"
    "messages effs1 = map (\<lambda>n. CloseProxy \<lparr>cp_proxy_name = n\<rparr>) stale"
    using reload_close_ok [OF assms(1,4), of new_names current]
    by (auto simp: c1_def stale_def current_def new_names_def)
  have fresh: "filter (\<lambda>pc. pc_name pc \<notin> set current) (cli_proxies new) = fresh"
    unfolding fresh_def by (rule filter_cong) (auto simp: current)
  have c1: "\<not> cn_cancelled c1" "cn_pending_proxy c1 = None" "cn_config c1 = cn_config c"
    using assms(1,2) by (simp_all add: c1_def)
  obtain effs2 m where r2: "reload_register opening current (cli_proxies new) c1 = (length fresh, effs2, c1\<lparr>cn_proxies := m\<rparr>)"
    "dom m = dom (cn_proxies c1) \<union> (pc_name ` set (cli_proxies new) - set current)"
    "\<forall>n. n \<in> set current \<longrightarrow> m n = cn_proxies c1 n"
    "messages effs2 = map (\<lambda>pc. NewProxy (new_proxy_of pc (effective_multiplexer (cn_config c) pc))) fresh"
    using reload_register_ok [OF c1(1,2) assms(5), of current "cli_proxies new"] unfolding fresh c1(3) by blast
  have "reload_proxies order closing opening (Inr new) c =
      (Inr (length fresh, length stale), effs1 @ effs2, c\<lparr>cn_proxies := m\<rparr>)"
    using r1(1) r2(1) by (simp add: reload_proxies_def current_def new_names_def c1_def)
  moreover have "dom m = pc_name ` set (cli_proxies new)"
    using r2(2) by (auto simp: c1_def current new_names_def)
  moreover have "\<forall>n. n \<in> dom (cn_proxies c) \<inter> pc_name ` set (cli_proxies new) \<longrightarrow> m n = cn_proxies c n"
    using r2(3) by (simp add: c1_def current new_names_def restrict_map_def)
  ultimately show ?thesis using r1(2) r2(4) by auto
qed

definition demo_registration :: request where
  "demo_registration = (1, demo_turn 1,
     [(demo_turn 2, message_event (NewProxyResp \<lparr>nr_proxy_name = ''b'', nr_remote_addr = '':6000'', nr_error = []\<rparr>))])"

theorem reload_exact_witness:
  "fst (reload_proxies [''a''] (\<lambda>_. (0, demo_turn 0, [])) (\<lambda>_. demo_registration)
      (Inr (demo_client_config\<lparr>cli_proxies := [demo_proxy_config ''b'']\<rparr>))
      (demo_client_control\<lparr>cn_proxies := [''a'' \<mapsto> client_proxy_new 0 (demo_proxy_config ''a'')]\<rparr>)) = Inr (1, 1)"
proof -
  let ?c = "demo_client_control\<lparr>cn_proxies := [''a'' \<mapsto> client_proxy_new 0 (demo_proxy_config ''a'')]\<rparr>"
  have "\<not> cn_cancelled ?c" "cn_pending_proxy ?c = None" "dom (cn_proxies ?c) \<subseteq> set [''a'']"
    "\<forall>name::string. closing_ok (0, demo_turn 0, [])" "\<forall>pc::proxy_config. opening_ok demo_registration"
    by (simp_all add: demo_client_control_def closing_ok_def demo_turn_def demo_registration_def)
  from reload_exact [OF this, of "demo_client_config\<lparr>cli_proxies := [demo_proxy_config ''b'']\<rparr>"]
  obtain effs m where "reload_proxies [''a''] (\<lambda>_. (0, demo_turn 0, [])) (\<lambda>_. demo_registration)
      (Inr (demo_client_config\<lparr>cli_proxies := [demo_proxy_config ''b'']\<rparr>)) ?c =
      (Inr (length (filter (\<lambda>pc. cn_proxies ?c (pc_name pc) = None) [demo_proxy_config ''b'']),
        length (filter (\<lambda>n. n \<notin> pc_name ` set [demo_proxy_config ''b'']) (list_proxy_names [''a''] (cn_proxies ?c)))),
       effs, ?c\<lparr>cn_proxies := m\<rparr>)"
    by auto
  then show ?thesis by (simp only: fst_conv) (simp add: list_proxy_names_def demo_proxy_config_def)
qed

end
