(* ===== verification/BasicAuth.thy ===== *)
theory BasicAuth
  imports Settings
begin

text \<open>
  The credentials of the client's admin interface. The command line tool (\<^verbatim>\<open>arp-client/src/cli/mod.rs\<close>)
  writes them with its own base64 encoder, the admin server (\<^verbatim>\<open>arp-client/src/admin/mod.rs\<close>) reads them
  with its own decoder; the two are written independently of each other, on \<^verbatim>\<open>u32\<close> shift registers.
\<close>

subsection \<open>Base64\<close>

definition base64_table :: string where
  "base64_table = ''ABCDEFGHIJKLMNOPQRSTUVWXYZabcdefghijklmnopqrstuvwxyz0123456789+/''"

definition sextet :: "nat \<Rightarrow> u32 \<Rightarrow> char" where
  "sextet shift triple = base64_table ! unat (drop_bit shift triple AND 0x3F)"

definition base64_triple :: "u8 \<Rightarrow> u8 \<Rightarrow> u8 \<Rightarrow> u32" where
  "base64_triple b0 b1 b2 = push_bit 16 (ucast b0) OR push_bit 8 (ucast b1) OR ucast b2"

fun base64_encode :: "bytes \<Rightarrow> string" where
  "base64_encode [] = []"
| "base64_encode [b0] =
     (let t = base64_triple b0 0 0 in [sextet 18 t, sextet 12 t, CHR ''='', CHR ''=''])"
| "base64_encode [b0, b1] =
     (let t = base64_triple b0 b1 0 in [sextet 18 t, sextet 12 t, sextet 6 t, CHR ''=''])"
| "base64_encode (b0 # b1 # b2 # rest) =
     (let t = base64_triple b0 b1 b2
      in [sextet 18 t, sextet 12 t, sextet 6 t, sextet 0 t] @ base64_encode rest)"

definition base64_position :: "char \<Rightarrow> u32 option" where
  "base64_position c = map_option word_of_nat (find (\<lambda>i. base64_table ! i = c) [0..<64])"

fun base64_decode_loop :: "string \<Rightarrow> u32 \<Rightarrow> nat \<Rightarrow> bytes \<Rightarrow> bytes" where
  "base64_decode_loop [] buf bits acc = acc"
| "base64_decode_loop (b # bs) buf bits acc =
     (if b = CHR ''='' then acc
      else
        case base64_position b of
          None \<Rightarrow> base64_decode_loop bs buf bits acc
        | Some val \<Rightarrow>
            let buf = push_bit 6 buf OR val; bits = bits + 6 in
            if bits \<ge> 8 then
              let bits = bits - 8
              in base64_decode_loop bs (buf AND (push_bit bits 1 - 1)) bits
                   (acc @ [ucast (drop_bit bits buf)])
            else base64_decode_loop bs buf bits acc)"

definition base64_decode :: "string \<Rightarrow> bytes" where
  "base64_decode input = base64_decode_loop input 0 0 []"

subsection \<open>Credentials\<close>

text \<open>
  The header the tool sends, and the check of the server. \<open>to_str\<close> is \<^verbatim>\<open>HeaderValue::to_str\<close> of the
  \<^verbatim>\<open>http\<close> crate, which succeeds on visible ASCII.
\<close>

definition authorization :: "client_config \<Rightarrow> string option" where
  "authorization config =
     (if cli_admin_user config \<noteq> [] \<and> cli_admin_pwd config \<noteq> []
      then Some (''Basic '' @ base64_encode (as_bytes (cli_admin_user config @ '':'' @ cli_admin_pwd config)))
      else None)"

definition check_basic_auth :: "(bytes \<Rightarrow> string option) \<Rightarrow> bytes option \<Rightarrow> string \<Rightarrow> string \<Rightarrow> bool" where
  "check_basic_auth to_str header expected_user expected_pwd =
     (case header of
        None \<Rightarrow> False
      | Some auth \<Rightarrow>
          (case to_str auth of
             None \<Rightarrow> False
           | Some auth_str \<Rightarrow>
               (case strip_prefix ''Basic '' auth_str of
                  None \<Rightarrow> False
                | Some encoded \<Rightarrow>
                    (case from_utf8 (base64_decode encoded) of
                       None \<Rightarrow> False
                     | Some credentials \<Rightarrow>
                         (case split_once CHR '':'' credentials of
                            None \<Rightarrow> False
                          | Some (user, pwd) \<Rightarrow> user = expected_user \<and> pwd = expected_pwd)))))"

subsection \<open>Decoding what was encoded\<close>

lemma table_positions:
  "list_all (\<lambda>i. base64_position (base64_table ! i) = Some (word_of_nat i) \<and> base64_table ! i \<noteq> CHR ''='') [0..<64]"
  by code_simp

lemma sextet_less: "unat (x AND 0x3F :: u32) < 64"
proof -
  have "x AND 0x3F \<le> (0x3F :: u32)" by (rule word_and_le1)
  then have "unat (x AND 0x3F) \<le> unat (0x3F :: u32)" by (simp only: word_le_nat_alt)
  then show ?thesis by simp
qed

lemma position_sextet [simp]:
  "base64_position (sextet s t) = Some (drop_bit s t AND 0x3F)" "sextet s t \<noteq> CHR ''=''"
  using table_positions sextet_less [of "drop_bit s t"] by (simp_all add: list_all_iff sextet_def)

lemma sextet_mask: "(0x3F :: u32) = mask 6" "(15 :: u32) = mask 4" "(3 :: u32) = mask 2"
  by code_simp+

lemma bit_triple:
  "bit (base64_triple b0 b1 b2) n \<longleftrightarrow>
   (if n < 8 then bit b2 n else if n < 16 then bit b1 (n - 8) else if n < 24 then bit b0 (n - 16) else False)"
  using bit_imp_le_length [of b0 "n - 16"] bit_imp_le_length [of b1 "n - 8"] bit_imp_le_length [of b2 n]
  by (auto simp: base64_triple_def bit_simps)

lemma byte_eqI:
  assumes "\<And>n. n \<in> {0, 1, 2, 3, 4, 5, 6, 7} \<Longrightarrow> bit a n = bit b n"
  shows "a = (b :: u8)"
proof (rule bit_word_eqI)
  fix n assume "n < LENGTH(8)"
  then have "n \<in> {0, 1, 2, 3, 4, 5, 6, 7}" by auto
  then show "bit a n = bit b n" by (rule assms)
qed

definition register1 :: "u32 \<Rightarrow> u32" where
  "register1 t = push_bit 6 (drop_bit 18 t AND 0x3F) OR (drop_bit 12 t AND 0x3F)"

definition register2 :: "u32 \<Rightarrow> u32" where
  "register2 t = push_bit 6 (register1 t AND 15) OR (drop_bit 6 t AND 0x3F)"

definition register3 :: "u32 \<Rightarrow> u32" where
  "register3 t = push_bit 6 (register2 t AND 3) OR (drop_bit 0 t AND 0x3F)"

lemmas byte_bits = bit_simps sextet_mask bit_triple

lemma register_bytes [simp]:
  "ucast (drop_bit 4 (register1 (base64_triple b0 b1 b2))) = b0"
  "ucast (drop_bit 2 (register2 (base64_triple b0 b1 b2))) = b1"
  "ucast (register3 (base64_triple b0 b1 b2)) = b2"
  by (rule byte_eqI; auto simp: byte_bits register1_def register2_def register3_def; simp add: eval_nat_numeral)+

text \<open>One character, by the number of bits already in the register.\<close>

lemma decode_step:
  assumes "base64_position b = Some v" "b \<noteq> CHR ''=''"
  shows "base64_decode_loop (b # bs) 0 0 acc = base64_decode_loop bs v 6 acc"
    "base64_decode_loop (b # bs) buf 6 acc =
       (let r = push_bit 6 buf OR v in base64_decode_loop bs (r AND 15) 4 (acc @ [ucast (drop_bit 4 r)]))"
    "base64_decode_loop (b # bs) buf 4 acc =
       (let r = push_bit 6 buf OR v in base64_decode_loop bs (r AND 3) 2 (acc @ [ucast (drop_bit 2 r)]))"
    "base64_decode_loop (b # bs) buf 2 acc =
       (let r = push_bit 6 buf OR v in base64_decode_loop bs 0 0 (acc @ [ucast r]))"
  using assms by (simp_all add: Let_def)

lemmas decode_sextet = decode_step [OF position_sextet] Let_def
  register1_def [symmetric] register2_def [symmetric] register3_def [symmetric]

lemma decode_encode:
  "base64_decode_loop (base64_encode bs) 0 0 acc = acc @ bs"
proof (induction bs arbitrary: acc rule: base64_encode.induct)
  case (2 b0)
  show ?case by (simp only: base64_encode.simps decode_sextet) simp
next
  case (3 b0 b1)
  show ?case by (simp only: base64_encode.simps decode_sextet) simp
next
  case (4 b0 b1 b2 rest)
  then show ?case by (simp only: base64_encode.simps append.simps decode_sextet) simp
qed simp

lemma base64_roundtrip: "base64_decode (base64_encode bs) = bs"
  by (simp add: base64_decode_def decode_encode)

text \<open>
  The encoder only uses visible characters, so the header it is part of can be read back as text.
\<close>

definition header_text :: "string \<Rightarrow> bool" where
  "header_text s = list_all (\<lambda>c. 32 \<le> (of_char c :: nat) \<and> (of_char c :: nat) < 127) s"

lemma table_visible: "list_all (\<lambda>i. header_text [base64_table ! i]) [0..<64]"
  by code_simp

lemma sextet_visible [simp]: "header_text (sextet s t # cs) \<longleftrightarrow> header_text cs"
  using table_visible sextet_less [of "drop_bit s t"] by (simp add: list_all_iff sextet_def header_text_def)

lemma encode_visible: "header_text (base64_encode bs)"
proof -
  have eq: "header_text (CHR ''='' # cs) \<longleftrightarrow> header_text cs" "header_text []" for cs
    by (simp_all add: header_text_def)
  show ?thesis by (induction bs rule: base64_encode.induct) (simp_all add: Let_def eq)
qed

subsection \<open>Access\<close>

lemma check_basic_auth_iff:
  "check_basic_auth to_str header user pwd \<longleftrightarrow>
   (\<exists>auth encoded. header = Some auth \<and> to_str auth = Some (''Basic '' @ encoded) \<and>
      base64_decode encoded = as_bytes (user @ '':'' @ pwd) \<and> utf8_valid (as_bytes (user @ '':'' @ pwd)) \<and>
      CHR '':'' \<notin> set user)"
proof
  assume "check_basic_auth to_str header user pwd"
  then show "\<exists>auth encoded. header = Some auth \<and> to_str auth = Some (''Basic '' @ encoded) \<and>
      base64_decode encoded = as_bytes (user @ '':'' @ pwd) \<and> utf8_valid (as_bytes (user @ '':'' @ pwd)) \<and>
      CHR '':'' \<notin> set user"
    by (auto simp: check_basic_auth_def strip_prefix_def prefix_def split_once_Some from_utf8_def
        split: option.splits if_splits dest!: arg_cong [where f = as_bytes and x = "of_bytes _"])
next
  assume "\<exists>auth encoded. header = Some auth \<and> to_str auth = Some (''Basic '' @ encoded) \<and>
      base64_decode encoded = as_bytes (user @ '':'' @ pwd) \<and> utf8_valid (as_bytes (user @ '':'' @ pwd)) \<and>
      CHR '':'' \<notin> set user"
  then show "check_basic_auth to_str header user pwd"
    by (auto simp: check_basic_auth_def strip_prefix_def from_utf8_def split_once_append)
qed

text \<open>
  The tool and the server agree: with the credentials of the configuration the tool is let in
  exactly when the user name has no colon (with one, the server splits the text elsewhere and refuses
  its own credentials), and whoever is let in has sent exactly the configured user name and password.
\<close>

theorem admin_credentials:
  assumes "\<And>s. header_text s \<Longrightarrow> to_str (as_bytes s) = Some s"
    and "cli_admin_user config \<noteq> []" "cli_admin_pwd config \<noteq> []"
    and "utf8_valid (as_bytes (cli_admin_user config @ '':'' @ cli_admin_pwd config))"
  shows "(check_basic_auth to_str (map_option as_bytes (authorization config))
        (cli_admin_user config) (cli_admin_pwd config) \<longleftrightarrow> CHR '':'' \<notin> set (cli_admin_user config)) \<and>
    (\<forall>user pwd. check_basic_auth to_str (map_option as_bytes (authorization config)) user pwd \<longrightarrow>
        user @ '':'' @ pwd = cli_admin_user config @ '':'' @ cli_admin_pwd config)"
proof -
  let ?c = "cli_admin_user config @ '':'' @ cli_admin_pwd config"
  have "header_text (''Basic '' @ base64_encode (as_bytes ?c))"
    using encode_visible [of "as_bytes ?c"] by (simp add: header_text_def)
  then have "to_str (as_bytes (''Basic '' @ base64_encode (as_bytes ?c))) =
      Some (''Basic '' @ base64_encode (as_bytes ?c))" by (rule assms(1))
  then show ?thesis
    using assms(2-4) unfolding check_basic_auth_iff authorization_def
    by (auto simp: base64_roundtrip)
qed

definition demo_to_str :: "bytes \<Rightarrow> string option" where
  "demo_to_str bs = (if header_text (of_bytes bs) then Some (of_bytes bs) else None)"

definition demo_admin_config :: client_config where
  "demo_admin_config = demo_client_config\<lparr>cli_admin_user := ''root'', cli_admin_pwd := ''s3:cret''\<rparr>"

theorem admin_credentials_witness:
  "check_basic_auth demo_to_str (Some (as_bytes ''Basic cm9vdDpzMzpjcmV0'')) ''root'' ''s3:cret''"
proof -
  have a: "authorization demo_admin_config = Some ''Basic cm9vdDpzMzpjcmV0''" by code_simp
  have u: "utf8_valid (as_bytes (cli_admin_user demo_admin_config @ '':'' @ cli_admin_pwd demo_admin_config))"
    by code_simp
  have "cli_admin_user demo_admin_config = ''root''" "cli_admin_pwd demo_admin_config = ''s3:cret''"
    by (simp_all add: demo_admin_config_def)
  with admin_credentials [of demo_to_str demo_admin_config] a u
  show ?thesis by (simp add: demo_to_str_def)
qed

end
