(* ===== verification/ClientService.thy ===== *)
theory ClientService
  imports ClientControl BasicAuth HttpHost
begin

text \<open>
  The client around its session: the loop that connects again (\<^verbatim>\<open>arp-client/src/service.rs\<close>), the
  administration interface (\<^verbatim>\<open>admin/mod.rs\<close>) and the command-line tool that talks to it (\<^verbatim>\<open>cli/mod.rs\<close>).
  The HTTP server and the JSON parser are outside; a JSON value is the datatype \<open>json\<close>.
\<close>

subsection \<open>Connecting again\<close>

text \<open>
  Sessions are numbered in the order in which they begin. \<open>cs_admin\<close> is the session the administration
  interface was started for, if it could bind its address; \<open>cs_reloaders\<close> those that reload on a signal;
  \<open>cs_sleeps\<close> the pauses in seconds. Neither of these two kinds of task is ever stopped.
\<close>

record client_service =
  cs_config :: client_config
  cs_retry_count :: u32
  cs_sessions :: nat
  cs_admin :: "nat option"
  cs_reloaders :: "nat list"
  cs_sleeps :: "u64 list"

definition client_service_new :: "client_config \<Rightarrow> client_service" where
  "client_service_new config =
     \<lparr>cs_config = config, cs_retry_count = 0, cs_sessions = 0, cs_admin = None, cs_reloaders = [], cs_sleeps = []\<rparr>"

text \<open>
  One attempt: the error of connecting, whether the address of the administration interface and the signal
  can be had, and how the session ends. An address that the process itself already listens on cannot be
  bound a second time.
\<close>

record attempt =
  at_connect :: "error option"
  at_bind :: bool
  at_sighup :: bool
  at_run :: "unit result"

definition backoff :: "u32 \<Rightarrow> u64" where
  "backoff retry_count = min 30 (push_bit (unat (min retry_count 5)) 1)"

definition pause :: "client_service \<Rightarrow> client_service" where
  "pause s =
     (let retry_count = cs_retry_count s + 1
      in s\<lparr>cs_retry_count := retry_count, cs_sleeps := cs_sleeps s @ [backoff retry_count]\<rparr>)"

definition start_admin_server :: "bool \<Rightarrow> client_service \<Rightarrow> client_service" where
  "start_admin_server bind s =
     (if cli_admin_port (cs_config s) > 0 \<and> bind \<and> cs_admin s = None then s\<lparr>cs_admin := Some (cs_sessions s)\<rparr> else s)"

definition start_reloader :: "bool \<Rightarrow> client_service \<Rightarrow> client_service" where
  "start_reloader registered s =
     (if registered then s\<lparr>cs_reloaders := cs_reloaders s @ [cs_sessions s]\<rparr> else s)"

definition service_turn :: "attempt \<Rightarrow> client_service \<Rightarrow> unit result option \<times> client_service" where
  "service_turn a s =
     (case at_connect a of
        Some e \<Rightarrow> if is_retriable e then (None, pause s) else (Some (Inl e), s)
      | None \<Rightarrow>
          let s = s\<lparr>cs_retry_count := 0, cs_sessions := cs_sessions s + 1\<rparr>;
              s = start_reloader (at_sighup a) (start_admin_server (at_bind a) s)
          in (case at_run a of
                Inr _ \<Rightarrow> (Some (Inr ()), s)
              | Inl e \<Rightarrow> if is_retriable e then (None, pause s) else (Some (Inl e), s)))"

fun service_run :: "attempt list \<Rightarrow> client_service \<Rightarrow> unit result option \<times> client_service" where
  "service_run [] s = (None, s)"
| "service_run (a # as) s =
     (case service_turn a s of
        (Some r, s) \<Rightarrow> (Some r, s)
      | (None, s) \<Rightarrow> service_run as s)"

subsection \<open>The administration interface\<close>

type_synonym http_response = "nat \<times> json"

definition action_resp :: "bool \<Rightarrow> string \<Rightarrow> string option \<Rightarrow> json" where
  "action_resp ok msg remote_addr =
     JObject ([(''ok'', JBool ok), (''message'', JString msg)]
       @ (case remote_addr of None \<Rightarrow> [] | Some a \<Rightarrow> [(''remote_addr'', JString a)]))"

definition need_auth :: "client_config \<Rightarrow> bool" where
  "need_auth config \<longleftrightarrow> cli_admin_user config \<noteq> [] \<and> cli_admin_pwd config \<noteq> []"

definition api_status :: "string list \<Rightarrow> client_config \<Rightarrow> client_control \<Rightarrow> json" where
  "api_status order config c =
     JObject
       [(''status'', JString (if cn_run_id c = [] then ''connecting'' else ''connected'')),
        (''server_addr'', JString (cli_server_addr config)),
        (''server_port'', JNumber (show_nat (unat (cli_server_port config)))),
        (''run_id'', JString (cn_run_id c)),
        (''proxies'', JArray (map JString (list_proxy_names order (cn_proxies c))))]"

definition api_proxies :: "string list \<Rightarrow> client_control \<Rightarrow> json" where
  "api_proxies order c =
     (let items = list_proxy_names order (cn_proxies c) in
      JObject [(''total'', JNumber (show_nat (length items))), (''items'', JArray (map JString items))])"

definition api_proxy_detail :: "string \<Rightarrow> client_control \<Rightarrow> http_response" where
  "api_proxy_detail name c =
     (case client_get_proxy name (cn_proxies c) of
        Some proxy \<Rightarrow>
          (200, JObject [(''name'', JString (client_proxy_name proxy)), (''available'', JBool (is_available proxy))])
      | None \<Rightarrow> (404, action_resp False (''proxy '' @ name @ '' not found'') None))"

text \<open>The requests that change the session come with the turns of the session's loop they are carried out in.\<close>

definition api_add_proxy ::
  "request \<Rightarrow> proxy_config \<Rightarrow> client_control \<Rightarrow> http_response \<times> client_effect list \<times> client_control" where
  "api_add_proxy q pc c =
     (case proxy_validate pc of
        Inl e \<Rightarrow> ((400, action_resp False (''invalid proxy config: '' @ error_to_string e) None), [], c)
      | Inr _ \<Rightarrow>
          let (tx, tn, evs) = q; (r, effs, c) = register_proxy_dynamic tx tn evs pc c
          in (case r of
                Inr remote_addr \<Rightarrow> ((200, action_resp True ''proxy registered'' (Some remote_addr)), effs, c)
              | Inl e \<Rightarrow> ((500, action_resp False (error_to_string e) None), effs, c)))"

definition api_delete_proxy ::
  "request \<Rightarrow> string \<Rightarrow> client_control \<Rightarrow> http_response \<times> client_effect list \<times> client_control" where
  "api_delete_proxy q name c =
     (let (tx, tn, evs) = q; (r, effs, c) = close_proxy_dynamic tx tn evs name c
      in (case r of
            Inr _ \<Rightarrow> ((200, action_resp True (''proxy '' @ name @ '' closed'') None), effs, c)
          | Inl e \<Rightarrow> ((200, action_resp False (error_to_string e) None), effs, c)))"

text \<open>Which file is reloaded depends on the command line of the process, \<open>args\<close>.\<close>

fun config_flag :: "string list \<Rightarrow> string option" where
  "config_flag [] = None"
| "config_flag (a # as) =
     (if a = ''-c'' \<or> a = ''--config'' then (case as of [] \<Rightarrow> None | p # _ \<Rightarrow> Some p) else config_flag as)"

definition reload_path :: "string list \<Rightarrow> string" where
  "reload_path args =
     (if 2 < length args then args ! 2
      else (case config_flag args of Some p \<Rightarrow> p | None \<Rightarrow> ''client.toml''))"

definition api_reload ::
  "string list \<Rightarrow> (string \<Rightarrow> client_config result) \<Rightarrow> string list \<Rightarrow> (string \<Rightarrow> request) \<Rightarrow> (proxy_config \<Rightarrow> request) \<Rightarrow>
   client_control \<Rightarrow> http_response \<times> client_effect list \<times> client_control" where
  "api_reload args from_file order closing opening c =
     (case reload_proxies order closing opening (from_file (reload_path args)) c of
        (Inr (added, removed), effs, c) \<Rightarrow>
          ((200, action_resp True
             (''reload complete: '' @ show_nat added @ '' added, '' @ show_nat removed @ '' removed'') None), effs, c)
      | (Inl e, effs, c) \<Rightarrow> ((200, action_resp False (''reload failed: '' @ error_to_string e) None), effs, c))"

datatype admin_call = GetStatus | GetProxies | GetProxy string | AddProxy proxy_config | DeleteProxy string | Reload

text \<open>The surroundings of a call: how requests are carried out, and what the process was started with.\<close>

record admin_env =
  ae_order :: "string list"
  ae_request :: request
  ae_closing :: "string \<Rightarrow> request"
  ae_opening :: "proxy_config \<Rightarrow> request"
  ae_args :: "string list"
  ae_from_file :: "string \<Rightarrow> client_config result"
  ae_to_str :: "bytes \<Rightarrow> string option"

fun admin_route ::
  "admin_env \<Rightarrow> client_config \<Rightarrow> admin_call \<Rightarrow> client_control \<Rightarrow> http_response \<times> client_effect list \<times> client_control" where
  "admin_route ae config GetStatus c = ((200, api_status (ae_order ae) config c), [], c)"
| "admin_route ae config GetProxies c = ((200, api_proxies (ae_order ae) c), [], c)"
| "admin_route ae config (GetProxy name) c = (api_proxy_detail name c, [], c)"
| "admin_route ae config (AddProxy pc) c = api_add_proxy (ae_request ae) pc c"
| "admin_route ae config (DeleteProxy name) c = api_delete_proxy (ae_request ae) name c"
| "admin_route ae config Reload c =
     api_reload (ae_args ae) (ae_from_file ae) (ae_order ae) (ae_closing ae) (ae_opening ae) c"

definition admin_handle ::
  "admin_env \<Rightarrow> client_config \<Rightarrow> bytes option \<Rightarrow> admin_call \<Rightarrow> client_control \<Rightarrow>
   http_response \<times> client_effect list \<times> client_control" where
  "admin_handle ae config header call c =
     (if need_auth config \<and>
         \<not> check_basic_auth (ae_to_str ae) header (cli_admin_user config) (cli_admin_pwd config)
      then ((401, JString ''Unauthorized''), [], c)
      else admin_route ae config call c)"

subsection \<open>The command-line tool\<close>

definition effective_admin_addr :: "client_config \<Rightarrow> string" where
  "effective_admin_addr config =
     local_addr (if cli_admin_addr config = [] then ''127.0.0.1'' else cli_admin_addr config) (cli_admin_port config)"

definition http_target :: "string \<Rightarrow> (string \<times> string) option" where
  "http_target url =
     (case strip_prefix ''http://'' url of
        None \<Rightarrow> None
      | Some rest \<Rightarrow>
          (case split_once CHR ''/'' rest of
             None \<Rightarrow> Some (rest, ''/'')
           | Some (host_port, path) \<Rightarrow> Some (host_port, ''/'' @ path)))"

definition http_request :: "client_config \<Rightarrow> string \<times> string \<Rightarrow> string" where
  "http_request config target =
     ''GET '' @ snd target @ '' HTTP/1.1'' @ crlf @ ''Host: '' @ fst target @ crlf @ ''Connection: close'' @ crlf
     @ (case authorization config of None \<Rightarrow> [] | Some a \<Rightarrow> ''Authorization: '' @ a @ crlf)
     @ crlf"

text \<open>The first position of a text in another.\<close>

fun find_text :: "string \<Rightarrow> string \<Rightarrow> nat option" where
  "find_text p [] = (if p = [] then Some 0 else None)"
| "find_text p (x # xs) =
     (if prefix p (x # xs) then Some 0 else map_option Suc (find_text p xs))"

definition http_body :: "string \<Rightarrow> string + string" where
  "http_body response_str =
     (case find_text (crlf @ crlf) response_str of
        None \<Rightarrow> Inl ''invalid HTTP response''
      | Some pos \<Rightarrow>
          let status_line = (case lines response_str of [] \<Rightarrow> [] | l # _ \<Rightarrow> l) in
          if find_text ''401'' status_line \<noteq> None
          then Inl ''unauthorized (check admin_user/admin_pwd)''
          else Inr (drop (pos + 4) response_str))"

text \<open>
  \<open>exchange\<close> connects to an address, writes the request and reads the whole answer, as text; its error is
  the text that the tool reports.
\<close>

definition hyper_util_get :: "(string \<Rightarrow> string \<Rightarrow> string + string) \<Rightarrow> client_config \<Rightarrow> string \<Rightarrow> string + string" where
  "hyper_util_get exchange config url =
     (case http_target url of
        None \<Rightarrow> Inl ''invalid URL''
      | Some target \<Rightarrow>
          (case exchange (fst target) (http_request config target) of
             Inl e \<Rightarrow> Inl e
           | Inr response_str \<Rightarrow> http_body response_str))"

text \<open>The address the local service of a proxy is looked for at, and the line that is printed.\<close>

definition find_proxy :: "client_config \<Rightarrow> string \<Rightarrow> proxy_config option" where
  "find_proxy config name = find (\<lambda>p. pc_name p = name) (cli_proxies config)"

definition check_target :: "proxy_config \<Rightarrow> socket_addr" where
  "check_target p =
     (case parse_socket_addr (local_addr (pc_local_ip p) (pc_local_port p)) of
        Some a \<Rightarrow> a
      | None \<Rightarrow> \<lparr>sa_ip = V4 127 0 0 1, sa_port = pc_local_port p\<rparr>)"

definition quoted :: "string \<Rightarrow> string" where
  "quoted s = [CHR 0x27] @ s @ [CHR 0x27]"

definition tick :: string where "tick = ''['' @ [CHR 0xE2, CHR 0x9C, CHR 0x93] @ '']''"
definition cross :: string where "cross = ''['' @ [CHR 0xE2, CHR 0x9C, CHR 0x97] @ '']''"

definition check_local_service ::
  "(socket_addr \<Rightarrow> io_error + nat) \<Rightarrow> client_config \<Rightarrow> string \<Rightarrow> string list" where
  "check_local_service connect config name =
     (case find_proxy config name of
        None \<Rightarrow> []
      | Some p \<Rightarrow>
          let addr = local_addr (pc_local_ip p) (pc_local_port p);
              what = '' Local service '' @ quoted name @ '' ('' @ addr @ ''): ''
          in (case connect (check_target p) of
                Inr ms \<Rightarrow> [tick @ what @ ''reachable ('' @ show_nat ms @ ''ms)'']
              | Inl e \<Rightarrow> [cross @ what @ io_msg e @ '' '']))"

text \<open>Indexing a JSON value gives \<^verbatim>\<open>null\<close> for what is not there.\<close>

definition json_get :: "json \<Rightarrow> string \<Rightarrow> json" where
  "json_get v k =
     (case as_object v of
        None \<Rightarrow> JNull
      | Some obj \<Rightarrow> (case map_of obj k of None \<Rightarrow> JNull | Some w \<Rightarrow> w))"

fun as_array :: "json \<Rightarrow> json list option" where
  "as_array (JArray vs) = Some vs"
| "as_array _ = None"

fun as_bool :: "json \<Rightarrow> bool option" where
  "as_bool (JBool b) = Some b"
| "as_bool _ = None"

fun as_u64 :: "json \<Rightarrow> nat option" where
  "as_u64 (JNumber t) =
     (if t \<noteq> [] \<and> list_all (is_digit 10) t \<and> digits_value 10 t < 2 ^ 64 then Some (digits_value 10 t) else None)"
| "as_u64 _ = None"

definition text_or :: "string \<Rightarrow> json \<Rightarrow> string" where
  "text_or d v = (case as_str v of None \<Rightarrow> d | Some t \<Rightarrow> t)"

definition rule_line :: string where
  "rule_line = concat (replicate 41 [CHR 0xE2, CHR 0x94, CHR 0x80])"

text \<open>\<open>get\<close> fetches a URL, \<open>from_str\<close> parses JSON. What is printed, line by line.\<close>

definition run_status :: "(string \<Rightarrow> string + string) \<Rightarrow> (string \<Rightarrow> json option) \<Rightarrow> client_config \<Rightarrow> string list" where
  "run_status get from_str config =
     (case get (''http://'' @ effective_admin_addr config @ ''/api/v1/status'') of
        Inl e \<Rightarrow>
          [''Failed to connect to admin API at '' @ effective_admin_addr config @ '': '' @ e,
           ''Make sure arpc is running with admin_port configured.'']
      | Inr body \<Rightarrow>
          (case from_str body of
             None \<Rightarrow> [body]
           | Some status \<Rightarrow>
               [''ARP Client Status'', rule_line,
                ''  Status:      '' @ text_or ''unknown'' (json_get status ''status''),
                ''  Server:      '' @ text_or ''?'' (json_get status ''server_addr'') @ '':''
                  @ show_nat (case as_u64 (json_get status ''server_port'') of None \<Rightarrow> 0 | Some n \<Rightarrow> n),
                ''  Run ID:      '' @ text_or ''-'' (json_get status ''run_id'')]
               @ (case as_array (json_get status ''proxies'') of
                    None \<Rightarrow> []
                  | Some ps \<Rightarrow>
                      (''  Proxies:     '' @ show_nat (length ps)) # map (\<lambda>p. ''    - '' @ text_or ''?'' p) ps)))"

definition dash :: string where "dash = '' '' @ [CHR 0xE2, CHR 0x80, CHR 0x94] @ '' ''"

definition check_proxy_line :: "(string \<Rightarrow> string + string) \<Rightarrow> (string \<Rightarrow> json option) \<Rightarrow> client_config \<Rightarrow> string \<Rightarrow> string list" where
  "check_proxy_line get from_str config name =
     (let proxy = '' Proxy '' @ quoted name @ '': '' in
      case get (''http://'' @ effective_admin_addr config @ ''/api/v1/proxies/'' @ name) of
        Inl e \<Rightarrow> [cross @ proxy @ e]
      | Inr body \<Rightarrow>
          (case from_str body of
             None \<Rightarrow> []
           | Some detail \<Rightarrow>
               if (case as_object detail of None \<Rightarrow> True | Some obj \<Rightarrow> map_of obj ''available'' = None)
               then [cross @ proxy @ ''not found'']
               else if as_bool (json_get detail ''available'') = Some True
               then [tick @ proxy @ ''registered and available'']
               else [cross @ proxy @ ''registered but NOT available'']))"

definition run_check ::
  "(string \<Rightarrow> string + string) \<Rightarrow> (string \<Rightarrow> json option) \<Rightarrow> (socket_addr \<Rightarrow> io_error + nat) \<Rightarrow> client_config \<Rightarrow>
   string option \<Rightarrow> string list" where
  "run_check get from_str connect config name =
     (let api = '' Admin API ('' @ effective_admin_addr config @ '')'' in
      case get (''http://'' @ effective_admin_addr config @ ''/api/v1/status'') of
        Inl e \<Rightarrow>
          [cross @ api @ dash @ e, ''    arpc may not be running or admin_port is not configured.'']
      | Inr body \<Rightarrow>
          [tick @ api]
          @ (case from_str body of
               None \<Rightarrow> []
             | Some status \<Rightarrow>
                 let conn_status = text_or ''unknown'' (json_get status ''status'') in
                 [if conn_status = ''connected''
                  then tick @ '' Control connection: '' @ conn_status @ '' (run_id=''
                    @ text_or ''-'' (json_get status ''run_id'') @ '')''
                  else cross @ '' Control connection: '' @ conn_status]
                 @ (case name of
                      Some proxy_name \<Rightarrow>
                        check_proxy_line get from_str config proxy_name
                        @ check_local_service connect config proxy_name
                    | None \<Rightarrow>
                        (case as_array (json_get status ''proxies'') of
                           None \<Rightarrow> []
                         | Some ps \<Rightarrow>
                             concat (map (\<lambda>p. case as_str p of
                                  None \<Rightarrow> []
                                | Some pname \<Rightarrow> check_local_service connect config pname) ps)))))"

subsection \<open>How long the client keeps trying\<close>

text \<open>An attempt after which the client tries again, and how the last attempt ends.\<close>

definition attempt_error :: "attempt \<Rightarrow> error option" where
  "attempt_error a =
     (case at_connect a of
        Some e \<Rightarrow> Some e
      | None \<Rightarrow> (case at_run a of Inl e \<Rightarrow> Some e | Inr _ \<Rightarrow> None))"

definition transient :: "attempt \<Rightarrow> bool" where
  "transient a \<longleftrightarrow> (case attempt_error a of Some e \<Rightarrow> is_retriable e | None \<Rightarrow> False)"

text \<open>The pauses: doubled with every failure to connect, up to 30 seconds, and 2 seconds after a session.\<close>

fun waits :: "nat \<Rightarrow> attempt list \<Rightarrow> nat list" where
  "waits k [] = []"
| "waits k (a # as) =
     (if at_connect a \<noteq> None then min 30 (2 ^ Suc k) # waits (Suc k) as else 2 # waits 1 as)"

lemma start_sel [simp]:
  "cs_retry_count (start_reloader b s) = cs_retry_count s" "cs_sleeps (start_reloader b s) = cs_sleeps s"
  "cs_sessions (start_reloader b s) = cs_sessions s" "cs_admin (start_reloader b s) = cs_admin s"
  "cs_retry_count (start_admin_server b s) = cs_retry_count s" "cs_sleeps (start_admin_server b s) = cs_sleeps s"
  "cs_sessions (start_admin_server b s) = cs_sessions s" "cs_config (start_admin_server b s) = cs_config s"
  by (simp_all add: start_reloader_def start_admin_server_def)

lemma unat_backoff: "unat (backoff n) = min 30 (2 ^ unat n)"
proof (cases "unat n < 5")
  case True
  then have "unat n = 0 \<or> unat n = 1 \<or> unat n = 2 \<or> unat n = 3 \<or> unat n = 4" by auto
  moreover have "min n 5 = n" using True by (simp add: min_def word_le_nat_alt)
  ultimately show ?thesis by (auto simp: backoff_def)
next
  case False
  then have "min n 5 = 5" by (simp add: min_absorb2 word_le_nat_alt)
  moreover have "(30::nat) \<le> 2 ^ unat n"
    using False power_increasing [of 5 "unat n" "2::nat"] by simp
  ultimately show ?thesis by (simp add: backoff_def)
qed

lemma service_turn_transient:
  assumes "transient a" "unat (cs_retry_count s) + 1 < 2 ^ 32"
  obtains s' where "service_turn a s = (None, s')"
    "map unat (cs_sleeps s') = map unat (cs_sleeps s) @ waits (unat (cs_retry_count s)) [a]"
    "unat (cs_retry_count s') = (if at_connect a \<noteq> None then unat (cs_retry_count s) + 1 else 1)"
    "cs_sessions s' = cs_sessions s + (if at_connect a = None then 1 else 0)"
proof -
  have "unat (cs_retry_count s + 1) = unat (cs_retry_count s) + 1"
    using assms(2) by (simp add: unat_word_ariths)
  with assms(1) that show thesis
    by (auto simp: transient_def attempt_error_def service_turn_def pause_def Let_def unat_backoff
        split: option.splits sum.splits)
qed

text \<open>
  C30: The client gives up exactly at a permanent error. As long as every failure is of a retriable kind it goes on
  for ever, with the pauses of \<open>waits\<close> (2, 4, 8, 16, 30, 30 ... seconds while it cannot connect, 2 seconds after a
  session was lost), and the first attempt with any other outcome is the last one.
\<close>

theorem reconnect_exact:
  assumes "list_all transient as" "unat (cs_retry_count s) + length as < 2 ^ 32"
  shows "fst (service_run as s) = None \<and>
    map unat (cs_sleeps (snd (service_run as s))) = map unat (cs_sleeps s) @ waits (unat (cs_retry_count s)) as \<and>
    cs_sessions (snd (service_run as s)) = cs_sessions s + length (filter (\<lambda>a. at_connect a = None) as) \<and>
    (\<not> transient a \<longrightarrow>
      fst (service_run (as @ a # bs) s) = Some (case attempt_error a of None \<Rightarrow> Inr () | Some e \<Rightarrow> Inl e))"
  using assms
proof (induction as arbitrary: s)
  case Nil
  then show ?case
    by (auto simp: transient_def attempt_error_def service_turn_def Let_def split: option.splits sum.splits)
next
  case (Cons b as)
  from Cons.prems have "transient b" "unat (cs_retry_count s) + 1 < 2 ^ 32" by simp_all
  then obtain s' where t: "service_turn b s = (None, s')"
    "map unat (cs_sleeps s') = map unat (cs_sleeps s) @ waits (unat (cs_retry_count s)) [b]"
    "unat (cs_retry_count s') = (if at_connect b \<noteq> None then unat (cs_retry_count s) + 1 else 1)"
    "cs_sessions s' = cs_sessions s + (if at_connect b = None then 1 else 0)"
    by (rule service_turn_transient)
  from Cons.prems t(3) have "list_all transient as" "unat (cs_retry_count s') + length as < 2 ^ 32"
    by (auto split: if_splits)
  note Cons.IH [OF this]
  with t show ?case by auto
qed

definition demo_attempt :: "error option \<Rightarrow> error \<Rightarrow> attempt" where
  "demo_attempt connect e = \<lparr>at_connect = connect, at_bind = True, at_sighup = True, at_run = Inl e\<rparr>"

theorem reconnect_exact_witness:
  "map unat (cs_sleeps (snd (service_run
      [demo_attempt (Some (Transport [])) ChannelSend, demo_attempt (Some (Transport [])) ChannelSend,
       demo_attempt None ConnectionClosed, demo_attempt (Some (Transport [])) ChannelSend]
      (client_service_new demo_client_config)))) = [2, 4, 2, 4]"
proof -
  let ?as = "[demo_attempt (Some (Transport [])) ChannelSend, demo_attempt (Some (Transport [])) ChannelSend,
       demo_attempt None ConnectionClosed, demo_attempt (Some (Transport [])) ChannelSend]"
  have "list_all transient ?as"
    "unat (cs_retry_count (client_service_new demo_client_config)) + length ?as < 2 ^ 32"
    by (simp_all add: transient_def attempt_error_def demo_attempt_def client_service_new_def)
  from reconnect_exact [OF this]
  have "map unat (cs_sleeps (snd (service_run ?as (client_service_new demo_client_config)))) =
      map unat (cs_sleeps (client_service_new demo_client_config))
      @ waits (unat (cs_retry_count (client_service_new demo_client_config))) ?as"
    by (rule conjunct1 [OF conjunct2])
  then show ?thesis by (simp only:) (simp add: demo_attempt_def client_service_new_def)
qed

subsection \<open>Whom the administration interface serves\<close>

lemma cs_admin_kept:
  "cs_admin s = Some k \<Longrightarrow> cs_admin (snd (service_turn a s)) = Some k"
  by (auto simp: service_turn_def pause_def start_admin_server_def Let_def split: option.splits sum.splits)

lemma ended_session:
  assumes "loop_until_end evs c = (Some e, effs, c')"
  shows "cn_cancelled c'" "cn_run_id c' = []" "cn_pending_proxy c' = None"
  using assms
  by (auto simp: loop_until_end_def end_session_def answer_pending_def client_shutdown_def Let_def
      split: prod.splits option.splits)



subsection \<open>Who may use it\<close>

text \<open>
  With a user name and a password configured, a call is carried out exactly when its header is
  \<^verbatim>\<open>Basic\<close> followed by an encoding of the two, joined by a colon, and the user name has no colon; any other
  call is refused and leaves the session untouched. With one of the two empty, every call is carried out.
\<close>

theorem admin_gate:
  "admin_handle ae config header call c =
     (if cli_admin_user config = [] \<or> cli_admin_pwd config = [] \<or>
         (\<exists>auth encoded. header = Some auth \<and> ae_to_str ae auth = Some (''Basic '' @ encoded) \<and>
            base64_decode encoded = as_bytes (cli_admin_user config @ '':'' @ cli_admin_pwd config) \<and>
            utf8_valid (as_bytes (cli_admin_user config @ '':'' @ cli_admin_pwd config)) \<and>
            CHR '':'' \<notin> set (cli_admin_user config))
      then admin_route ae config call c
      else ((401, JString ''Unauthorized''), [], c))"
  unfolding admin_handle_def need_auth_def check_basic_auth_iff by auto

end
