(* ===== verification/ProxyTypes.thy ===== *)
theory ProxyTypes
  imports Proxies
begin

text \<open>
  What kind of object stands behind a name of the table of proxies (\<^verbatim>\<open>arp-server/src/proxy/mod.rs\<close>): the
  proxy a registration creates, as a function of the message, and the typing of the whole table, by which the
  trait object behind a key is always the one its record tells.
\<close>

definition mux_names :: "string set" where
  "mux_names = {''tcp_mux'', ''mux'', ''smux'', ''yamux''}"

text \<open>The proxy that a message leads to, apart from the port it gets.\<close>

fun proxy_for :: "new_proxy_msg \<Rightarrow> string \<Rightarrow> proxy \<Rightarrow> bool" where
  "proxy_for msg key (PTcp t) \<longleftrightarrow> np_proxy_type msg = ''tcp'' \<and> fst (parse_lb_group msg) = [] \<and>
     tp_name t = np_proxy_name msg \<and> \<not> tp_stcp t \<and> tp_tcp_mux t = (np_multiplexer msg \<in> mux_names)"
| "proxy_for msg key (PMember n g b) \<longleftrightarrow> np_proxy_type msg = ''tcp'' \<and> fst (parse_lb_group msg) \<noteq> [] \<and>
     n = np_proxy_name msg \<and> b = key"
| "proxy_for msg key (PStcp n) \<longleftrightarrow> np_proxy_type msg = ''stcp'' \<and> n = np_proxy_name msg"
| "proxy_for msg key (PHttp k) \<longleftrightarrow> np_proxy_type msg = ''http'' \<and> k = key"
| "proxy_for msg key (PHttps k) \<longleftrightarrow> np_proxy_type msg = ''https'' \<and> k = key"
| "proxy_for msg key (PUdp u) \<longleftrightarrow> np_proxy_type msg \<in> {''udp'', ''sudp''} \<and> ud_name u = np_proxy_name msg \<and>
     ud_use_compression u = np_use_compression msg \<and>
     ud_use_encryption u = (np_use_encryption msg \<or> np_proxy_type msg = ''sudp'') \<and> ud_secret u = np_sk msg"
| "proxy_for msg key (PXtcp n relay) \<longleftrightarrow> np_proxy_type msg = ''xtcp'' \<and> n = np_proxy_name msg \<and>
     (case relay of
        None \<Rightarrow> \<not> np_fallback_to_relay msg
      | Some t \<Rightarrow> np_fallback_to_relay msg \<and> tp_name t = np_proxy_name msg @ ''__relay'' \<and>
          \<not> tp_stcp t \<and> \<not> tp_tcp_mux t)"

lemma tcp_proxy_new_for:
  "tcp_proxy_new os msg tx rc = (Inr p, rc') \<Longrightarrow>
   tp_name p = np_proxy_name msg \<and> tp_stcp p = (np_proxy_type msg = ''stcp'') \<and>
   tp_tcp_mux p = (np_multiplexer msg \<in> mux_names \<and> np_proxy_type msg \<noteq> ''stcp'')"
  by (auto simp: tcp_proxy_new_def mux_names_def Let_def split: prod.splits sum.splits option.splits)

lemma udp_proxy_new_for:
  "udp_proxy_new os msg tx rc = (Inr p, rc') \<Longrightarrow>
   ud_name p = np_proxy_name msg \<and> ud_use_compression p = np_use_compression msg \<and>
   ud_use_encryption p = (np_use_encryption msg \<or> np_proxy_type msg = ''sudp'') \<and> ud_secret p = np_sk msg"
  by (auto simp: udp_proxy_new_def Let_def split: prod.splits sum.splits option.splits)

lemma register_tcp_for:
  "register_tcp os key msg tx pm = (Inr (p, a), pm1) \<Longrightarrow> np_proxy_type msg = ''tcp'' \<Longrightarrow> proxy_for msg key p"
  by (auto simp: register_tcp_def Let_def split: if_splits prod.splits sum.splits dest: tcp_proxy_new_for)

lemma register_xtcp_for:
  "register_xtcp os run_id msg tx pm = (Inr (p, a), pm1) \<Longrightarrow> np_proxy_type msg = ''xtcp'' \<Longrightarrow> proxy_for msg key p"
  by (auto simp: register_xtcp_def Let_def mux_names_def split: if_splits prod.splits sum.splits
      dest!: tcp_proxy_new_for)

lemma register_stcp_for:
  "register_stcp run_id msg tx pm = (Inr (p, a), pm1) \<Longrightarrow> np_proxy_type msg = ''stcp'' \<Longrightarrow> proxy_for msg key p"
  by (auto simp: register_stcp_def split: if_splits)

lemma register_vhost_for:
  "register_vhost pf run_id msg tx pm = (Inr (p, a), pm1) \<Longrightarrow> np_proxy_type msg = ''http'' \<or> np_proxy_type msg = ''https'' \<Longrightarrow>
   proxy_for msg (proxy_key run_id (np_proxy_name msg)) p"
  by (auto simp: register_vhost_def proxy_key_def Let_def split: prod.splits sum.splits)

lemma register_udp_for:
  "register_udp os msg tx pm = (Inr (p, a), pm1) \<Longrightarrow> np_proxy_type msg = ''udp'' \<or> np_proxy_type msg = ''sudp'' \<Longrightarrow>
   proxy_for msg key p"
  by (auto simp: register_udp_def split: prod.splits sum.splits dest: udp_proxy_new_for)

lemmas register_arms_for = register_tcp_for register_stcp_for register_vhost_for register_udp_for register_xtcp_for

lemma register_arms_keep:
  "register_tcp os key msg tx pm = (r, pm1) \<Longrightarrow> pm_proxies pm1 = pm_proxies pm \<and> pm_records pm1 = pm_records pm"
  "register_stcp run_id msg tx pm = (r, pm1) \<Longrightarrow> pm_proxies pm1 = pm_proxies pm \<and> pm_records pm1 = pm_records pm"
  "register_vhost pf run_id msg tx pm = (r, pm1) \<Longrightarrow> pm_proxies pm1 = pm_proxies pm \<and> pm_records pm1 = pm_records pm"
  "register_udp os msg tx pm = (r, pm1) \<Longrightarrow> pm_proxies pm1 = pm_proxies pm \<and> pm_records pm1 = pm_records pm"
  "register_xtcp os run_id msg tx pm = (r, pm1) \<Longrightarrow> pm_proxies pm1 = pm_proxies pm \<and> pm_records pm1 = pm_records pm"
  by (auto simp: register_tcp_def register_stcp_def register_vhost_def register_udp_def register_xtcp_def Let_def
      split: if_splits prod.splits sum.splits)

lemma if_elim: "(if c then x else y) = z \<Longrightarrow> (x = z \<Longrightarrow> c \<Longrightarrow> P) \<Longrightarrow> (y = z \<Longrightarrow> \<not> c \<Longrightarrow> P) \<Longrightarrow> P"
  by (cases c) simp_all

lemma register_proxy_for:
  assumes "register_proxy pf os run_id msg tx pm = (Inr a, pm')"
  defines "key \<equiv> proxy_key run_id (np_proxy_name msg)"
  shows "\<exists>p. proxy_for msg key p \<and> pm_proxies pm' = (pm_proxies pm)(key \<mapsto> p) \<and>
    pm_records pm' = (pm_records pm)(key \<mapsto> \<lparr>rec_run_id = run_id, rec_proxy_name = np_proxy_name msg,
       rec_proxy_type = np_proxy_type msg, rec_remote_addr = a\<rparr>)"
proof -
  let ?ty = "np_proxy_type msg"
  let ?arm = "if ?ty = ''tcp'' then register_tcp os key msg tx pm
    else if ?ty = ''stcp'' then register_stcp run_id msg tx pm
    else if ?ty = ''http'' \<or> ?ty = ''https'' then register_vhost pf run_id msg tx pm
    else if ?ty = ''udp'' \<or> ?ty = ''sudp'' then register_udp os msg tx pm
    else if ?ty = ''xtcp'' then register_xtcp os run_id msg tx pm
    else (Inl (Proxy (''Unsupported proxy type: '' @ ?ty)), pm)"
  obtain r pm1 where arm: "?arm = (r, pm1)" by (cases ?arm)
  with assms(1) obtain p where r: "r = Inr (p, a)"
    and pm': "pm' = entered key p \<lparr>rec_run_id = run_id, rec_proxy_name = np_proxy_name msg,
       rec_proxy_type = ?ty, rec_remote_addr = a\<rparr> pm1"
    unfolding register_proxy_def Let_def key_def [symmetric] arm
    by (elim if_elim) (simp, cases r, simp_all split: prod.splits)
  have "proxy_for msg key p"
    using arm unfolding r key_def
    by (elim if_elim) ((erule (1) register_arms_for)+, simp)
  moreover have "pm_proxies pm1 = pm_proxies pm \<and> pm_records pm1 = pm_records pm"
    using arm by (elim if_elim) ((erule register_arms_keep)+, simp)
  ultimately show ?thesis using pm' by auto
qed

subsection \<open>The table is well typed\<close>

fun proxy_typed :: "string \<Rightarrow> proxy_record \<Rightarrow> proxy \<Rightarrow> bool" where
  "proxy_typed key r (PTcp t) \<longleftrightarrow> rec_proxy_type r = ''tcp'' \<and> tp_name t = rec_proxy_name r \<and> \<not> tp_stcp t"
| "proxy_typed key r (PMember n g b) \<longleftrightarrow> rec_proxy_type r = ''tcp'' \<and> n = rec_proxy_name r \<and> b = key"
| "proxy_typed key r (PStcp n) \<longleftrightarrow> rec_proxy_type r = ''stcp'' \<and> n = rec_proxy_name r"
| "proxy_typed key r (PHttp k) \<longleftrightarrow> rec_proxy_type r = ''http'' \<and> k = key"
| "proxy_typed key r (PHttps k) \<longleftrightarrow> rec_proxy_type r = ''https'' \<and> k = key"
| "proxy_typed key r (PUdp u) \<longleftrightarrow>
     (rec_proxy_type r = ''udp'' \<or> rec_proxy_type r = ''sudp'' \<and> ud_use_encryption u) \<and> ud_name u = rec_proxy_name r"
| "proxy_typed key r (PXtcp n relay) \<longleftrightarrow> rec_proxy_type r = ''xtcp'' \<and> n = rec_proxy_name r \<and>
     (case relay of
        None \<Rightarrow> True
      | Some t \<Rightarrow> tp_name t = n @ ''__relay'' \<and> \<not> tp_stcp t \<and> \<not> tp_tcp_mux t)"

definition typed_inv :: "proxy_manager \<Rightarrow> bool" where
  "typed_inv pm \<longleftrightarrow>
     (\<forall>k p. pm_proxies pm k = Some p \<longrightarrow>
        (\<exists>r. pm_records pm k = Some r \<and> k = proxy_key (rec_run_id r) (rec_proxy_name r) \<and> proxy_typed k r p))"

lemma proxy_for_typed:
  "proxy_for msg key p \<Longrightarrow>
   proxy_typed key \<lparr>rec_run_id = run_id, rec_proxy_name = np_proxy_name msg, rec_proxy_type = np_proxy_type msg,
     rec_remote_addr = a\<rparr> p"
  by (cases p) (auto split: option.splits)

lemma typed_inv_register:
  assumes "typed_inv pm"
  shows "typed_inv (snd (register_proxy pf os run_id msg tx pm))"
proof (cases "register_proxy pf os run_id msg tx pm")
  case (Pair r pm')
  show ?thesis
  proof (cases r)
    case (Inl e)
    with Pair have eq: "pm' = pm\<lparr>pm_ports := pm_ports pm'\<rparr>" by (auto dest: register_proxy_Inl(1))
    have "pm_proxies pm' = pm_proxies pm" "pm_records pm' = pm_records pm"
      using arg_cong [OF eq, of pm_proxies] arg_cong [OF eq, of pm_records] by simp_all
    with Pair assms show ?thesis by (simp add: typed_inv_def)
  next
    case (Inr a)
    with Pair register_proxy_for [of pf os run_id msg tx pm a pm'] assms show ?thesis
      by (auto simp: typed_inv_def intro!: proxy_for_typed)
  qed
qed

lemma typed_inv_remove:
  "typed_inv pm \<Longrightarrow> typed_inv (remove_key order key pm)"
  by (cases "pm_proxies pm key") (auto simp: typed_inv_def remove_key_def)

lemma typed_inv_fold_remove: "typed_inv pm \<Longrightarrow> typed_inv (fold (remove_key order) keys pm)"
  by (induction keys arbitrary: pm) (simp_all add: typed_inv_remove)

lemma typed_inv_cong:
  "pm_proxies pm' = pm_proxies pm \<Longrightarrow> pm_records pm' = pm_records pm \<Longrightarrow> typed_inv pm \<Longrightarrow> typed_inv pm'"
  by (simp add: typed_inv_def)

lemma manager_step_typed: "manager_step pf pm pm' \<Longrightarrow> typed_inv pm \<Longrightarrow> typed_inv pm'"
proof (induction rule: manager_step.induct)
  case (evict order pm keys name)
  then show ?case
    by (auto simp: evict_proxy_by_name_def Let_def split: option.splits
        intro: typed_inv_cong [OF _ _ typed_inv_remove])
qed (auto simp: unregister_proxy_def unregister_run_proxies_def typed_inv_remove typed_inv_fold_remove
      intro: typed_inv_register typed_inv_cong)

text \<open>
  C10: The table of proxies is well typed in every reachable state. Each key has a record, is made of the record's
  run identifier and name, and the object behind it is of the kind the record's type tells: a plain TCP or grouped
  proxy for \<^verbatim>\<open>tcp\<close>, never one in secret mode; an HTTP or HTTPS proxy that knows its own key; a datagram
  proxy, encrypting if it is \<^verbatim>\<open>sudp\<close>; an XTCP proxy whose relay, if it has one, is a plain TCP proxy under the
  name with the suffix \<^verbatim>\<open>__relay\<close>.
\<close>

theorem registered_proxies_typed:
  assumes "manager_reachable pf pm" "pm_proxies pm k = Some p"
  shows "\<exists>r. pm_records pm k = Some r \<and> k = proxy_key (rec_run_id r) (rec_proxy_name r) \<and> proxy_typed k r p"
proof -
  from assms(1) obtain bind sub hp hsp config
    where "(manager_step pf)\<^sup>*\<^sup>* (manager_new pf bind sub hp hsp (resource_new config)) pm"
    unfolding manager_reachable_def by blast
  then have "typed_inv pm"
    by (induction rule: rtranclp_induct) (simp add: typed_inv_def manager_new_def, blast intro: manager_step_typed)
  with assms(2) show ?thesis by (simp add: typed_inv_def)
qed

theorem registered_proxies_typed_witness:
  "proxy_typed ''r1:web'' (the (pm_records (demo_registered ''udp'' 18080) ''r1:web''))
     (the (pm_proxies (demo_registered ''udp'' 18080) ''r1:web''))"
proof -
  have "pm_proxies (demo_registered ''udp'' 18080) ''r1:web'' \<noteq> None"
    by (simp add: demo_registered_def demo_eval)
  then obtain p where p: "pm_proxies (demo_registered ''udp'' 18080) ''r1:web'' = Some p" by (elim not_None_eq [THEN iffD1, THEN exE])
  obtain r where r: "pm_records (demo_registered ''udp'' 18080) ''r1:web'' = Some r" "proxy_typed ''r1:web'' r p"
    using registered_proxies_typed [OF demo_registered_reachable p] by (elim exE conjE)
  show ?thesis unfolding p r(1) option.sel by (rule r(2))
qed

end
