(* ===== verification/EndToEnd.thy ===== *)
theory EndToEnd
  imports Service ClientService ProxyTypes
begin

text \<open>
  Client and server together: what one side builds is what the other side takes apart. Logging in and offering
  work connections, the mode in which both ends of a tunnel work, the secrets of STCP and XTCP visitors, and what
  a request for a work connection that the client does not answer does to the session.
\<close>

subsection \<open>Logging in\<close>

definition pool_allowed :: "token_auth \<Rightarrow> u32 \<Rightarrow> bool" where
  "pool_allowed a n \<longleftrightarrow> list_all (\<lambda>r. ar_max_pool_count r = 0 \<or> n \<le> ar_max_pool_count r) (ta_rules a)"

lemma verify_login_of:
  assumes "ac_token (cli_auth config) \<in> set (known a)" "\<bar>sint (server_now - now)\<bar> \<le> 300"
    "pool_allowed a (tr_pool_count (cli_transport config))"
  obtains t where "verify_login pf a server_now (login_of pf ho config now) = Inr t"
proof -
  obtain t where t: "find_matching_token pf a (sign pf (ac_token (cli_auth config)) (show_int (sint now)))
      (show_int (sint now)) = Some t"
    using assms(1) by (rule find_matching_token_complete)
  have "verify_login pf a server_now (login_of pf ho config now) = Inr t"
    using assms(2,3) t
    by (auto simp: verify_login_Inr login_of_def check_timestamp_Inr pool_allowed_def list_all_iff
        dest: matching_rule_Some)
  with that show thesis .
qed

lemma verify_new_work_conn_of:
  assumes "ac_token (cli_auth config) \<in> set (known a)"
  shows "verify_new_work_conn pf a (new_work_conn_of pf config run_id) = Inr ()"
proof -
  obtain t where "find_matching_token pf a (sign pf (ac_token (cli_auth config)) run_id) run_id = Some t"
    using assms by (rule find_matching_token_complete)
  then show ?thesis by (simp add: verify_new_work_conn_def new_work_conn_of_def)
qed

text \<open>
  C6: A client that has one of the server's tokens, a clock within 300 seconds of the server's and a pool within
  the limits gets its session: the server answers the login with the run identifier, the client takes it, and a
  work connection the client then offers under that identifier is kept for the session. If the server refuses the
  login for whatever reason, no session is added and the client ends with an authentication error, which it does
  not retry.
\<close>

theorem login_end_to_end:
  assumes "\<forall>m. en_send en m = Inr ()" "trim run_id \<noteq> []" and msg: "msg = login_of pf ho config now"
  shows "(ac_token (cli_auth config) \<in> set (known (sr_auth sr)) \<and> \<bar>sint (en_now en - now)\<bar> \<le> 300 \<and>
      pool_allowed (sr_auth sr) (tr_pool_count (cli_transport config)) \<longrightarrow>
      (\<exists>sr' sr''. login_begin pf en run_id tx msg peer sr = ((Inr (), [Sent (login_resp run_id [])]), sr') \<and>
        client_login (Inr ()) (Inr (Some (login_resp run_id []))) = Inr run_id \<and>
        handle_new_work_conn pf en conn (new_work_conn_of pf config run_id) sr' = ((Inr (), []), sr'') \<and>
        (\<exists>c. controls_get run_id sr'' = Some c \<and> ct_idle c = [conn]))) \<and>
    (\<forall>e. verify_login pf (sr_auth sr) (en_now en) msg = Inl e \<longrightarrow>
      (\<exists>sr'. login_begin pf en run_id tx msg peer sr = ((Inl e, [Sent (login_resp [] (error_to_string e))]), sr') \<and>
        sr_sessions sr' = sr_sessions sr \<and>
        client_login (Inr ()) (Inr (Some (login_resp [] (error_to_string e)))) = Inl (Auth (error_to_string e)) \<and>
        \<not> is_retriable (Auth (error_to_string e))))"
proof (intro conjI impI allI)
  assume a: "ac_token (cli_auth config) \<in> set (known (sr_auth sr)) \<and> \<bar>sint (en_now en - now)\<bar> \<le> 300 \<and>
      pool_allowed (sr_auth sr) (tr_pool_count (cli_transport config))"
  then obtain t where t: "verify_login pf (sr_auth sr) (en_now en) msg = Inr t"
    unfolding msg by (elim conjE verify_login_of)
  have w: "verify_new_work_conn pf (sr_auth sr) (new_work_conn_of pf config run_id) = Inr ()"
    using a by (simp add: verify_new_work_conn_of)
  show "\<exists>sr' sr''. login_begin pf en run_id tx msg peer sr = ((Inr (), [Sent (login_resp run_id [])]), sr') \<and>
        client_login (Inr ()) (Inr (Some (login_resp run_id []))) = Inr run_id \<and>
        handle_new_work_conn pf en conn (new_work_conn_of pf config run_id) sr' = ((Inr (), []), sr'') \<and>
        (\<exists>c. controls_get run_id sr'' = Some c \<and> ct_idle c = [conn])"
    using assms(1,2) t w
    by (auto simp: login_begin_def client_login_def login_resp_def handle_new_work_conn_def new_work_conn_of_def
        controls_add_def controls_get_def control_new_def handle_work_conn_def audit_def count_metric_def Let_def)
next
  fix e
  assume "verify_login pf (sr_auth sr) (en_now en) msg = Inl e"
  then show "\<exists>sr'. login_begin pf en run_id tx msg peer sr = ((Inl e, [Sent (login_resp [] (error_to_string e))]), sr') \<and>
        sr_sessions sr' = sr_sessions sr \<and>
        client_login (Inr ()) (Inr (Some (login_resp [] (error_to_string e)))) = Inl (Auth (error_to_string e)) \<and>
        \<not> is_retriable (Auth (error_to_string e))"
    using assms(1) by (simp add: login_begin_def client_login_def login_resp_def audit_def count_metric_def Let_def)
qed

definition demo_host :: host where
  "demo_host = \<lparr>ho_name = ''h'', ho_user = ''u'', ho_os = ''linux'', ho_arch = ''x86_64'', ho_version = ''0.5.4''\<rparr>"

theorem login_end_to_end_witness:
  "\<exists>sr'. login_begin demo_platform demo_env ''u1'' 0 (login_of demo_platform demo_host demo_client_config (en_now demo_env))
      ''peer'' demo_sr0 = ((Inr (), [Sent (login_resp ''u1'' [])]), sr')"
proof -
  have "\<forall>m. en_send demo_env m = Inr ()" "trim ''u1'' \<noteq> []"
    by (simp add: demo_env_def) code_simp
  note t = login_end_to_end [OF this refl, where config = demo_client_config and sr = demo_sr0 and now = "en_now demo_env"
      and pf = demo_platform and ho = demo_host and tx = 0 and peer = "''peer''" and conn = 0]
  have "ac_token (cli_auth demo_client_config) \<in> set (known (sr_auth demo_sr0)) \<and>
      \<bar>sint (en_now demo_env - en_now demo_env)\<bar> \<le> 300 \<and>
      pool_allowed (sr_auth demo_sr0) (tr_pool_count (cli_transport demo_client_config))"
    by (simp add: demo_client_config_def demo_sr0_def demo_auth_def known_def pool_allowed_def)
  with t show ?thesis by blast
qed

subsection \<open>The two ends of a tunnel\<close>

lemma new_proxy_of_sel [simp]:
  "np_proxy_name (new_proxy_of pc mx) = pc_name pc" "np_multiplexer (new_proxy_of pc mx) = mx"
  "np_proxy_type (new_proxy_of pc mx) = proxy_type_name (pc_proxy_type pc)" "np_sk (new_proxy_of pc mx) = pc_sk pc"
  "np_use_compression (new_proxy_of pc mx) = pc_use_compression pc"
  "np_use_encryption (new_proxy_of pc mx) = pc_use_encryption pc"
  "np_fallback_to_relay (new_proxy_of pc mx) = pc_fallback_to_relay pc"
  by (simp_all add: new_proxy_of_def)

lemma parse_lb_group_of:
  "parse_lb_group (new_proxy_of pc mx) = (trim (lb_group (pc_load_balancer pc)), trim (lb_group_key (pc_load_balancer pc)))"
  by (simp add: parse_lb_group_def new_proxy_of_def str_field_def)

fun server_mux :: "proxy \<Rightarrow> bool" where
  "server_mux (PTcp p) = tp_tcp_mux p"
| "server_mux _ = False"

fun client_mux :: "client_proxy \<Rightarrow> bool" where
  "client_mux (LTcp p) = tcl_tcp_mux p"
| "client_mux _ = False"

text \<open>How datagrams are treated at each end.\<close>

fun server_packets :: "proxy \<Rightarrow> (bool \<times> bool \<times> string) option" where
  "server_packets (PUdp u) = Some (ud_use_compression u, ud_use_encryption u, ud_secret u)"
| "server_packets _ = None"

fun client_packets :: "client_proxy \<Rightarrow> (bool \<times> bool \<times> string) option" where
  "client_packets (LUdp u) = Some (ucl_use_compression u, ucl_use_encryption u, ucl_secret u)"
| "client_packets _ = None"

lemma client_mux_new:
  "client_mux (client_proxy_new now (effective_proxy config pc)) \<longleftrightarrow>
     pc_proxy_type pc \<in> {Tcp, Stcp, Http, Https} \<and> effective_multiplexer config pc \<in> mux_names"
  by (cases "pc_proxy_type pc")
    (auto simp: client_proxy_new_def effective_proxy_def tcp_local_new_def mux_names_def)

lemma effective_multiplexer_mux:
  "effective_multiplexer config pc \<in> mux_names \<longleftrightarrow>
     pc_multiplexer pc \<in> mux_names \<or>
     pc_multiplexer pc = [] \<and> tr_tcp_mux (cli_transport config) \<and> pc_proxy_type pc = Tcp \<and>
     trim (lb_group (pc_load_balancer pc)) = []"
  by (auto simp: effective_multiplexer_def mux_names_def)

text \<open>
  C16: Both ends treat a tunnel alike, except where a multiplexer is set by hand. For a proxy that the server has
  registered from the client's message, the two ends agree on whether the work connections are multiplexed exactly
  if the configuration names no multiplexer, or the proxy is a plain TCP proxy outside any group, or it is not of a
  stream type; in the other cases (a multiplexer named for an HTTP, HTTPS or STCP proxy or a member of a group) the
  client expects frames that the server never sends. For datagrams they always agree on compression, encryption and
  secret.
\<close>

theorem tunnel_modes_agree:
  assumes reg: "register_proxy pf os run_id (new_proxy_of pc (effective_multiplexer config pc)) tx pm = (Inr a, pm')"
    and p: "pm_proxies pm' (proxy_key run_id (pc_name pc)) = Some p"
  shows "(server_mux p = client_mux (client_proxy_new now (effective_proxy config pc)) \<longleftrightarrow>
      pc_multiplexer pc \<notin> mux_names \<or> pc_proxy_type pc = Tcp \<and> trim (lb_group (pc_load_balancer pc)) = [] \<or>
      pc_proxy_type pc \<in> {Udp, Sudp, Xtcp}) \<and>
    server_packets p = client_packets (client_proxy_new now (effective_proxy config pc))"
proof -
  let ?msg = "new_proxy_of pc (effective_multiplexer config pc)"
  have "proxy_for ?msg (proxy_key run_id (pc_name pc)) p"
    using register_proxy_for [OF reg] p by auto
  then show ?thesis
    unfolding client_mux_new effective_multiplexer_mux
    by (cases p; cases "pc_proxy_type pc")
      (auto simp: parse_lb_group_of effective_multiplexer_mux client_proxy_new_def effective_proxy_def
        udp_local_new_def)
qed

definition demo_os_free :: os where
  "demo_os_free = \<lparr>os_tcp_bind = (\<lambda>_. None), os_udp_bind = (\<lambda>_. None)\<rparr>"

definition demo_web :: proxy_config where
  "demo_web = (demo_proxy_config ''web'')\<lparr>pc_remote_port := 16000\<rparr>"

theorem tunnel_modes_agree_witness:
  "server_mux (the (pm_proxies (snd (register_proxy demo_platform demo_os_free ''r''
      (new_proxy_of demo_web ''tcp_mux'') 0 demo_manager)) (proxy_key ''r'' ''web'')))"
proof -
  have mx: "effective_multiplexer demo_client_config demo_web = ''tcp_mux''"
    by (simp add: effective_multiplexer_def demo_web_def demo_proxy_config_def demo_client_config_def transport_default_def)
  obtain r pm' where "register_proxy demo_platform demo_os_free ''r'' (new_proxy_of demo_web ''tcp_mux'') 0 demo_manager = (r, pm')"
    by (cases "register_proxy demo_platform demo_os_free ''r'' (new_proxy_of demo_web ''tcp_mux'') 0 demo_manager")
  moreover from this have "\<exists>a. r = Inr a"
    by (auto simp: new_proxy_of_def demo_web_def demo_proxy_config_def demo_os_free_def demo_eval str_field_def)
  ultimately obtain a where reg: "register_proxy demo_platform demo_os_free ''r'' (new_proxy_of demo_web ''tcp_mux'') 0 demo_manager = (Inr a, pm')"
    by blast
  obtain p where p: "pm_proxies pm' (proxy_key ''r'' (pc_name demo_web)) = Some p"
    using register_proxy_for [OF reg] by auto
  have "client_mux (client_proxy_new 0 (effective_proxy demo_client_config demo_web))"
    by (simp add: client_mux_new mx mux_names_def) (simp add: demo_web_def demo_proxy_config_def)
  with tunnel_modes_agree [where config = demo_client_config and pc = demo_web and now = 0, unfolded mx, OF reg p]
  have "server_mux p" by (simp add: demo_web_def demo_proxy_config_def)
  with p show ?thesis unfolding reg by (simp add: demo_web_def demo_proxy_config_def)
qed

subsection \<open>Secrets\<close>

lemma register_stcp_info:
  assumes "register_proxy pf os run_id (new_proxy_of pc mx) tx pm = (Inr a, pm')" "pc_proxy_type pc = Stcp"
  shows "get_stcp_info (pc_name pc) pm' = Some \<lparr>si_run_id = run_id, si_sk = pc_sk pc, si_work_conn_req_tx = tx\<rparr>"
  using assms
  by (auto simp: register_proxy_def register_stcp_def get_stcp_info_def Let_def split: if_splits)

lemma register_xtcp_info:
  assumes "register_proxy pf os run_id (new_proxy_of pc mx) tx pm = (Inr a, pm')" "pc_proxy_type pc = Xtcp"
  shows "\<exists>i. get_xtcp_owner (pc_name pc) pm' = Some i \<and> xi_sk i = pc_sk pc \<and> xi_run_id i = run_id"
    and "trim (pc_sk pc) \<noteq> []"
  using assms
  by (auto simp: register_proxy_def register_xtcp_def get_xtcp_owner_def Let_def split: if_splits prod.splits sum.splits)

text \<open>
  C17: A secret proxy and its visitor find each other. When the server has registered an STCP proxy from one
  client's message, the message that a visitor builds from the same name and secret makes the server ask exactly
  that client for one work connection, for that proxy, if the clocks are within 300 seconds; and the message that
  opens the connection names a proxy the client has in its table.
\<close>

theorem stcp_end_to_end:
  assumes "register_proxy pf os run_id (new_proxy_of pc (effective_multiplexer config pc)) tx pm = (Inr a, pm')"
    "pc_proxy_type pc = Stcp" "vc_server_name v = pc_name pc" "vc_sk v = pc_sk pc"
    "\<bar>sint (now - ts)\<bar> \<le> 300"
  shows "snd (handle_stcp_visitor_conn pf now ans start (stcp_visitor_of pf v ts) peer (sr\<lparr>sr_pm := pm'\<rparr>)) =
      [(tx, pc_name pc)] \<and>
    client_get_proxy (pc_name pc) (client_register_proxy clock (effective_proxy config pc) m) \<noteq> None"
proof -
  have "sint (i64_abs (now - ts)) \<le> 300" using assms(5) by (simp add: sint_i64_abs)
  with register_stcp_info [OF assms(1,2)] assms(3,4) show ?thesis
    by (auto simp: handle_stcp_visitor_conn_def stcp_visitor_of_def verify_iff client_get_proxy_def
        client_register_proxy_def effective_proxy_def split: sum.splits)
qed

definition demo_secret :: "proxy_type \<Rightarrow> string \<Rightarrow> proxy_config" where
  "demo_secret ty sk = (demo_proxy_config ''db'')\<lparr>pc_proxy_type := ty, pc_sk := sk\<rparr>"

definition demo_visitor :: visitor_config where
  "demo_visitor = \<lparr>vc_name = ''v'', vc_visitor_type = ''stcp'', vc_server_name = ''db'', vc_sk = ''k'', vc_bind_addr = [],
     vc_bind_port = 6000, vc_fallback_to_relay = False, vc_xtcp_punch_timeout_secs = 0\<rparr>"

lemma demo_secret_registered:
  "\<exists>a pm'. register_proxy demo_platform demo_os_free ''r'' (new_proxy_of (demo_secret Stcp ''k'') mx) 5 demo_manager = (Inr a, pm')"
  "\<exists>a pm'. register_proxy demo_platform demo_os_free ''r'' (new_proxy_of (demo_secret Xtcp ''k'') mx) 5 demo_manager = (Inr a, pm')"
proof -
  have "trim ''k'' = ''k''" by code_simp
  then show
    "\<exists>a pm'. register_proxy demo_platform demo_os_free ''r'' (new_proxy_of (demo_secret Stcp ''k'') mx) 5 demo_manager = (Inr a, pm')"
    "\<exists>a pm'. register_proxy demo_platform demo_os_free ''r'' (new_proxy_of (demo_secret Xtcp ''k'') mx) 5 demo_manager = (Inr a, pm')"
    by (simp_all add: register_proxy_def register_stcp_def register_xtcp_def demo_secret_def demo_proxy_config_def
        demo_manager_def manager_new_def Let_def)
qed

theorem stcp_end_to_end_witness:
  "snd (handle_stcp_visitor_conn demo_platform 100 (Granted 1) (\<lambda>_ _. Inr ()) (stcp_visitor_of demo_platform demo_visitor 90)
     ''peer'' (demo_sr0\<lparr>sr_pm := snd (register_proxy demo_platform demo_os_free ''r''
        (new_proxy_of (demo_secret Stcp ''k'') (effective_multiplexer demo_client_config (demo_secret Stcp ''k''))) 5
        demo_manager)\<rparr>)) = [(5, ''db'')]"
proof -
  obtain a pm' where reg: "register_proxy demo_platform demo_os_free ''r''
      (new_proxy_of (demo_secret Stcp ''k'') (effective_multiplexer demo_client_config (demo_secret Stcp ''k''))) 5 demo_manager
      = (Inr a, pm')"
    using demo_secret_registered(1) by blast
  have "pc_proxy_type (demo_secret Stcp ''k'') = Stcp" "vc_server_name demo_visitor = pc_name (demo_secret Stcp ''k'')"
    "vc_sk demo_visitor = pc_sk (demo_secret Stcp ''k'')" "\<bar>sint (100 - 90 :: i64)\<bar> \<le> 300"
    by (simp_all add: demo_secret_def demo_visitor_def demo_proxy_config_def)
  from stcp_end_to_end [OF reg this, where ans = "Granted 1" and start = "\<lambda>_ _. Inr ()" and peer = "''peer''" and sr = demo_sr0]
  show ?thesis unfolding reg by (simp add: demo_secret_def demo_proxy_config_def)
qed

lemma set_trim: "set (trim s) \<subseteq> set s"
proof -
  have "set (trim_by ws t) \<subseteq> set t" for ws t
    using suffix_trim_by [of ws t] by (rule set_mono_suffix)
  then have "set (trim_end t) \<subseteq> set t" "set (trim_start t) \<subseteq> set t" for t
    by (simp_all add: trim_start_def trim_end_def) (metis set_rev)
  then show ?thesis unfolding trim_def by blast
qed



subsection \<open>Requests the client does not answer\<close>

text \<open>
  C14: A request for a work connection that the client skips costs the session all later ones. If the server asks
  for a proxy that the client does not have or holds for unhealthy, the client opens nothing and sends nothing;
  and if from then on requests for other proxies come one at a time and the client answers each of them in time
  with a connection, none of them is served.
\<close>

theorem skipped_request_starves:
  assumes "wq_proxy_name req \<noteq> []" "\<not> is_proxy_available (wq_proxy_name req) (cn_proxies cc)"
    and "ct_idle c = []" "ct_pending c = []" "distinct (wq_reply_tx req # map (wq_reply_tx \<circ> fst) rs)"
  shows "fst (snd (handle_server_message tn (ReqWorkConn \<lparr>rq_proxy_name = wq_proxy_name req\<rparr>) cc)) = [] \<and>
    (\<forall>r x. Delivered r x \<notin> set (fst (queue_run (Request (\<lambda>_. True) (\<lambda>_. Inr ()) req # rounds rs) c)))"
proof -
  define c1 where "c1 = c\<lparr>ct_pending := [req]\<rparr>"
  have q: "queue_step (Request (\<lambda>_. True) (\<lambda>_. Inr ()) req) c =
      ([Sent (ReqWorkConn \<lparr>rq_proxy_name = wq_proxy_name req\<rparr>)], c1)"
    using assms(3,4) by (simp add: handle_work_conn_request_def c1_def)
  have "ct_idle c1 = []" "map wq_reply_tx (ct_pending c1) = [wq_reply_tx req]"
    using assms(3) by (simp_all add: c1_def)
  from stale_queue_starves [OF this(1) assms(5) this(2)] q assms(1,2) show ?thesis
    by (auto simp: handle_req_work_conn_def split: prod.splits)
qed

theorem skipped_request_starves_witness:
  "fst (snd (handle_server_message (demo_turn 0) (ReqWorkConn \<lparr>rq_proxy_name = ''x''\<rparr>) demo_client_control)) = [] \<and>
   Delivered 8 1 \<notin> set (fst (queue_run
     (Request (\<lambda>_. True) (\<lambda>_. Inr ()) \<lparr>wq_proxy_name = ''x'', wq_reply_tx = 7\<rparr>
      # rounds [(\<lparr>wq_proxy_name = ''web'', wq_reply_tx = 8\<rparr>, 1)]) demo_control))"
proof -
  have "wq_proxy_name \<lparr>wq_proxy_name = ''x'', wq_reply_tx = 7\<rparr> \<noteq> []"
    "\<not> is_proxy_available (wq_proxy_name \<lparr>wq_proxy_name = ''x'', wq_reply_tx = 7\<rparr>) (cn_proxies demo_client_control)"
    "ct_idle demo_control = []" "ct_pending demo_control = []"
    "distinct (wq_reply_tx \<lparr>wq_proxy_name = ''x'', wq_reply_tx = 7\<rparr>
       # map (wq_reply_tx \<circ> fst) [(\<lparr>wq_proxy_name = ''web'', wq_reply_tx = 8\<rparr>, 1::conn)])"
    by (simp_all add: is_proxy_available_def demo_client_control_def demo_control_def control_new_def)
  from skipped_request_starves [OF this] show ?thesis by (simp only: work_conn_request.select_convs) blast
qed

text \<open>
  C15: The relay of an XTCP proxy is never served. The server registers it as a TCP proxy under the proxy's name
  with the suffix \<^verbatim>\<open>__relay\<close> and asks for its work connections under that name, which no client that registered its
  proxies has in its table (unless it configured a proxy of that very name): the client skips the request, and a
  pooled work connection handed to the relay ends with an error.
\<close>

theorem relay_never_served:
  assumes "register_proxy pf os run_id (new_proxy_of pc (effective_multiplexer config pc)) tx pm = (Inr a, pm')"
    "pc_proxy_type pc = Xtcp" "pc_fallback_to_relay pc"
    "m = snd (register_proxies config answers pcs Map.empty)" "pc_name pc @ ''__relay'' \<notin> pc_name ` set pcs"
  shows "\<exists>p. pm_proxies pm' (proxy_key run_id (pc_name pc)) = Some (PXtcp (pc_name pc) (Some p)) \<and>
    tp_name p = pc_name pc @ ''__relay'' \<and>
    handle_req_work_conn \<lparr>rq_proxy_name = tp_name p\<rparr> (cc\<lparr>cn_proxies := m\<rparr>) = [] \<and>
    client_get_proxy (tp_name p) m = None"
proof -
  have "\<exists>p. proxy_for (new_proxy_of pc (effective_multiplexer config pc)) (proxy_key run_id (pc_name pc)) p \<and>
      pm_proxies pm' (proxy_key run_id (pc_name pc)) = Some p"
    using register_proxy_for [OF assms(1)] by auto
  then obtain p where p: "pm_proxies pm' (proxy_key run_id (pc_name pc)) = Some (PXtcp (pc_name pc) (Some p))"
      "tp_name p = pc_name pc @ ''__relay''"
    using assms(2,3) by (auto elim!: proxy_for.elims split: option.splits)
  have dom: "dom (snd (register_proxies config answers ps m0)) \<subseteq> dom m0 \<union> pc_name ` set ps" for ps m0
  proof (induction config answers ps m0 rule: register_proxies.induct)
    case (2 config answers pc pcs m)
    then show ?case
      by (fastforce simp: client_register_proxy_def effective_proxy_def Let_def split: prod.splits sum.splits)
  qed simp
  from dom [of pcs Map.empty] assms(4,5) have "m (pc_name pc @ ''__relay'') = None" by (auto simp: domIff)
  with p show ?thesis
    by (auto simp: handle_req_work_conn_def is_proxy_available_def client_get_proxy_def)
qed

definition demo_relayed :: proxy_config where
  "demo_relayed = (demo_secret Xtcp ''k'')\<lparr>pc_remote_port := 16000, pc_fallback_to_relay := True\<rparr>"

theorem relay_never_served_witness:
  "\<exists>p. pm_proxies (snd (register_proxy demo_platform demo_os_free ''r'' (new_proxy_of demo_relayed []) 5 demo_manager))
      (proxy_key ''r'' ''db'') = Some (PXtcp ''db'' (Some p)) \<and> tp_name p = ''db__relay''"
proof -
  have mx: "effective_multiplexer demo_client_config demo_relayed = []"
    by (simp add: effective_multiplexer_def demo_relayed_def demo_secret_def demo_proxy_config_def)
  have t: "trim ''k'' = ''k''" by code_simp
  have "\<exists>a pm'. register_proxy demo_platform demo_os_free ''r'' (new_proxy_of demo_relayed []) 5 demo_manager = (Inr a, pm')"
    by (simp add: register_proxy_def register_xtcp_def demo_relayed_def demo_secret_def demo_proxy_config_def t
        new_proxy_of_def demo_os_free_def demo_manager_def manager_new_def resource_new_def demo_server_config_def
        tcp_proxy_new_def allocate_port_def allocate_tcp_port_def is_port_allowed_def Let_def)
  then obtain a pm' where reg: "register_proxy demo_platform demo_os_free ''r''
      (new_proxy_of demo_relayed (effective_multiplexer demo_client_config demo_relayed)) 5 demo_manager = (Inr a, pm')"
    unfolding mx by blast
  have "pc_proxy_type demo_relayed = Xtcp" "pc_fallback_to_relay demo_relayed" "pc_name demo_relayed = ''db''"
    "pc_name demo_relayed @ ''__relay'' \<notin> pc_name ` set [demo_relayed]"
    by (simp_all add: demo_relayed_def demo_secret_def demo_proxy_config_def)
  from relay_never_served [OF reg this(1,2) refl this(4)] this(3) show ?thesis
    unfolding reg [unfolded mx] by auto
qed

end
