(* ===== verification/Streams.thy ===== *)
theory Streams
  imports MessageCodec
begin

text \<open>
  The byte streams below the messages, all in \<^verbatim>\<open>arp-common/src/transport\<close>: \<^verbatim>\<open>prefixed.rs\<close> puts bytes
  that were read ahead back in front of a stream, \<^verbatim>\<open>quic_stream.rs\<close> and \<^verbatim>\<open>ws_stream.rs\<close> turn a pair of QUIC
  streams and a WebSocket into one stream, \<^verbatim>\<open>throttle.rs\<close> counts bytes against a rate, and \<^verbatim>\<open>mod.rs\<close> gives a
  message transport back as a stream, with or without what it has read ahead. The interface that readers of a stream
  rely on, \<^verbatim>\<open>tokio::io::AsyncRead\<close>, is the locale \<open>async_read\<close>: a stream has a content, and reading takes it off at
  the front, piece by piece.
\<close>

subsection \<open>Reading\<close>

datatype 'a poll = Pending | Ready 'a

record read_buf =
  rb_filled :: bytes
  rb_capacity :: nat

definition remaining :: "read_buf \<Rightarrow> nat" where
  "remaining b = rb_capacity b - length (rb_filled b)"

definition put_slice :: "bytes \<Rightarrow> read_buf \<Rightarrow> read_buf" where
  "put_slice data b = b\<lparr>rb_filled := rb_filled b @ data\<rparr>"

type_synonym 's read_step = "'s \<Rightarrow> read_buf \<Rightarrow> (io_error + unit) poll \<times> read_buf \<times> 's"

text \<open>One poll for each capacity, every time with a fresh buffer; the bytes of all of them.\<close>

fun read_with :: "'s read_step \<Rightarrow> nat list \<Rightarrow> 's \<Rightarrow> bytes \<times> 's" where
  "read_with poll [] s = ([], s)"
| "read_with poll (n # ns) s =
     (case poll s \<lparr>rb_filled = [], rb_capacity = n\<rparr> of
        (_, b, s) \<Rightarrow> (case read_with poll ns s of (data, s) \<Rightarrow> (rb_filled b @ data, s)))"

locale async_read =
  fixes poll_read :: "'s \<Rightarrow> read_buf \<Rightarrow> (io_error + unit) poll \<times> read_buf \<times> 's"
    and content :: "'s \<Rightarrow> bytes"
  assumes read_ready: "poll_read s b = (Ready (Inr ()), b', s') \<Longrightarrow>
      \<exists>data. b' = put_slice data b \<and> length data \<le> remaining b \<and> content s = data @ content s' \<and>
        (data = [] \<longrightarrow> remaining b = 0 \<or> content s = [])"
    and read_other: "poll_read s b = (r, b', s') \<Longrightarrow> r \<noteq> Ready (Inr ()) \<Longrightarrow> b' = b \<and> content s' = content s"
begin

lemma read_takes_front:
  assumes "poll_read s b = (r, b', s')"
  shows "\<exists>data. b' = put_slice data b \<and> length data \<le> remaining b \<and> content s = data @ content s'"
proof (cases "r = Ready (Inr ())")
  case True
  with assms read_ready show ?thesis by blast
next
  case False
  with read_other [OF assms] show ?thesis by (intro exI [of _ "[]"]) (simp add: put_slice_def)
qed

lemma read_with_content:
  "read_with poll_read ns s = (data, s') \<Longrightarrow> content s = data @ content s'"
proof (induction ns arbitrary: s data)
  case (Cons n ns)
  obtain r b s1 where p: "poll_read s \<lparr>rb_filled = [], rb_capacity = n\<rparr> = (r, b, s1)" by (metis prod_cases3)
  obtain d s2 where w: "read_with poll_read ns s1 = (d, s2)" by (metis surj_pair)
  from Cons.prems p w have e: "data = rb_filled b @ d" "s' = s2" by simp_all
  from read_takes_front [OF p] Cons.IH [of s1 d] w e show ?case by (auto simp: put_slice_def)
qed simp

text \<open>A reader sees the end only when the content is used up.\<close>

lemma read_end:
  "poll_read s \<lparr>rb_filled = [], rb_capacity = n\<rparr> = (Ready (Inr ()), b, s') \<Longrightarrow> n > 0 \<Longrightarrow> rb_filled b = [] \<Longrightarrow>
   content s = []"
  using read_ready by (fastforce simp: put_slice_def remaining_def)

end

text \<open>A connection, by what its reads find: a piece, or nothing yet, and the end after the last one.\<close>

fun conn_poll_read :: "bytes list read_step" where
  "conn_poll_read [] b = (Ready (Inr ()), b, [])"
| "conn_poll_read (chunk # chunks) b =
     (if remaining b = 0 then (Ready (Inr ()), b, chunk # chunks)
      else if chunk = [] then (Pending, b, chunks)
      else (Ready (Inr ()), put_slice (take (remaining b) chunk) b,
            if drop (remaining b) chunk = [] then chunks else drop (remaining b) chunk # chunks))"

interpretation conn: async_read conn_poll_read concat
proof
  fix s b b' s'
  assume "conn_poll_read s b = (Ready (Inr ()), b', s')"
  then show "\<exists>data. b' = put_slice data b \<and> length data \<le> remaining b \<and> concat s = data @ concat s' \<and>
      (data = [] \<longrightarrow> remaining b = 0 \<or> concat s = [])"
  proof (cases s)
    case Nil
    with \<open>conn_poll_read s b = _\<close> show ?thesis by (intro exI [of _ "[]"]) (simp add: put_slice_def)
  next
    case (Cons c cs)
    with \<open>conn_poll_read s b = _\<close> show ?thesis
      by (intro exI [of _ "take (remaining b) c"]) (auto simp: put_slice_def split: if_splits)
  qed
next
  fix s b r b' s'
  assume "conn_poll_read s b = (r, b', s')" "r \<noteq> Ready (Inr ())"
  then show "b' = b \<and> concat s' = concat s" by (cases s) (auto split: if_splits)
qed

subsection \<open>prefixed.rs\<close>

record 's prefixed_stream =
  ps_prefix :: bytes
  ps_position :: nat
  ps_inner :: 's

definition prefixed_new :: "bytes \<Rightarrow> 's \<Rightarrow> 's prefixed_stream" where
  "prefixed_new pre inner = \<lparr>ps_prefix = pre, ps_position = 0, ps_inner = inner\<rparr>"

definition prefixed_poll_read :: "'s read_step \<Rightarrow> 's prefixed_stream read_step" where
  "prefixed_poll_read inner_read s b =
     (let len = length (ps_prefix s); pos = ps_position s in
      if pos < len \<and> remaining b > 0 then
        let to_copy = min (len - pos) (remaining b);
            end = pos + to_copy
        in (Ready (Inr ()), put_slice (drop pos (take end (ps_prefix s))) b, s\<lparr>ps_position := end\<rparr>)
      else
        case inner_read (ps_inner s) b of (r, b, inner) \<Rightarrow> (r, b, s\<lparr>ps_inner := inner\<rparr>))"

text \<open>Writing, flushing and closing go to the stream itself.\<close>

definition prefixed_poll_write ::
  "(bytes \<Rightarrow> 's \<Rightarrow> 'r poll \<times> 's) \<Rightarrow> bytes \<Rightarrow> 's prefixed_stream \<Rightarrow> 'r poll \<times> 's prefixed_stream" where
  "prefixed_poll_write inner_write bs s =
     (case inner_write bs (ps_inner s) of (r, inner) \<Rightarrow> (r, s\<lparr>ps_inner := inner\<rparr>))"

definition prefixed_content :: "('s \<Rightarrow> bytes) \<Rightarrow> 's prefixed_stream \<Rightarrow> bytes" where
  "prefixed_content content s = drop (ps_position s) (ps_prefix s) @ content (ps_inner s)"

lemma prefixed_copy:
  "pos < length p \<Longrightarrow> drop pos p = drop pos (take (pos + n) p) @ drop (pos + n) p"
  by (metis append_take_drop_id drop_drop drop_take add.commute add_diff_cancel_left')

context async_read
begin

text \<open>A stream with bytes put back is again a stream that can be read.\<close>

lemma prefixed_async_read: "async_read (prefixed_poll_read poll_read) (prefixed_content content)"
proof
  fix s b b' s'
  assume p: "prefixed_poll_read poll_read s b = (Ready (Inr ()), b', s')"
  show "\<exists>data. b' = put_slice data b \<and> length data \<le> remaining b \<and>
      prefixed_content content s = data @ prefixed_content content s' \<and>
      (data = [] \<longrightarrow> remaining b = 0 \<or> prefixed_content content s = [])"
  proof (cases "ps_position s < length (ps_prefix s) \<and> remaining b > 0")
    case True
    define n where "n = min (length (ps_prefix s) - ps_position s) (remaining b)"
    define data where "data = drop (ps_position s) (take (ps_position s + n) (ps_prefix s))"
    from True have l: "length data = n" "n > 0" "n \<le> remaining b" by (simp_all add: data_def n_def)
    from p True have b: "b' = put_slice data b" "s' = s\<lparr>ps_position := ps_position s + n\<rparr>"
      by (simp_all add: prefixed_poll_read_def Let_def data_def n_def)
    have "prefixed_content content s = data @ prefixed_content content s'"
      using True by (simp add: prefixed_content_def b(2) data_def flip: prefixed_copy)
    with l b(1) show ?thesis by fastforce
  next
    case False
    with p obtain inner where i: "poll_read (ps_inner s) b = (Ready (Inr ()), b', inner)" "s' = s\<lparr>ps_inner := inner\<rparr>"
      by (auto simp: prefixed_poll_read_def Let_def split: prod.splits)
    from False have "remaining b = 0 \<or> drop (ps_position s) (ps_prefix s) = []" by auto
    with read_ready [OF i(1)] i(2) show ?thesis by (auto simp: prefixed_content_def)
  qed
next
  fix s b r b' s'
  assume "prefixed_poll_read poll_read s b = (r, b', s')" "r \<noteq> Ready (Inr ())"
  then show "b' = b \<and> prefixed_content content s' = prefixed_content content s"
    by (auto simp: prefixed_poll_read_def prefixed_content_def Let_def split: if_splits prod.splits dest!: read_other)
qed

end

interpretation prefixed: async_read "prefixed_poll_read conn_poll_read" "prefixed_content concat"
  by (rule conn.prefixed_async_read)

subsection \<open>mod.rs: a message transport, and the stream below it\<close>

text \<open>
  \<^verbatim>\<open>Framed\<close> calls the decoder on what it has read, and reads on when the decoder asks for more. At the end of the
  stream bytes that are no message are an error.
\<close>

record framed =
  fd_buf :: bytes
  fd_io :: "bytes list"

definition remaining_error :: io_error where
  "remaining_error = \<lparr>io_kind = OtherKind, io_os = None, io_msg = ''bytes remaining on stream''\<rparr>"

fun framed_read :: "serde \<Rightarrow> bytes \<Rightarrow> bytes list \<Rightarrow> message result option \<times> framed" where
  "framed_read sd buf [] =
     (case decode sd buf of
        (Inl e, buf) \<Rightarrow> (Some (Inl e), \<lparr>fd_buf = buf, fd_io = []\<rparr>)
      | (Inr (Some m), buf) \<Rightarrow> (Some (Inr m), \<lparr>fd_buf = buf, fd_io = []\<rparr>)
      | (Inr None, buf) \<Rightarrow>
          (if buf = [] then None else Some (Inl (Io remaining_error)), \<lparr>fd_buf = buf, fd_io = []\<rparr>))"
| "framed_read sd buf (chunk # chunks) =
     (case decode sd buf of
        (Inl e, buf) \<Rightarrow> (Some (Inl e), \<lparr>fd_buf = buf, fd_io = chunk # chunks\<rparr>)
      | (Inr (Some m), buf) \<Rightarrow> (Some (Inr m), \<lparr>fd_buf = buf, fd_io = chunk # chunks\<rparr>)
      | (Inr None, buf) \<Rightarrow> framed_read sd (buf @ chunk) chunks)"

definition framed_next :: "serde \<Rightarrow> framed \<Rightarrow> message result option \<times> framed" where
  "framed_next sd fr = framed_read sd (fd_buf fr) (fd_io fr)"

definition from_stream :: "bytes list \<Rightarrow> framed" where
  "from_stream io = \<lparr>fd_buf = [], fd_io = io\<rparr>"

definition into_inner :: "framed \<Rightarrow> bytes list" where
  "into_inner fr = fd_io fr"

definition into_inner_with_read_buf :: "framed \<Rightarrow> bytes list \<times> bytes" where
  "into_inner_with_read_buf fr = (fd_io fr, fd_buf fr)"

datatype boxed_stream = Plain "bytes list" | Prefixed "bytes list prefixed_stream"

text \<open>How the ends of a tunnel take over a work connection, and the server that of a visitor.\<close>

definition work_stream :: "framed \<Rightarrow> boxed_stream" where
  "work_stream fr =
     (case into_inner_with_read_buf fr of
        (io, pre_read) \<Rightarrow> if pre_read = [] then Plain io else Prefixed (prefixed_new pre_read io))"

definition visitor_stream :: "framed \<Rightarrow> boxed_stream" where
  "visitor_stream fr = Plain (into_inner fr)"

fun boxed_poll_read :: "boxed_stream read_step" where
  "boxed_poll_read (Plain io) b = (case conn_poll_read io b of (r, b, io) \<Rightarrow> (r, b, Plain io))"
| "boxed_poll_read (Prefixed s) b =
     (case prefixed_poll_read conn_poll_read s b of (r, b, s) \<Rightarrow> (r, b, Prefixed s))"

fun boxed_content :: "boxed_stream \<Rightarrow> bytes" where
  "boxed_content (Plain io) = concat io"
| "boxed_content (Prefixed s) = prefixed_content concat s"

interpretation boxed: async_read boxed_poll_read boxed_content
proof
  fix s b b' s'
  assume "boxed_poll_read s b = (Ready (Inr ()), b', s')"
  then show "\<exists>data. b' = put_slice data b \<and> length data \<le> remaining b \<and> boxed_content s = data @ boxed_content s' \<and>
      (data = [] \<longrightarrow> remaining b = 0 \<or> boxed_content s = [])"
  proof (cases s)
    case (Plain io)
    with \<open>boxed_poll_read s b = _\<close> obtain io' where "conn_poll_read io b = (Ready (Inr ()), b', io')" "s' = Plain io'"
      by (auto split: prod.splits)
    with conn.read_ready [OF this(1)] Plain show ?thesis by simp
  next
    case (Prefixed ps)
    with \<open>boxed_poll_read s b = _\<close> obtain ps' where
      "prefixed_poll_read conn_poll_read ps b = (Ready (Inr ()), b', ps')" "s' = Prefixed ps'"
      by (auto split: prod.splits)
    with prefixed.read_ready [OF this(1)] Prefixed show ?thesis by simp
  qed
next
  fix s b r b' s'
  assume "boxed_poll_read s b = (r, b', s')" "r \<noteq> Ready (Inr ())"
  then show "b' = b \<and> boxed_content s' = boxed_content s"
    by (cases s) (auto split: prod.splits dest: conn.read_other prefixed.read_other)
qed

lemma boxed_content_work_stream: "boxed_content (work_stream fr) = fd_buf fr @ concat (fd_io fr)"
  by (simp add: work_stream_def into_inner_with_read_buf_def prefixed_new_def prefixed_content_def)

lemma sendable_wire:
  assumes "sendable sd m"
  obtains j where "length j \<le> max_message_size" "sd_de sd j = Inr m" "wire sd m = type_byte m # to_be 8 (length j) @ j"
  using assms by (auto simp: sendable_def wire_def encode_ok split: sum.splits)

lemma decode_wire:
  assumes "sendable sd m"
  shows "decode sd (wire sd m @ rest) = (Inr (Some m), rest)"
proof -
  from assms obtain j where "length j \<le> max_message_size" "sd_de sd j = Inr m"
    and w: "wire sd m = type_byte m # to_be 8 (length j) @ j" by (rule sendable_wire)
  then show ?thesis using decode_header [OF refl, of j sd "type_byte m" rest] by (simp only: w sum.case)
qed

lemma decode_wire_partial:
  assumes "sendable sd m" "strict_prefix p (wire sd m)"
  shows "decode sd p = (Inr None, p)"
proof -
  from assms(1) obtain j where j: "length j \<le> max_message_size" "sd_de sd j = Inr m"
    and w: "wire sd m = type_byte m # to_be 8 (length j) @ j" by (rule sendable_wire)
  show ?thesis by (rule decode_partial [OF refl j(1)]) (use assms(2) w in simp)
qed

lemma decode_nothing: "decode sd [] = (Inr None, [])"
  by (simp add: decode_def)

lemma framed_read_wire:
  assumes "sendable sd m" "buf @ concat chunks = wire sd m @ data"
  shows "\<exists>ahead io. framed_read sd buf chunks = (Some (Inr m), \<lparr>fd_buf = ahead, fd_io = io\<rparr>) \<and> data = ahead @ concat io"
  using assms(2)
proof (induction chunks arbitrary: buf)
  case Nil
  then show ?case by (auto simp: decode_wire [OF assms(1)])
next
  case (Cons c cs)
  show ?case
  proof (cases "prefix (wire sd m) buf")
    case True
    then obtain ahead where "buf = wire sd m @ ahead" by (auto simp: prefix_def)
    with Cons.prems show ?thesis by (auto simp: decode_wire [OF assms(1)])
  next
    case False
    with Cons.prems have "strict_prefix buf (wire sd m)"
      by (metis prefixI prefix_same_cases strict_prefixI)
    then have "framed_read sd buf (c # cs) = framed_read sd (buf @ c) cs"
      by (simp add: decode_wire_partial [OF assms(1)])
    with Cons.IH [of "buf @ c"] Cons.prems show ?thesis by simp
  qed
qed



subsection \<open>quic\_stream.rs\<close>

text \<open>
  A QUIC connection is read from its receiving and written to its sending half; \<open>other\<close> is
  \<^verbatim>\<open>std::io::Error::other\<close> on the errors of the sending half.
\<close>

record ('r, 'w) quic_stream =
  qs_recv :: 'r
  qs_send :: 'w

definition quic_poll_read :: "'r read_step \<Rightarrow> ('r, 'w) quic_stream read_step" where
  "quic_poll_read recv_read s b =
     (case recv_read (qs_recv s) b of (r, b, recv) \<Rightarrow> (r, b, s\<lparr>qs_recv := recv\<rparr>))"

definition quic_poll_write ::
  "('e \<Rightarrow> io_error) \<Rightarrow> ('w \<Rightarrow> ('e + 'a) poll \<times> 'w) \<Rightarrow> ('r, 'w) quic_stream \<Rightarrow> (io_error + 'a) poll \<times> ('r, 'w) quic_stream"
  where
  "quic_poll_write other send_poll s =
     (case send_poll (qs_send s) of
        (Ready (Inr n), send) \<Rightarrow> (Ready (Inr n), s\<lparr>qs_send := send\<rparr>)
      | (Ready (Inl e), send) \<Rightarrow> (Ready (Inl (other e)), s\<lparr>qs_send := send\<rparr>)
      | (Pending, send) \<Rightarrow> (Pending, s\<lparr>qs_send := send\<rparr>))"

context async_read
begin

lemma quic_async_read: "async_read (quic_poll_read poll_read) (content \<circ> qs_recv)"
proof
  fix s b b' s'
  assume "quic_poll_read poll_read s b = (Ready (Inr ()), b', s')"
  then obtain recv where "poll_read (qs_recv s) b = (Ready (Inr ()), b', recv)" "s' = s\<lparr>qs_recv := recv\<rparr>"
    by (auto simp: quic_poll_read_def split: prod.splits)
  with read_ready [OF this(1)] show "\<exists>data. b' = put_slice data b \<and> length data \<le> remaining b \<and>
      (content \<circ> qs_recv) s = data @ (content \<circ> qs_recv) s' \<and> (data = [] \<longrightarrow> remaining b = 0 \<or> (content \<circ> qs_recv) s = [])"
    by simp
next
  fix s b r b' s'
  assume "quic_poll_read poll_read s b = (r, b', s')" "r \<noteq> Ready (Inr ())"
  then show "b' = b \<and> (content \<circ> qs_recv) s' = (content \<circ> qs_recv) s"
    by (auto simp: quic_poll_read_def split: prod.splits dest: read_other)
qed

end

interpretation quic: async_read "quic_poll_read conn_poll_read" "concat \<circ> qs_recv"
  by (rule conn.quic_async_read)

subsection \<open>ws\_stream.rs\<close>

datatype ws_message = WsBinary bytes | WsText string | WsPing bytes | WsPong bytes | WsClose | WsFrame

text \<open>
  From the stream to the WebSocket: what each read of at most 16 KiB finds, and whether the frame could be sent.
  The result is what is sent.
\<close>

fun stream_to_ws :: "((io_error + bytes) \<times> bool) list \<Rightarrow> ws_message list" where
  "stream_to_ws [] = []"
| "stream_to_ws ((Inr data, sent) # turns) =
     (if data = [] then [WsClose]
      else if sent then WsBinary data # stream_to_ws turns
      else [])"
| "stream_to_ws ((Inl e, sent) # turns) = [WsClose]"

text \<open>From the WebSocket to the stream, until an error or the end; then the stream is closed.\<close>

fun ws_to_stream :: "(string + ws_message) list \<Rightarrow> sink \<Rightarrow> sink" where
  "ws_to_stream [] w = w"
| "ws_to_stream (Inl e # frames) w = w"
| "ws_to_stream (Inr (WsBinary data) # frames) w =
     (case write_all data w of (Inl _, w) \<Rightarrow> w | (Inr _, w) \<Rightarrow> ws_to_stream frames w)"
| "ws_to_stream (Inr (WsText txt) # frames) w =
     (case write_all (as_bytes txt) w of (Inl _, w) \<Rightarrow> w | (Inr _, w) \<Rightarrow> ws_to_stream frames w)"
| "ws_to_stream (Inr (WsPing _) # frames) w = ws_to_stream frames w"
| "ws_to_stream (Inr (WsPong _) # frames) w = ws_to_stream frames w"
| "ws_to_stream (Inr WsClose # frames) w = w"
| "ws_to_stream (Inr WsFrame # frames) w = ws_to_stream frames w"

fun is_control :: "ws_message \<Rightarrow> bool" where
  "is_control (WsPing _) = True"
| "is_control (WsPong _) = True"
| "is_control _ = False"

lemma ws_to_stream_control:
  "ws_to_stream (map Inr (filter (\<lambda>m. \<not> is_control m) frames)) w = ws_to_stream (map Inr frames) w"
proof (induction frames arbitrary: w)
  case (Cons m frames)
  then show ?case by (cases m) (simp_all split: prod.splits sum.splits)
qed simp

lemma ws_to_stream_binary:
  "sk_room w = None \<Longrightarrow> ws_to_stream (map Inr (map WsBinary pieces @ rest)) w =
     ws_to_stream (map Inr rest) (w\<lparr>sk_data := sk_data w @ concat pieces\<rparr>)"
  by (induction pieces arbitrary: w) (simp_all add: write_all_def)

lemma stream_to_ws_pieces:
  "[] \<notin> set pieces \<Longrightarrow> stream_to_ws (map (\<lambda>p. (Inr p, True)) pieces @ (r, ok) # turns) =
     map WsBinary pieces @ stream_to_ws ((r, ok) # turns)"
  by (induction pieces) auto

text \<open>
  A WebSocket carries the stream. Whatever pieces one end reads until its stream ends or fails, and whatever
  pings and pongs come in between, the other end writes exactly these bytes, in order, and nothing that comes after
  the closing frame.
\<close>

theorem websocket_carries_stream:
  assumes "[] \<notin> set pieces" "r = Inr [] \<or> (\<exists>e. r = Inl e)" "sk_room w = None"
    and "filter (\<lambda>m. \<not> is_control m) frames = stream_to_ws (map (\<lambda>p. (Inr p, True)) pieces @ (r, ok) # turns) @ late"
  shows "ws_to_stream (map Inr frames) w = w\<lparr>sk_data := sk_data w @ concat pieces\<rparr>"
proof -
  from assms(2) have "stream_to_ws ((r, ok) # turns) = [WsClose]" by auto
  with assms(1,4) have f: "filter (\<lambda>m. \<not> is_control m) frames = map WsBinary pieces @ WsClose # late"
    by (simp add: stream_to_ws_pieces)
  have "ws_to_stream (map Inr frames) w = ws_to_stream (map Inr (map WsBinary pieces @ WsClose # late)) w"
    using ws_to_stream_control [of frames w] by (simp only: f)
  with assms(3) show ?thesis by (simp only: ws_to_stream_binary) simp
qed

theorem websocket_carries_stream_witness:
  "ws_to_stream (map Inr [WsBinary [1, 2], WsPing [9], WsBinary [3], WsClose, WsBinary [4]])
     \<lparr>sk_data = [0], sk_room = None, sk_err = eof_error, sk_flush = None\<rparr> =
   \<lparr>sk_data = [0, 1, 2, 3], sk_room = None, sk_err = eof_error, sk_flush = None\<rparr>"
  using websocket_carries_stream [of "[[1, 2], [3]]" "Inr []"
      "\<lparr>sk_data = [0], sk_room = None, sk_err = eof_error, sk_flush = None\<rparr>"
      "[WsBinary [1, 2], WsPing [9], WsBinary [3], WsClose, WsBinary [4]]" True "[]" "[WsBinary [4]]"]
  by simp

subsection \<open>throttle.rs\<close>

text \<open>
  A token bucket. It starts with \<open>bytes_per_sec\<close> tokens, ten times a second \<open>refill\<close> adds to the \<open>current\<close> ones, and
  \<open>consume\<close> takes tokens in portions; the result is the sizes of the portions it waits for. Nobody closes the
  semaphore.
\<close>

definition refill_amount :: "u64 \<Rightarrow> nat" where
  "refill_amount bytes_per_sec = unat (max (bytes_per_sec div 10) 1)"

definition refill :: "u64 \<Rightarrow> nat \<Rightarrow> nat" where
  "refill bytes_per_sec current = current + min (refill_amount bytes_per_sec) (unat bytes_per_sec - current)"

partial_function (option) consume :: "u64 \<Rightarrow> u64 \<Rightarrow> u32 list option" where
  "consume bytes_per_sec left =
     (if left > 0 then
        let portion = min left bytes_per_sec
        in Option.bind (consume bytes_per_sec (left - portion)) (\<lambda>ps. Some (ucast portion # ps))
      else Some [])"

text \<open>A read goes through at once; the bytes it brought are consumed by a task of their own.\<close>

definition throttled_poll_read :: "'s read_step \<Rightarrow> 's \<Rightarrow> read_buf \<Rightarrow> ((io_error + unit) poll \<times> read_buf \<times> 's) \<times> nat option" where
  "throttled_poll_read inner_read s b =
     (let before = length (rb_filled b);
          result = inner_read s b;
          n = length (rb_filled (fst (snd result))) - before
      in (result, if fst result = Ready (Inr ()) \<and> n > 0 then Some n else None))"

lemma consume_forever:
  assumes "consume bps n = Some ps"
  shows "bps = 0 \<longrightarrow> n = 0"
  by (rule consume.raw_induct [where P = "\<lambda>bps n _. bps = 0 \<longrightarrow> n = 0", OF _ assms])
    (auto simp: Let_def word_gt_0 split: if_splits bind_splits)

lemma consume_portions:
  assumes "0 < bps" "bps < 2 ^ 32"
  shows "\<exists>ps. consume bps n = Some ps \<and> sum_list (map unat ps) = unat n \<and>
    (\<forall>p \<in> set ps. 0 < p \<and> unat p \<le> unat bps)"
proof (induction "unat n" arbitrary: n rule: less_induct)
  case less
  show ?case
  proof (cases "n = 0")
    case True
    then show ?thesis by (subst consume.simps) simp
  next
    case False
    define portion where "portion = min n bps"
    have p: "0 < portion" "portion \<le> n" "portion \<le> bps"
      using False assms(1) by (auto simp: portion_def min_def word_neq_0_conv)
    have u: "unat (n - portion) = unat n - unat portion" using p(2) by (simp add: unat_sub)
    have "unat bps < 2 ^ 32" using assms(2) by (simp add: word_less_nat_alt)
    with p(3) have c: "unat (ucast portion :: u32) = unat portion"
      by (simp add: word_le_nat_alt unsigned_ucast_eq take_bit_nat_eq_self)
    from p u have "unat (n - portion) < unat n" by (simp add: word_less_nat_alt word_le_nat_alt)
    from less [OF this] obtain ps where "consume bps (n - portion) = Some ps"
      and ps: "sum_list (map unat ps) = unat n - unat portion" "\<forall>p \<in> set ps. 0 < p \<and> unat p \<le> unat bps"
      using u by auto
    then have "consume bps n = Some (ucast portion # ps)"
      using False by (subst consume.simps) (simp add: portion_def word_neq_0_conv)
    moreover have "0 < (ucast portion :: u32)" using p(1) c by (simp add: word_less_nat_alt)
    ultimately show ?thesis
      using ps p c by (auto simp: word_le_nat_alt)
  qed
qed

text \<open>
  The bucket never holds more than a second's worth, a refill adds something unless it is full, and a request is
  paid in full, in portions the bucket can hold, if the rate is between 1 and 2^32 - 1. With rate 0 a request never
  ends.
\<close>

lemma throttle_exact:
  assumes "current \<le> unat bps"
  shows "refill bps current \<le> unat bps" "current < unat bps \<Longrightarrow> current < refill bps current"
    "0 < bps \<Longrightarrow> bps < 2 ^ 32 \<Longrightarrow> \<exists>ps. consume bps n = Some ps \<and> sum_list (map unat ps) = unat n"
    "0 < n \<Longrightarrow> consume 0 n = None"
proof -
  have "refill_amount bps > 0"
    by (auto simp: refill_amount_def max_def word_less_nat_alt not_le)
  then show "current < unat bps \<Longrightarrow> current < refill bps current" by (simp add: refill_def)
  show "refill bps current \<le> unat bps" using assms by (simp add: refill_def)
  show "\<exists>ps. consume bps n = Some ps \<and> sum_list (map unat ps) = unat n" if "0 < bps" "bps < 2 ^ 32"
    using consume_portions [OF that] by blast
  show "0 < n \<Longrightarrow> consume 0 n = None" using consume_forever [of 0 n] by (cases "consume 0 n") auto
qed

end
