(* ===== verification/PublicListeners.thy ===== *)
theory PublicListeners
  imports Proxies Tunnels
begin

text \<open>
  The tasks on the server that accept public connections and what their end means for the tables: the listeners of
  the virtual hosts (\<^verbatim>\<open>arp-server/src/proxy/vhost.rs\<close>) and of a group of TCP proxies (\<^verbatim>\<open>tcp.rs\<close>), next to
  that of a single TCP proxy in \<open>Tunnels\<close>. Sockets are arguments.
\<close>

subsection \<open>Virtual hosts\<close>

text \<open>The loop over the outcomes of \<^verbatim>\<open>accept\<close>: the connections it has started a task for, and its error.\<close>

fun vhost_accept_loop :: "(io_error + conn \<times> string) list \<Rightarrow> (conn \<times> string) list \<times> error option" where
  "vhost_accept_loop [] = ([], None)"
| "vhost_accept_loop (Inr c # evs) = (case vhost_accept_loop evs of (cs, r) \<Rightarrow> (c # cs, r))"
| "vhost_accept_loop (Inl e # evs) = ([], Some (Io e))"

definition run_http_listener ::
  "(string \<Rightarrow> io_error option) \<Rightarrow> (io_error + conn \<times> string) list \<Rightarrow> vhost_manager \<Rightarrow> (conn \<times> string) list \<times> error option" where
  "run_http_listener bind evs vm =
     (case bind (vm_bind_addr vm @ '':'' @ show_nat (unat (vm_http_port vm))) of
        Some e \<Rightarrow> ([], Some (Io e))
      | None \<Rightarrow> vhost_accept_loop evs)"

definition run_https_listener ::
  "(string \<Rightarrow> io_error option) \<Rightarrow> (io_error + conn \<times> string) list \<Rightarrow> vhost_manager \<Rightarrow> (conn \<times> string) list \<times> error option" where
  "run_https_listener bind evs vm =
     (case bind (vm_bind_addr vm @ '':'' @ show_nat (unat (vm_https_port vm))) of
        Some e \<Rightarrow> ([], Some (Io e))
      | None \<Rightarrow> vhost_accept_loop evs)"

text \<open>The task that a registration spawns.\<close>

definition http_listener_task ::
  "(string \<Rightarrow> io_error option) \<Rightarrow> (io_error + conn \<times> string) list \<Rightarrow> vhost_manager \<Rightarrow> (conn \<times> string) list \<times> vhost_manager" where
  "http_listener_task bind evs vm =
     (case run_http_listener bind evs vm of
        (cs, None) \<Rightarrow> (cs, vm)
      | (cs, Some _) \<Rightarrow> (cs, http_listener_stopped vm))"

definition https_listener_task ::
  "(string \<Rightarrow> io_error option) \<Rightarrow> (io_error + conn \<times> string) list \<Rightarrow> vhost_manager \<Rightarrow> (conn \<times> string) list \<times> vhost_manager" where
  "https_listener_task bind evs vm =
     (case run_https_listener bind evs vm of
        (cs, None) \<Rightarrow> (cs, vm)
      | (cs, Some _) \<Rightarrow> (cs, https_listener_stopped vm))"

subsection \<open>Groups\<close>

text \<open>
  The loop of a group: what it does, its result if it has ended, and whether it has announced its end. A removal of
  the last backend waits for that announcement, for three seconds at most.
\<close>

fun group_run_loop :: "u64 \<Rightarrow> accept_event list \<Rightarrow> accept_action list \<times> unit result option \<times> bool" where
  "group_run_loop backoff_ms [] = ([], None, False)"
| "group_run_loop backoff_ms (Accepted addr # evs) =
     (case group_run_loop 0 evs of (acts, r) \<Rightarrow> (Serve addr # acts, r))"
| "group_run_loop backoff_ms (AcceptFailed e # evs) =
     (if is_transient_accept_error e then
        let backoff_ms = next_backoff backoff_ms
        in (case group_run_loop backoff_ms evs of (acts, r) \<Rightarrow> (Sleep backoff_ms # acts, r))
      else ([], Some (Inl (Io e)), False))"
| "group_run_loop backoff_ms (ShutdownSignal # evs) = ([], Some (Inr ()), True)"

text \<open>
  A group serves and pauses exactly as a single TCP proxy does; the difference is that after a fatal error it does
  not announce its end.
\<close>

lemma group_like_tcp:
  "fst (group_run_loop b evs) = fst (tcp_accept_loop b evs)"
  "fst (snd (group_run_loop b evs)) = None \<longleftrightarrow> \<not> snd (tcp_accept_loop b evs)"
  "snd (snd (group_run_loop b evs)) \<longleftrightarrow> fst (snd (group_run_loop b evs)) = Some (Inr ())"
  by (induction b evs rule: group_run_loop.induct) (simp_all add: Let_def case_prod_unfold)

subsection \<open>When the listener of the virtual hosts is up\<close>

lemma vhost_accept_loop_exact:
  "vhost_accept_loop evs =
     (map projr (takeWhile (\<lambda>e. \<exists>c. e = Inr c) evs),
      case dropWhile (\<lambda>e. \<exists>c. e = Inr c) evs of [] \<Rightarrow> None | e # _ \<Rightarrow> Some (Io (projl e)))"
  by (induction evs rule: vhost_accept_loop.induct) simp_all

lemma unregister_route_started [simp]:
  "vm_http_started (unregister_route order k ty vm) = vm_http_started vm"
  by (simp add: unregister_route_def split: prod.splits)

lemma http_conn_started [simp]:
  "vm_http_started (snd (handle_http_conn pf chunks fin pc vm)) = vm_http_started vm"
  "vm_http_started (snd (handle_https_conn pf stream pc vm)) = vm_http_started vm"
  by (auto simp: handle_http_conn_def handle_https_conn_def Let_def split: sum.splits option.splits prod.splits)

lemma proxy_close_started [simp]:
  "vm_http_started (pm_vhost (proxy_close order p pm)) = vm_http_started (pm_vhost pm)"
  by (cases "(order, p, pm)" rule: proxy_close.cases) (simp_all add: tcp_close_def split: option.splits prod.splits)

lemma remove_key_started [simp]:
  "vm_http_started (pm_vhost (remove_key order k pm)) = vm_http_started (pm_vhost pm)"
  by (simp add: remove_key_def split: option.split)

lemma fold_remove_key_started [simp]:
  "vm_http_started (pm_vhost (fold (remove_key order) ks pm)) = vm_http_started (pm_vhost pm)"
  by (induction ks arbitrary: pm) simp_all

lemma register_arms_vhost:
  "pm_vhost (snd (register_tcp os k msg tx pm)) = pm_vhost pm"
  "pm_vhost (snd (register_stcp run_id msg tx pm)) = pm_vhost pm"
  "pm_vhost (snd (register_udp os msg tx pm)) = pm_vhost pm"
  "pm_vhost (snd (register_xtcp os run_id msg tx pm)) = pm_vhost pm"
  by (simp_all add: register_tcp_def register_stcp_def register_udp_def register_xtcp_def Let_def case_prod_unfold
      split: sum.split)

lemma register_vhost_started:
  assumes "np_proxy_type msg \<noteq> ''http'' \<or> (\<exists>e. fst (register_vhost pf run_id msg tx pm) = Inl e)"
  shows "vm_http_started (pm_vhost (snd (register_vhost pf run_id msg tx pm))) = vm_http_started (pm_vhost pm)
    \<or> np_proxy_type msg \<notin> {''http'', ''https''}"
  using assms
  by (auto simp: register_vhost_def register_http_def register_https_def Let_def case_prod_unfold split: sum.splits if_splits)

lemma register_proxy_started:
  assumes "np_proxy_type msg = ''http'' \<Longrightarrow> \<exists>e. fst (register_proxy pf os run_id msg tx pm) = Inl e"
  shows "vm_http_started (pm_vhost (snd (register_proxy pf os run_id msg tx pm))) = vm_http_started (pm_vhost pm)"
proof (cases "np_proxy_type msg \<in> {''http'', ''https''} \<and> pm_proxies pm (proxy_key run_id (np_proxy_name msg)) = None")
  case True
  then have e: "register_proxy pf os run_id msg tx pm =
      (case register_vhost pf run_id msg tx pm of
         (Inl e, pm) \<Rightarrow> (Inl e, pm)
       | (Inr (p, a), pm) \<Rightarrow> (Inr a, entered (proxy_key run_id (np_proxy_name msg)) p
           \<lparr>rec_run_id = run_id, rec_proxy_name = np_proxy_name msg, rec_proxy_type = np_proxy_type msg,
            rec_remote_addr = a\<rparr> pm))"
    by (auto simp: register_proxy_def Let_def split: prod.split sum.split)
  with assms have "np_proxy_type msg \<noteq> ''http'' \<or> (\<exists>e. fst (register_vhost pf run_id msg tx pm) = Inl e)"
    by (cases "register_vhost pf run_id msg tx pm"; cases "fst (register_vhost pf run_id msg tx pm)") auto
  from register_vhost_started [OF this] True show ?thesis
    by (auto simp: e split: prod.split sum.split)
next
  case False
  then consider "pm_proxies pm (proxy_key run_id (np_proxy_name msg)) \<noteq> None"
    | "np_proxy_type msg \<noteq> ''http''" "np_proxy_type msg \<noteq> ''https''" by auto
  then show ?thesis
    by cases (simp_all add: register_proxy_def Let_def case_prod_unfold register_arms_vhost split: sum.split)
qed

text \<open>A step of the manager that is not the successful registration of an HTTP proxy.\<close>

definition no_http_registration :: "platform \<Rightarrow> proxy_manager \<Rightarrow> proxy_manager \<Rightarrow> bool" where
  "no_http_registration pf pm pm' \<longleftrightarrow> manager_step pf pm pm' \<and>
     (\<forall>os run_id msg tx a. np_proxy_type msg = ''http'' \<longrightarrow> register_proxy pf os run_id msg tx pm \<noteq> (Inr a, pm'))"

lemma no_http_registration_started:
  assumes "no_http_registration pf pm pm'" "\<not> vm_http_started (pm_vhost pm)"
  shows "\<not> vm_http_started (pm_vhost pm')"
proof -
  from assms(1) have "manager_step pf pm pm'" by (simp add: no_http_registration_def)
  then show ?thesis
  proof cases
    case (register os run_id msg tx)
    with assms(1) have "\<exists>e. fst (register_proxy pf os run_id msg tx pm) = Inl e" if "np_proxy_type msg = ''http''"
      using that unfolding no_http_registration_def by (metis prod.collapse sum.exhaust)
    from register_proxy_started [OF this] register assms(2) show ?thesis by simp
  qed (use assms(2) in \<open>auto simp: unregister_proxy_def evict_proxy_by_name_def unregister_run_proxies_def Let_def
      http_listener_stopped_def https_listener_stopped_def split: option.splits\<close>)
qed

text \<open>
  C33: How long HTTP is served. The listener serves every connection it accepts until the first error of
  \<^verbatim>\<open>accept\<close>, also a transient one such as running out of file descriptors, which a TCP proxy would sit out; from
  then on no connection is accepted for any of the registered HTTP proxies, whatever else happens, until an HTTP
  proxy is registered again.
\<close>

theorem http_down_until_registration:
  assumes "bind (vm_bind_addr vm @ '':'' @ show_nat (unat (vm_http_port vm))) = None"
    and "(no_http_registration pf)\<^sup>*\<^sup>* (pm\<lparr>pm_vhost := snd (http_listener_task bind (map Inr cs @ Inl e # later) vm)\<rparr>) pm'"
  shows "fst (http_listener_task bind (map Inr cs @ Inl e # later) vm) = cs \<and>
    vm_http_routes (snd (http_listener_task bind (map Inr cs @ Inl e # later) vm)) = vm_http_routes vm \<and>
    \<not> vm_http_started (pm_vhost pm')"
proof -
  have t: "http_listener_task bind (map Inr cs @ Inl e # later) vm = (cs, http_listener_stopped vm)"
    using assms(1)
    by (simp add: http_listener_task_def run_http_listener_def vhost_accept_loop_exact takeWhile_append dropWhile_append comp_def)
  have "\<not> vm_http_started (pm_vhost pm')"
    using assms(2) unfolding t snd_conv
  proof (induction rule: rtranclp_induct)
    case base
    show ?case by (simp add: http_listener_stopped_def)
  next
    case (step y z)
    from no_http_registration_started [OF step(2,3)] show ?case .
  qed
  then show ?thesis unfolding t by (simp add: http_listener_stopped_def)
qed

theorem http_down_until_registration_witness:
  "fst (http_listener_task (\<lambda>_. None) (map Inr [(3, ''a'')] @ Inl demo_emfile # [Inr (4, ''b'')])
      (pm_vhost (demo_registered ''http'' 0))) = [(3, ''a'')] \<and>
   \<not> vm_http_started (snd (http_listener_task (\<lambda>_. None) (map Inr [(3, ''a'')] @ Inl demo_emfile # [Inr (4, ''b'')])
      (pm_vhost (demo_registered ''http'' 0))))"
  using http_down_until_registration [where bind = "\<lambda>_. None" and pm = "demo_registered ''http'' 0",
      OF _ rtranclp.rtrancl_refl, where vm = "pm_vhost (demo_registered ''http'' 0)" and cs = "[(3, ''a'')]" and e = demo_emfile
        and later = "[Inr (4, ''b'')]"]
  by simp

end
