(* ===== verification/ConfigFiles.thy ===== *)
theory ConfigFiles
  imports Settings "HOL-Library.Monad_Syntax"
begin

text \<open>
  How a configuration file becomes a configuration (\<^verbatim>\<open>arp-common/src/config/mod.rs\<close>, the derived
  \<^verbatim>\<open>Deserialize\<close> with its attributes): the name of every key, the default of a key that is missing, and which
  keys and types are refused. The text of the file is parsed by the \<^verbatim>\<open>toml\<close> crate; its tables are the type
  \<open>table\<close> (floating point numbers and dates, which no key takes, and an array given for a structure are left out).
  \<open>None\<close> is an error of the loader.
\<close>

datatype toml = TString string | TInt int | TBool bool | TArray "toml list" | TTable "(string \<times> toml) list"

type_synonym table = "(string \<times> toml) list"

subsection \<open>Values\<close>

fun rd_string :: "toml \<Rightarrow> string option" where
  "rd_string (TString s) = Some s"
| "rd_string _ = None"

fun rd_bool :: "toml \<Rightarrow> bool option" where
  "rd_bool (TBool b) = Some b"
| "rd_bool _ = None"

text \<open>A number that does not fit is refused.\<close>

fun rd_uint :: "toml \<Rightarrow> 'w :: len word option" where
  "rd_uint (TInt i) = (if 0 \<le> i \<and> i < 2 ^ LENGTH('w) then Some (word_of_int i) else None)"
| "rd_uint _ = None"

definition rd_list :: "(toml \<Rightarrow> 'a option) \<Rightarrow> toml \<Rightarrow> 'a list option" where
  "rd_list rd v = (case v of TArray vs \<Rightarrow> those (map rd vs) | _ \<Rightarrow> None)"

definition rd_table :: "(table \<Rightarrow> 'a option) \<Rightarrow> toml \<Rightarrow> 'a option" where
  "rd_table load v = (case v of TTable t \<Rightarrow> load t | _ \<Rightarrow> None)"

fun to_json :: "toml \<Rightarrow> json" where
  "to_json (TString s) = JString s"
| "to_json (TInt i) = JNumber (show_int i)"
| "to_json (TBool b) = JBool b"
| "to_json (TArray vs) = JArray (map to_json vs)"
| "to_json (TTable t) = JObject (map (\<lambda>(k, v). (k, to_json v)) t)"

definition rd_values :: "toml \<Rightarrow> (string \<rightharpoonup> json) option" where
  "rd_values = rd_table (\<lambda>t. Some (map_option to_json \<circ> map_of t))"

definition rd_strings :: "toml \<Rightarrow> (string \<rightharpoonup> string) option" where
  "rd_strings = rd_table (\<lambda>t.
     if list_all (\<lambda>(k, v). rd_string v \<noteq> None) t then Some (\<lambda>k. Option.bind (map_of t k) rd_string) else None)"

definition rd_name :: "('a \<Rightarrow> string) \<Rightarrow> 'a list \<Rightarrow> toml \<Rightarrow> 'a option" where
  "rd_name name xs v = Option.bind (rd_string v) (\<lambda>s. find (\<lambda>x. name x = s) xs)"

definition rd_proxy_type :: "toml \<Rightarrow> proxy_type option" where
  "rd_proxy_type = rd_name proxy_type_name [Tcp, Http, Https, Udp, Stcp, Sudp, Xtcp]"

definition rd_protocol :: "toml \<Rightarrow> transport_protocol option" where
  "rd_protocol = rd_name transport_protocol_name [TpTcp, TpKcp, TpQuic, TpWebsocket]"

text \<open>A key with a default, and one without.\<close>

definition field :: "(toml \<Rightarrow> 'a option) \<Rightarrow> 'a \<Rightarrow> string \<Rightarrow> table \<Rightarrow> 'a option" where
  "field rd d k t = (case map_of t k of None \<Rightarrow> Some d | Some v \<Rightarrow> rd v)"

definition required :: "(toml \<Rightarrow> 'a option) \<Rightarrow> string \<Rightarrow> table \<Rightarrow> 'a option" where
  "required rd k t = Option.bind (map_of t k) rd"

subsection \<open>Defaults\<close>

definition default_bind_addr :: string where "default_bind_addr = ''0.0.0.0''"

definition default_bind_port :: u16 where "default_bind_port = 7000"

definition default_server_addr :: string where "default_server_addr = ''127.0.0.1''"

definition default_server_port :: u16 where "default_server_port = 7000"

definition default_local_ip :: string where "default_local_ip = ''127.0.0.1''"

definition default_protocol :: transport_protocol where "default_protocol = TpTcp"

definition default_tcp_mux :: bool where "default_tcp_mux = True"

definition default_auth_method :: string where "default_auth_method = ''token''"

definition default_health_check_type :: string where "default_health_check_type = ''tcp''"

definition default_true :: bool where "default_true = True"

definition default_xtcp_punch_timeout_secs :: u64 where "default_xtcp_punch_timeout_secs = 12"

definition default_log_max_days :: u32 where "default_log_max_days = 1"

text \<open>
  The derived \<^verbatim>\<open>Default\<close> of a structure, for a section that is missing as a whole: the default of every type, not
  those of the keys.
\<close>

definition auth_default :: auth_config where
  "auth_default = \<lparr>ac_method = [], ac_token = [], ac_additional_tokens = [], ac_rules = [], ac_oidc = oidc_default\<rparr>"

definition health_check_default :: health_check_config where
  "health_check_default = \<lparr>hc_enable = False, hc_check_type = [], hc_timeout_seconds = 0, hc_max_failed = 0,
     hc_interval_seconds = 0, hc_path = []\<rparr>"

definition load_balancer_default :: load_balancer_config where
  "load_balancer_default = \<lparr>lb_group = [], lb_group_key = []\<rparr>"

definition plugin_default :: plugin_config where
  "plugin_default = \<lparr>pl_plugin_type = [], pl_plugin_params = Map.empty\<rparr>"

subsection \<open>Structures\<close>

definition load_tls :: "table \<Rightarrow> tls_config option" where
  "load_tls t = do {
       x_enable \<leftarrow> field rd_bool False ''enable'' t;
       x_cert_file \<leftarrow> field rd_string [] ''cert_file'' t;
       x_key_file \<leftarrow> field rd_string [] ''key_file'' t;
       x_trusted_ca_file \<leftarrow> field rd_string [] ''trusted_ca_file'' t;
       x_server_name \<leftarrow> field rd_string [] ''server_name'' t;
       Some \<lparr>tl_enable = x_enable, tl_cert_file = x_cert_file, tl_key_file = x_key_file,
         tl_trusted_ca_file = x_trusted_ca_file, tl_server_name = x_server_name\<rparr>
     }"

definition load_transport_table :: "table \<Rightarrow> transport_config option" where
  "load_transport_table t = do {
       x_protocol \<leftarrow> field rd_protocol default_protocol ''protocol'' t;
       x_tcp_mux \<leftarrow> field rd_bool default_tcp_mux ''tcp_mux'' t;
       x_tcp_mux_keepalive_interval \<leftarrow> field rd_uint 0 ''tcp_mux_keepalive_interval'' t;
       x_pool_count \<leftarrow> field rd_uint 0 ''pool_count'' t;
       x_heartbeat_interval \<leftarrow> field rd_uint 0 ''heartbeat_interval'' t;
       x_heartbeat_timeout \<leftarrow> field rd_uint 0 ''heartbeat_timeout'' t;
       x_tls \<leftarrow> field (rd_table load_tls) tls_default ''tls'' t;
       Some \<lparr>tr_protocol = x_protocol, tr_tcp_mux = x_tcp_mux,
         tr_tcp_mux_keepalive_interval = x_tcp_mux_keepalive_interval, tr_pool_count = x_pool_count,
         tr_heartbeat_interval = x_heartbeat_interval, tr_heartbeat_timeout = x_heartbeat_timeout,
         tr_tls = x_tls\<rparr>
     }"

definition load_port_range :: "table \<Rightarrow> port_range option" where
  "load_port_range t = do {
       x_start \<leftarrow> field rd_uint 0 ''start'' t;
       x_end \<leftarrow> field rd_uint 0 ''end'' t;
       x_single \<leftarrow> field rd_uint 0 ''single'' t;
       Some \<lparr>pr_start = x_start, pr_end = x_end, pr_single = x_single\<rparr>
     }"

definition load_auth_rule :: "table \<Rightarrow> auth_rule option" where
  "load_auth_rule t = do {
       x_token \<leftarrow> field rd_string [] ''token'' t;
       x_allow_proxy_types \<leftarrow> field (rd_list rd_string) [] ''allow_proxy_types'' t;
       x_allow_ports \<leftarrow> field (rd_list (rd_table load_port_range)) [] ''allow_ports'' t;
       x_allow_domain_suffixes \<leftarrow> field (rd_list rd_string) [] ''allow_domain_suffixes'' t;
       x_allow_subdomain_prefixes \<leftarrow> field (rd_list rd_string) [] ''allow_subdomain_prefixes'' t;
       x_max_pool_count \<leftarrow> field rd_uint 0 ''max_pool_count'' t;
       x_max_connections \<leftarrow> field rd_uint 0 ''max_connections'' t;
       x_bandwidth_limit_bytes \<leftarrow> field rd_uint 0 ''bandwidth_limit_bytes'' t;
       Some \<lparr>ar_token = x_token, ar_allow_proxy_types = x_allow_proxy_types, ar_allow_ports = x_allow_ports,
         ar_allow_domain_suffixes = x_allow_domain_suffixes,
         ar_allow_subdomain_prefixes = x_allow_subdomain_prefixes, ar_max_pool_count = x_max_pool_count,
         ar_max_connections = x_max_connections, ar_bandwidth_limit_bytes = x_bandwidth_limit_bytes\<rparr>
     }"

definition load_oidc :: "table \<Rightarrow> oidc_config option" where
  "load_oidc t = do {
       x_client_id \<leftarrow> field rd_string [] ''client_id'' t;
       x_client_secret \<leftarrow> field rd_string [] ''client_secret'' t;
       x_audience \<leftarrow> field rd_string [] ''audience'' t;
       x_issuer \<leftarrow> field rd_string [] ''issuer'' t;
       x_token_endpoint_url \<leftarrow> field rd_string [] ''token_endpoint_url'' t;
       Some \<lparr>oi_client_id = x_client_id, oi_client_secret = x_client_secret, oi_audience = x_audience,
         oi_issuer = x_issuer, oi_token_endpoint_url = x_token_endpoint_url\<rparr>
     }"

definition load_auth_table :: "table \<Rightarrow> auth_config option" where
  "load_auth_table t = do {
       x_method \<leftarrow> field rd_string default_auth_method ''method'' t;
       x_token \<leftarrow> field rd_string [] ''token'' t;
       x_additional_tokens \<leftarrow> field (rd_list rd_string) [] ''additional_tokens'' t;
       x_rules \<leftarrow> field (rd_list (rd_table load_auth_rule)) [] ''rules'' t;
       x_oidc \<leftarrow> field (rd_table load_oidc) oidc_default ''oidc'' t;
       Some \<lparr>ac_method = x_method, ac_token = x_token, ac_additional_tokens = x_additional_tokens,
         ac_rules = x_rules, ac_oidc = x_oidc\<rparr>
     }"

definition load_server :: "table \<Rightarrow> server_config option" where
  "load_server t = do {
       x_bind_addr \<leftarrow> field rd_string default_bind_addr ''bind_addr'' t;
       x_bind_port \<leftarrow> field rd_uint default_bind_port ''bind_port'' t;
       x_kcp_bind_port \<leftarrow> field rd_uint 0 ''kcp_bind_port'' t;
       x_quic_bind_port \<leftarrow> field rd_uint 0 ''quic_bind_port'' t;
       x_vhost_http_port \<leftarrow> field rd_uint 0 ''vhost_http_port'' t;
       x_vhost_https_port \<leftarrow> field rd_uint 0 ''vhost_https_port'' t;
       x_dashboard_addr \<leftarrow> field rd_string [] ''dashboard_addr'' t;
       x_dashboard_port \<leftarrow> field rd_uint 0 ''dashboard_port'' t;
       x_dashboard_user \<leftarrow> field rd_string [] ''dashboard_user'' t;
       x_dashboard_pwd \<leftarrow> field rd_string [] ''dashboard_pwd'' t;
       x_log_level \<leftarrow> field rd_string [] ''log_level'' t;
       x_log_file \<leftarrow> field rd_string [] ''log_file'' t;
       x_log_max_days \<leftarrow> field rd_uint default_log_max_days ''log_max_days'' t;
       x_auth \<leftarrow> field (rd_table load_auth_table) auth_default ''auth'' t;
       x_transport \<leftarrow> field (rd_table load_transport_table) transport_default ''transport'' t;
       x_allow_ports \<leftarrow> field (rd_list (rd_table load_port_range)) [] ''allow_ports'' t;
       x_max_pool_count \<leftarrow> field rd_uint 0 ''max_pool_count'' t;
       x_max_ports_per_client \<leftarrow> field rd_uint 0 ''max_ports_per_client'' t;
       x_subdomain_host \<leftarrow> field rd_string [] ''subdomain_host'' t;
       x_tcp_mux \<leftarrow> field rd_bool False ''tcp_mux'' t;
       x_custom \<leftarrow> field rd_values Map.empty ''custom'' t;
       Some \<lparr>srv_bind_addr = x_bind_addr, srv_bind_port = x_bind_port, srv_kcp_bind_port = x_kcp_bind_port,
         srv_quic_bind_port = x_quic_bind_port, srv_vhost_http_port = x_vhost_http_port,
         srv_vhost_https_port = x_vhost_https_port, srv_dashboard_addr = x_dashboard_addr,
         srv_dashboard_port = x_dashboard_port, srv_dashboard_user = x_dashboard_user,
         srv_dashboard_pwd = x_dashboard_pwd, srv_log_level = x_log_level, srv_log_file = x_log_file,
         srv_log_max_days = x_log_max_days, srv_auth = x_auth, srv_transport = x_transport,
         srv_allow_ports = x_allow_ports, srv_max_pool_count = x_max_pool_count,
         srv_max_ports_per_client = x_max_ports_per_client, srv_subdomain_host = x_subdomain_host,
         srv_tcp_mux = x_tcp_mux, srv_custom = x_custom\<rparr>
     }"

definition load_health_check :: "table \<Rightarrow> health_check_config option" where
  "load_health_check t = do {
       x_enable \<leftarrow> field rd_bool False ''enable'' t;
       x_check_type \<leftarrow> field rd_string default_health_check_type ''check_type'' t;
       x_timeout_seconds \<leftarrow> field rd_uint 0 ''timeout_seconds'' t;
       x_max_failed \<leftarrow> field rd_uint 0 ''max_failed'' t;
       x_interval_seconds \<leftarrow> field rd_uint 0 ''interval_seconds'' t;
       x_path \<leftarrow> field rd_string [] ''path'' t;
       Some \<lparr>hc_enable = x_enable, hc_check_type = x_check_type, hc_timeout_seconds = x_timeout_seconds,
         hc_max_failed = x_max_failed, hc_interval_seconds = x_interval_seconds, hc_path = x_path\<rparr>
     }"

definition load_load_balancer :: "table \<Rightarrow> load_balancer_config option" where
  "load_load_balancer t = do {
       x_group \<leftarrow> field rd_string [] ''group'' t;
       x_group_key \<leftarrow> field rd_string [] ''group_key'' t;
       Some \<lparr>lb_group = x_group, lb_group_key = x_group_key\<rparr>
     }"

definition load_plugin :: "table \<Rightarrow> plugin_config option" where
  "load_plugin t = do {
       x_plugin_type \<leftarrow> field rd_string [] ''plugin_type'' t;
       x_plugin_params \<leftarrow> field rd_strings Map.empty ''plugin_params'' t;
       Some \<lparr>pl_plugin_type = x_plugin_type, pl_plugin_params = x_plugin_params\<rparr>
     }"

definition load_proxy :: "table \<Rightarrow> proxy_config option" where
  "load_proxy t = do {
       x_name \<leftarrow> required rd_string ''name'' t;
       x_proxy_type \<leftarrow> required rd_proxy_type ''type'' t;
       x_local_ip \<leftarrow> field rd_string default_local_ip ''local_ip'' t;
       x_local_port \<leftarrow> field rd_uint 0 ''local_port'' t;
       x_remote_port \<leftarrow> field rd_uint 0 ''remote_port'' t;
       x_use_encryption \<leftarrow> field rd_bool False ''use_encryption'' t;
       x_use_compression \<leftarrow> field rd_bool False ''use_compression'' t;
       x_custom_domains \<leftarrow> field (rd_list rd_string) [] ''custom_domains'' t;
       x_subdomain \<leftarrow> field rd_string [] ''subdomain'' t;
       x_locations \<leftarrow> field (rd_list rd_string) [] ''locations'' t;
       x_host_header_rewrite \<leftarrow> field rd_string [] ''host_header_rewrite'' t;
       x_http_user \<leftarrow> field rd_string [] ''http_user'' t;
       x_http_pwd \<leftarrow> field rd_string [] ''http_pwd'' t;
       x_sk \<leftarrow> field rd_string [] ''sk'' t;
       x_fallback_to_relay \<leftarrow> field rd_bool default_true ''fallback_to_relay'' t;
       x_multiplexer \<leftarrow> field rd_string [] ''multiplexer'' t;
       x_bandwidth_limit \<leftarrow> field rd_string [] ''bandwidth_limit'' t;
       x_bandwidth_limit_mode \<leftarrow> field rd_string [] ''bandwidth_limit_mode'' t;
       x_health_check \<leftarrow> field (rd_table load_health_check) health_check_default ''health_check'' t;
       x_load_balancer \<leftarrow> field (rd_table load_load_balancer) load_balancer_default ''load_balancer'' t;
       x_plugin \<leftarrow> field (rd_table load_plugin) plugin_default ''plugin'' t;
       Some \<lparr>pc_name = x_name, pc_proxy_type = x_proxy_type, pc_local_ip = x_local_ip,
         pc_local_port = x_local_port, pc_remote_port = x_remote_port,
         pc_use_encryption = x_use_encryption, pc_use_compression = x_use_compression,
         pc_custom_domains = x_custom_domains, pc_subdomain = x_subdomain, pc_locations = x_locations,
         pc_host_header_rewrite = x_host_header_rewrite, pc_http_user = x_http_user,
         pc_http_pwd = x_http_pwd, pc_sk = x_sk, pc_fallback_to_relay = x_fallback_to_relay,
         pc_multiplexer = x_multiplexer, pc_bandwidth_limit = x_bandwidth_limit,
         pc_bandwidth_limit_mode = x_bandwidth_limit_mode, pc_health_check = x_health_check,
         pc_load_balancer = x_load_balancer, pc_plugin = x_plugin\<rparr>
     }"

definition load_visitor :: "table \<Rightarrow> visitor_config option" where
  "load_visitor t = do {
       x_name \<leftarrow> required rd_string ''name'' t;
       x_visitor_type \<leftarrow> required rd_string ''type'' t;
       x_server_name \<leftarrow> field rd_string [] ''server_name'' t;
       x_sk \<leftarrow> field rd_string [] ''sk'' t;
       x_bind_addr \<leftarrow> field rd_string [] ''bind_addr'' t;
       x_bind_port \<leftarrow> field rd_uint 0 ''bind_port'' t;
       x_fallback_to_relay \<leftarrow> field rd_bool default_true ''fallback_to_relay'' t;
       x_xtcp_punch_timeout_secs \<leftarrow> field rd_uint default_xtcp_punch_timeout_secs ''xtcp_punch_timeout_secs'' t;
       Some \<lparr>vc_name = x_name, vc_visitor_type = x_visitor_type, vc_server_name = x_server_name,
         vc_sk = x_sk, vc_bind_addr = x_bind_addr, vc_bind_port = x_bind_port,
         vc_fallback_to_relay = x_fallback_to_relay,
         vc_xtcp_punch_timeout_secs = x_xtcp_punch_timeout_secs\<rparr>
     }"

definition load_client :: "table \<Rightarrow> client_config option" where
  "load_client t = do {
       x_server_addr \<leftarrow> field rd_string default_server_addr ''server_addr'' t;
       x_server_port \<leftarrow> field rd_uint default_server_port ''server_port'' t;
       x_client_id \<leftarrow> field rd_string [] ''client_id'' t;
       x_log_level \<leftarrow> field rd_string [] ''log_level'' t;
       x_log_file \<leftarrow> field rd_string [] ''log_file'' t;
       x_log_max_days \<leftarrow> field rd_uint default_log_max_days ''log_max_days'' t;
       x_auth \<leftarrow> field (rd_table load_auth_table) auth_default ''auth'' t;
       x_transport \<leftarrow> field (rd_table load_transport_table) transport_default ''transport'' t;
       x_admin_addr \<leftarrow> field rd_string [] ''admin_addr'' t;
       x_admin_port \<leftarrow> field rd_uint 0 ''admin_port'' t;
       x_admin_user \<leftarrow> field rd_string [] ''admin_user'' t;
       x_admin_pwd \<leftarrow> field rd_string [] ''admin_pwd'' t;
       x_proxies \<leftarrow> field (rd_list (rd_table load_proxy)) [] ''proxies'' t;
       x_visitors \<leftarrow> field (rd_list (rd_table load_visitor)) [] ''visitors'' t;
       Some \<lparr>cli_server_addr = x_server_addr, cli_server_port = x_server_port, cli_client_id = x_client_id,
         cli_log_level = x_log_level, cli_log_file = x_log_file, cli_log_max_days = x_log_max_days,
         cli_auth = x_auth, cli_transport = x_transport, cli_admin_addr = x_admin_addr,
         cli_admin_port = x_admin_port, cli_admin_user = x_admin_user, cli_admin_pwd = x_admin_pwd,
         cli_proxies = x_proxies, cli_visitors = x_visitors\<rparr>
     }"


subsection \<open>What is loaded\<close>

lemma field_absent: "map_of t k = None \<Longrightarrow> field rd d k t = Some d"
  by (simp add: field_def)

lemma rd_uint_exact: "rd_uint v = Some w \<longleftrightarrow> v = TInt (uint (w :: 'w :: len word))"
proof (cases v)
  case (TInt i)
  show ?thesis
  proof (cases "0 \<le> i \<and> i < 2 ^ LENGTH('w)")
    case True
    then have "uint (word_of_int i :: 'w word) = i" by (simp add: uint_word_of_int_eq take_bit_int_eq_self)
    with True TInt show ?thesis by auto
  next
    case False
    with TInt show ?thesis using uint_bounded [of w] by auto
  qed
qed simp_all

lemma rd_string_exact: "rd_string v = Some s \<longleftrightarrow> v = TString s"
  by (cases v) auto

lemma rd_name_exact: "rd_name name xs v = Some x \<Longrightarrow> v = TString (name x)"
  by (auto simp: rd_name_def bind_eq_Some_conv rd_string_exact find_Some_iff)

text \<open>The sections of \<open>Settings\<close> are what a table says of the keys.\<close>

definition transport_keys :: "table \<Rightarrow> transport_section option" where
  "transport_keys t = do {
       proto \<leftarrow> field (map_option Some \<circ> rd_protocol) None ''protocol'' t;
       mux \<leftarrow> field (map_option Some \<circ> rd_bool) None ''tcp_mux'' t;
       keepalive \<leftarrow> field (map_option Some \<circ> rd_uint) None ''tcp_mux_keepalive_interval'' t;
       pool \<leftarrow> field (map_option Some \<circ> rd_uint) None ''pool_count'' t;
       interval \<leftarrow> field (map_option Some \<circ> rd_uint) None ''heartbeat_interval'' t;
       timeout \<leftarrow> field (map_option Some \<circ> rd_uint) None ''heartbeat_timeout'' t;
       tls \<leftarrow> field (map_option Some \<circ> rd_table load_tls) None ''tls'' t;
       Some \<lparr>ts_protocol = proto, ts_tcp_mux = mux, ts_tcp_mux_keepalive_interval = keepalive, ts_pool_count = pool,
         ts_heartbeat_interval = interval, ts_heartbeat_timeout = timeout, ts_tls = tls\<rparr>
     }"

lemma field_key:
  "field rd d k t = map_option (\<lambda>x. or_default x d) (field (map_option Some \<circ> rd) None k t)"
  by (simp add: field_def or_default_def option.map_comp comp_def option.map_ident split: option.split)

lemma load_transport_keys:
  "load_transport_table t = map_option (\<lambda>sec. load_transport (Some sec)) (transport_keys t)"
proof -
  note keys = field_key [of rd_protocol] field_key [of rd_bool] field_key [of "rd_uint :: _ \<Rightarrow> u64 option"]
    field_key [of "rd_uint :: _ \<Rightarrow> u32 option"] field_key [of "rd_table load_tls"]
  show ?thesis
    unfolding load_transport_table_def transport_keys_def keys
    by (simp add: load_transport_def default_protocol_def default_tcp_mux_def Option.bind_map_option
        split: Option.bind_split)
qed

text \<open>
  No value of a file is changed on its way into the configuration. A port that the file gives is the port of
  the configuration (one above 65535 is refused, never cut off), and a proxy has the name and the type its table
  gives, which both have to be there.
\<close>

theorem files_taken_literally:
  assumes "load_server t = Some c" "load_client u = Some d" "load_proxy v = Some p"
  shows "(\<forall>x. map_of t ''bind_port'' = Some x \<longrightarrow> x = TInt (uint (srv_bind_port c))) \<and>
    (\<forall>x. map_of u ''server_port'' = Some x \<longrightarrow> x = TInt (uint (cli_server_port d))) \<and>
    map_of v ''name'' = Some (TString (pc_name p)) \<and>
    map_of v ''type'' = Some (TString (proxy_type_name (pc_proxy_type p))) \<and>
    (\<forall>x. map_of v ''remote_port'' = Some x \<longrightarrow> x = TInt (uint (pc_remote_port p)))"
proof -
  have "\<forall>x. map_of t ''bind_port'' = Some x \<longrightarrow> x = TInt (uint (srv_bind_port c))"
    using assms(1) by (auto simp: load_server_def bind_eq_Some_conv field_def rd_uint_exact)
  moreover have "\<forall>x. map_of u ''server_port'' = Some x \<longrightarrow> x = TInt (uint (cli_server_port d))"
    using assms(2) by (auto simp: load_client_def bind_eq_Some_conv field_def rd_uint_exact)
  moreover have "map_of v ''name'' = Some (TString (pc_name p))"
    "map_of v ''type'' = Some (TString (proxy_type_name (pc_proxy_type p)))"
    "\<forall>x. map_of v ''remote_port'' = Some x \<longrightarrow> x = TInt (uint (pc_remote_port p))"
    using assms(3)
    by (auto simp: load_proxy_def bind_eq_Some_conv required_def rd_string_exact rd_proxy_type_def field_def rd_uint_exact
        dest: rd_name_exact)
  ultimately show ?thesis by blast
qed

theorem files_taken_literally_witness:
  "map_option srv_bind_port (load_server [(''bind_port'', TInt 8000)]) = Some 8000 \<and>
   map_option pc_proxy_type (load_proxy [(''name'', TString ''web''), (''type'', TString ''http'')]) = Some Http \<and>
   load_server [(''bind_port'', TInt 65536)] = None"
proof -
  let ?t = "[(''bind_port'', TInt 8000)]" and ?v = "[(''name'', TString ''web''), (''type'', TString ''http'')]"
  obtain c where c: "load_server ?t = Some c" by (simp add: load_server_def field_def)
  obtain d where d: "load_client [] = Some d" by (simp add: load_client_def field_def)
  obtain p where p: "load_proxy ?v = Some p"
    by (simp add: load_proxy_def field_def required_def rd_proxy_type_def rd_name_def)
  from files_taken_literally [OF c d p] have "uint (srv_bind_port c) = 8000" "proxy_type_name (pc_proxy_type p) = ''http''"
    by simp_all
  then have "srv_bind_port c = 8000" "pc_proxy_type p = Http"
    by (metis of_int_numeral word_of_int_uint, cases "pc_proxy_type p") simp_all
  moreover have "load_server [(''bind_port'', TInt 65536)] = None" by (simp add: load_server_def field_def)
  ultimately show ?thesis by (simp add: c p)
qed

text \<open>
  What the smallest files give. An empty file is refused by both programs, because without a section for the
  authentication its method is empty; with nothing but a token that is not blank, the server listens on port 7000 of
  every address, plain TCP, and the client connects to port 7000 of its own host, pings every 30 seconds and keeps
  one warm work connection.
\<close>

theorem smallest_files:
  "(\<exists>c. load_server [] = Some c \<and> server_validate c = Inl (Config ''unsupported auth.method: '')) \<and>
   (\<exists>c. load_client [] = Some c \<and> client_validate c = Inl (Config ''unsupported auth.method: '')) \<and>
   (\<exists>c. load_server [(''auth'', TTable [(''token'', TString tok)])] = Some c \<and>
      (server_validate c = Inr () \<longleftrightarrow> trim tok \<noteq> []) \<and>
      srv_bind_addr c = ''0.0.0.0'' \<and> srv_bind_port c = 7000 \<and> srv_transport c = transport_default \<and>
      ac_token (srv_auth c) = tok \<and> srv_dashboard_port c = 0) \<and>
   (\<exists>c. load_client [(''auth'', TTable [(''token'', TString tok)])] = Some c \<and>
      (client_validate c = Inr () \<longleftrightarrow> trim tok \<noteq> []) \<and>
      cli_server_addr c = ''127.0.0.1'' \<and> cli_server_port c = 7000 \<and> cli_transport c = transport_default \<and>
      ac_token (cli_auth c) = tok \<and> cli_admin_port c = 0)"
proof -
  note defs = field_def rd_table_def load_auth_table_def auth_default_def transport_default_def tls_default_def
    default_bind_addr_def default_bind_port_def default_server_addr_def default_server_port_def default_auth_method_def
  have "\<exists>c. load_server [] = Some c \<and> server_validate c = Inl (Config ''unsupported auth.method: '')"
    by (simp add: load_server_def server_validate_def auth_validate_def defs)
  moreover have "\<exists>c. load_client [] = Some c \<and> client_validate c = Inl (Config ''unsupported auth.method: '')"
    by (simp add: load_client_def client_validate_def auth_validate_def defs)
  moreover have "\<exists>c. load_server [(''auth'', TTable [(''token'', TString tok)])] = Some c \<and>
      (server_validate c = Inr () \<longleftrightarrow> trim tok \<noteq> []) \<and>
      srv_bind_addr c = ''0.0.0.0'' \<and> srv_bind_port c = 7000 \<and> srv_transport c = transport_default \<and>
      ac_token (srv_auth c) = tok \<and> srv_dashboard_port c = 0"
    by (simp add: load_server_def server_validate_def auth_validate_def defs)
  moreover have "\<exists>c. load_client [(''auth'', TTable [(''token'', TString tok)])] = Some c \<and>
      (client_validate c = Inr () \<longleftrightarrow> trim tok \<noteq> []) \<and>
      cli_server_addr c = ''127.0.0.1'' \<and> cli_server_port c = 7000 \<and> cli_transport c = transport_default \<and>
      ac_token (cli_auth c) = tok \<and> cli_admin_port c = 0"
    by (simp add: load_client_def client_validate_def auth_validate_def defs)
  ultimately show ?thesis by blast
qed

end
