(* ===== verification/LogFiles.thy ===== *)
theory LogFiles
  imports Settings
begin

text \<open>
  \<^verbatim>\<open>arp-common/src/logging.rs\<close>: where the log goes and which old log files are deleted at the start. Writing the
  log is code of \<^verbatim>\<open>tracing\<close>. Paths are those of Unix; the directory listing, the clock and the parser of dates are
  arguments.
\<close>

subsection \<open>Paths\<close>

text \<open>A path without separators and \<^verbatim>\<open>.\<close> components at its end, as \<^verbatim>\<open>Path::components\<close> reads it.\<close>

function path_trim :: "string \<Rightarrow> string" where
  "path_trim s =
     (if length s > 1 \<and> ends_with s ''/'' then path_trim (butlast s)
      else if ends_with s ''/.'' then path_trim (butlast s)
      else s)"
  by auto
termination
  by (relation "measure length") (auto simp: ends_with_def suffix_def)

declare path_trim.simps [simp del]

definition path_parent :: "string \<Rightarrow> string option" where
  "path_parent s =
     (let t = path_trim s in
      if t = [] \<or> t = ''/'' then None
      else case rsplit_once (CHR ''/'') t of None \<Rightarrow> Some [] | Some (a, _) \<Rightarrow> Some (path_trim (a @ ''/'')))"

definition path_file_name :: "string \<Rightarrow> string option" where
  "path_file_name s =
     (let t = path_trim s; name = (case rsplit_once (CHR ''/'') t of None \<Rightarrow> t | Some (_, b) \<Rightarrow> b) in
      if name \<in> {[], ''.'', ''..''} then None else Some name)"

definition path_file_stem :: "string \<Rightarrow> string option" where
  "path_file_stem s =
     map_option (\<lambda>name. case rsplit_once (CHR ''.'') name of None \<Rightarrow> name | Some (a, _) \<Rightarrow> if a = [] then name else a)
       (path_file_name s)"

subsection \<open>logging.rs\<close>

record log_config =
  lc_log_level :: string
  lc_log_file :: string
  lc_log_max_days :: u32

definition day :: int where
  "day = 86400 * 10 ^ 9"

text \<open>
  \<open>read_dir\<close> lists a directory, \<open>parse_date\<close> gives a date as days since 1970, \<open>now\<close> is in nanoseconds since then.
  The result is the names of the files that are deleted.
\<close>

definition old_log :: "(string \<Rightarrow> int option) \<Rightarrow> int \<Rightarrow> string \<Rightarrow> u32 \<Rightarrow> string \<Rightarrow> bool" where
  "old_log parse_date now pre max_days name \<longleftrightarrow>
     starts_with name pre \<and>
     (case rsplit_once (CHR ''.'') name of
        None \<Rightarrow> False
      | Some (_, date_str) \<Rightarrow>
          (case parse_date date_str of
             None \<Rightarrow> False
           | Some file_date \<Rightarrow> file_date * day < now - uint max_days * day))"

definition purge_old_logs ::
  "(string \<Rightarrow> string list option) \<Rightarrow> (string \<Rightarrow> int option) \<Rightarrow> int \<Rightarrow> string \<Rightarrow> string \<Rightarrow> u32 \<Rightarrow> string list" where
  "purge_old_logs read_dir parse_date now dir pre max_days =
     (case read_dir dir of None \<Rightarrow> [] | Some names \<Rightarrow> filter (old_log parse_date now pre max_days) names)"

datatype log_target = LogStdout | LogDaily string string

text \<open>\<open>env\<close> is the filter of the environment. The result is the filter, where the log goes and what is deleted.\<close>

definition init_logging ::
  "(string \<Rightarrow> string list option) \<Rightarrow> (string \<Rightarrow> int option) \<Rightarrow> int \<Rightarrow> string option \<Rightarrow> log_config \<Rightarrow>
   string \<times> log_target \<times> string list" where
  "init_logging read_dir parse_date now env cfg =
     (let level = if lc_log_level cfg = [] then ''info'' else lc_log_level cfg;
          filter_text = (case env of None \<Rightarrow> level | Some f \<Rightarrow> f)
      in if lc_log_file cfg = [] then (filter_text, LogStdout, [])
         else
           let dir = (case path_parent (lc_log_file cfg) of None \<Rightarrow> ''.'' | Some d \<Rightarrow> d);
               pre = (case path_file_stem (lc_log_file cfg) of None \<Rightarrow> ''app'' | Some p \<Rightarrow> p)
           in (filter_text, LogDaily dir pre,
               if lc_log_max_days cfg > 0
               then purge_old_logs read_dir parse_date now dir pre (lc_log_max_days cfg) else []))"

subsection \<open>Which files are deleted\<close>

text \<open>
  A file named by the prefix, any text, a dot and a date is deleted exactly if its day began more than the given
  number of days ago. The text between need not be empty: also the files of a program whose prefix is longer go.
\<close>

lemma old_log_dated:
  assumes "CHR ''.'' \<notin> set date" "parse_date date = Some d"
  shows "old_log parse_date now pre max_days (pre @ middle @ ''.'' @ date) \<longleftrightarrow> d * day < now - uint max_days * day"
proof -
  have "rsplit_once (CHR ''.'') (pre @ middle @ ''.'' @ date) = Some (pre @ middle, date)"
    using assms(1) by (simp add: rsplit_once_Some)
  with assms(2) show ?thesis by (simp add: old_log_def starts_with_def)
qed

text \<open>With the default of one day only today's file is kept (at midnight sharp also yesterday's).\<close>

lemma default_keeps_today:
  assumes "CHR ''.'' \<notin> set date" "parse_date date = Some d" "today * day < now" "now < (today + 1) * day"
  shows "old_log parse_date now pre 1 (pre @ ''.'' @ date) \<longleftrightarrow> d < today"
proof -
  have "d * day < now - day \<longleftrightarrow> d < today"
  proof
    assume "d * day < now - day"
    with assms(4) have "d * day < today * day" by (simp add: algebra_simps)
    then show "d < today" by (simp add: day_def)
  next
    assume "d < today"
    then have "(d + 1) * day \<le> today * day" by (intro mult_right_mono) (simp_all add: day_def)
    with assms(3) show "d * day < now - day" by (simp add: algebra_simps)
  qed
  with old_log_dated [where middle = "[]" and date = date and parse_date = parse_date and d = d and now = now
      and pre = pre and max_days = 1] assms(1,2)
  show ?thesis by simp
qed

text \<open>A log file named without a directory: its directory is the empty path, which cannot be listed.\<close>

lemma plain_name_never_purged:
  assumes "CHR ''/'' \<notin> set file" "file \<noteq> []" "read_dir [] = None"
  shows "\<exists>level pre. init_logging read_dir parse_date now env
      \<lparr>lc_log_level = l, lc_log_file = file, lc_log_max_days = n\<rparr> = (level, LogDaily [] pre, [])"
proof -
  have "path_trim file = file"
    using assms(1) by (subst path_trim.simps) (auto simp: ends_with_def suffix_def)
  moreover have "file \<noteq> ''/''" using assms(1) by auto
  ultimately have "path_parent file = Some []"
    using assms by (simp add: path_parent_def rsplit_once_None [THEN iffD2])
  with assms show ?thesis by (simp add: init_logging_def purge_old_logs_def Let_def)
qed

end
