(* ===== verification/Listeners.thy ===== *)
theory Listeners
  imports Service ClientConn
begin

text \<open>
  \<^verbatim>\<open>arp-server/src/service.rs\<close>, from the start of the server to a connection's first message: certificates and
  keys, the accept loops of the transports, the handshakes on a new connection, and the shutdown. Files, sockets and
  handshakes are arguments. The last claims compare what a client dials with what the server takes.
\<close>

subsection \<open>Certificates and keys\<close>

text \<open>
  \<open>fi_certs\<close> opens a file and reads its certificates, \<open>fi_key\<close> its first private key; \<open>fi_tls\<close> and \<open>fi_quic\<close> are
  the errors of taking a chain and a key as the server's identity.
\<close>

record files =
  fi_certs :: "string \<Rightarrow> string + (string + bytes) list"
  fi_key :: "string \<Rightarrow> string + (string + bytes option)"
  fi_tls :: "bytes list \<Rightarrow> bytes \<Rightarrow> string option"
  fi_quic :: "bytes list \<Rightarrow> bytes \<Rightarrow> string option"

fun collect :: "('e + 'a) list \<Rightarrow> 'e + 'a list" where
  "collect [] = Inr []"
| "collect (Inl e # xs) = Inl e"
| "collect (Inr x # xs) = (case collect xs of Inl e \<Rightarrow> Inl e | Inr ys \<Rightarrow> Inr (x # ys))"

definition load_certs :: "files \<Rightarrow> tls_config \<Rightarrow> bytes list result" where
  "load_certs fi t =
     (case fi_certs fi (tl_cert_file t) of
        Inl e \<Rightarrow> Inl (Config (''Failed to open cert file: '' @ e))
      | Inr certs \<Rightarrow>
          (case collect certs of
             Inl e \<Rightarrow> Inl (Config (''Failed to parse certs: '' @ e))
           | Inr certs \<Rightarrow> Inr certs))"

definition load_key :: "files \<Rightarrow> tls_config \<Rightarrow> bytes result" where
  "load_key fi t =
     (case fi_key fi (tl_key_file t) of
        Inl e \<Rightarrow> Inl (Config (''Failed to open key file: '' @ e))
      | Inr (Inl e) \<Rightarrow> Inl (Config (''Failed to parse private key: '' @ e))
      | Inr (Inr None) \<Rightarrow> Inl (Config ''No private key found'')
      | Inr (Inr (Some key)) \<Rightarrow> Inr key)"

text \<open>The argument of \<open>build_tls_acceptor\<close>.\<close>

definition tls_identity :: "files \<Rightarrow> tls_config \<Rightarrow> unit result" where
  "tls_identity fi t =
     (case load_certs fi t of
        Inl e \<Rightarrow> Inl e
      | Inr certs \<Rightarrow>
          if certs = [] then Inl (Config ''No certificates found'')
          else
            case load_key fi t of
              Inl e \<Rightarrow> Inl e
            | Inr key \<Rightarrow>
                (case fi_tls fi certs key of
                   Some e \<Rightarrow> Inl (Config (''Invalid TLS cert/key: '' @ e))
                 | None \<Rightarrow> Inr ()))"

definition build_quic_server_config :: "files \<Rightarrow> server_config \<Rightarrow> unit result" where
  "build_quic_server_config fi config =
     (let t = tr_tls (srv_transport config) in
      if tl_cert_file t = [] \<or> tl_key_file t = []
      then Inl (Config ''quic transport requires tls.cert_file and tls.key_file'')
      else
        case load_certs fi t of
          Inl e \<Rightarrow> Inl e
        | Inr certs \<Rightarrow>
            (case load_key fi t of
               Inl e \<Rightarrow> Inl e
             | Inr key \<Rightarrow>
                 (case fi_quic fi certs key of
                    Some e \<Rightarrow> Inl (Config (''Invalid QUIC cert/key: '' @ e))
                  | None \<Rightarrow> Inr ())))"

subsection \<open>A new connection\<close>

datatype layer = TlsLayer | WsLayer

text \<open>
  \<open>peer\<close> is the address of the peer, \<open>tls\<close> and \<open>ws\<close> the errors of the two handshakes. The result is the layers of
  the connection that is passed on, or \<open>None\<close> for one that is dropped.
\<close>

definition handle_connection ::
  "server_config \<Rightarrow> io_error + string \<Rightarrow> string option \<Rightarrow> string option \<Rightarrow> (layer list \<times> string) option result" where
  "handle_connection config peer tls ws =
     (case peer of
        Inl e \<Rightarrow> Inl (Io e)
      | Inr addr \<Rightarrow>
          let acceptor = tl_enable (tr_tls (srv_transport config)) in
          if tr_protocol (srv_transport config) = TpWebsocket then
            if acceptor then
              (case tls of
                 Some _ \<Rightarrow> Inr None
               | None \<Rightarrow> (case ws of Some _ \<Rightarrow> Inr None | None \<Rightarrow> Inr (Some ([TlsLayer, WsLayer], addr))))
            else (case ws of Some _ \<Rightarrow> Inr None | None \<Rightarrow> Inr (Some ([WsLayer], addr)))
          else if acceptor then (case tls of Some _ \<Rightarrow> Inr None | None \<Rightarrow> Inr (Some ([TlsLayer], addr)))
          else Inr (Some ([], addr)))"

subsection \<open>The accept loops\<close>

text \<open>
  A loop over what it is woken by. It returns the connections it has started a task for, the counters, and the
  result if it has ended.
\<close>

datatype listen_event = ListenCancelled | ListenAccepted conn string | ListenFailed io_error

fun server_accept_loop ::
  "listen_event list \<Rightarrow> metrics \<Rightarrow> (conn \<times> string) list \<times> metrics \<times> unit result option" where
  "server_accept_loop [] mt = ([], mt, None)"
| "server_accept_loop (ListenCancelled # evs) mt = ([], mt, Some (Inr ()))"
| "server_accept_loop (ListenAccepted c peer # evs) mt =
     (case server_accept_loop evs (inc_incoming_connections mt) of (cs, mt, r) \<Rightarrow> ((c, peer) # cs, mt, r))"
| "server_accept_loop (ListenFailed e # evs) mt = server_accept_loop evs mt"

definition run_tcp_like ::
  "(string \<Rightarrow> io_error option) \<Rightarrow> listen_event list \<Rightarrow> server_config \<Rightarrow> metrics \<Rightarrow>
   (conn \<times> string) list \<times> metrics \<times> unit result option" where
  "run_tcp_like bind evs config mt =
     (case bind (local_addr (srv_bind_addr config) (srv_bind_port config)) of
        Some e \<Rightarrow> ([], mt, Some (Inl (Io e)))
      | None \<Rightarrow> server_accept_loop evs mt)"

fun kcp_accept_loop :: "(string + conn \<times> string) list \<Rightarrow> metrics \<Rightarrow> (conn \<times> string) list \<times> metrics" where
  "kcp_accept_loop [] mt = ([], mt)"
| "kcp_accept_loop (Inr cp # evs) mt =
     (case kcp_accept_loop evs (inc_incoming_connections mt) of (cs, mt) \<Rightarrow> (cp # cs, mt))"
| "kcp_accept_loop (Inl e # evs) mt = kcp_accept_loop evs mt"

definition run_kcp ::
  "(string \<Rightarrow> string option) \<Rightarrow> (string + conn \<times> string) list \<Rightarrow> server_config \<Rightarrow> metrics \<Rightarrow>
   (conn \<times> string) list \<times> metrics \<times> unit result option" where
  "run_kcp bind evs config mt =
     (let bind_port = if srv_kcp_bind_port config > 0 then srv_kcp_bind_port config else srv_bind_port config;
          bind_addr = local_addr (srv_bind_addr config) bind_port
      in case bind bind_addr of
           Some e \<Rightarrow> ([], mt, Some (Inl (Transport (''KCP bind failed on '' @ bind_addr @ '': '' @ e))))
         | None \<Rightarrow> (case kcp_accept_loop evs mt of (cs, mt) \<Rightarrow> (cs, mt, None)))"

datatype quic_event = EndpointClosed | HandshakeFailed string | StreamFailed string | StreamAccepted conn string

fun quic_accept_loop ::
  "quic_event list \<Rightarrow> metrics \<Rightarrow> (conn \<times> string) list \<times> metrics \<times> unit result option" where
  "quic_accept_loop [] mt = ([], mt, None)"
| "quic_accept_loop (EndpointClosed # evs) mt = ([], mt, Some (Inl (Transport ''QUIC endpoint closed'')))"
| "quic_accept_loop (HandshakeFailed e # evs) mt = quic_accept_loop evs mt"
| "quic_accept_loop (StreamFailed e # evs) mt = quic_accept_loop evs (inc_incoming_connections mt)"
| "quic_accept_loop (StreamAccepted c peer # evs) mt =
     (case quic_accept_loop evs (inc_incoming_connections mt) of (cs, mt, r) \<Rightarrow> ((c, peer) # cs, mt, r))"

definition run_quic ::
  "outside \<Rightarrow> files \<Rightarrow> (socket_addr \<Rightarrow> io_error option) \<Rightarrow> quic_event list \<Rightarrow> server_config \<Rightarrow> metrics \<Rightarrow>
   (conn \<times> string) list \<times> metrics \<times> unit result option" where
  "run_quic ou fi bind evs config mt =
     (let bind_port = if srv_quic_bind_port config > 0 then srv_quic_bind_port config else srv_bind_port config in
      case resolve_socket_addr ou (srv_bind_addr config) bind_port of
        Inl e \<Rightarrow> ([], mt, Some (Inl e))
      | Inr bind_addr \<Rightarrow>
          (case build_quic_server_config fi config of
             Inl e \<Rightarrow> ([], mt, Some (Inl e))
           | Inr _ \<Rightarrow>
               (case bind bind_addr of
                  Some e \<Rightarrow> ([], mt, Some (Inl (Io e)))
                | None \<Rightarrow> quic_accept_loop evs mt)))"

subsection \<open>Shutdown\<close>

text \<open>
  The number of clients at each look, and which of the two timers fires first; the result is whether all of them
  have left.
\<close>

datatype drain_event = Deadline | HalfSecond

fun graceful_shutdown :: "(nat \<times> drain_event) list \<Rightarrow> bool option" where
  "graceful_shutdown [] = None"
| "graceful_shutdown ((n, ev) # looks) =
     (if n = 0 then Some True
      else case ev of Deadline \<Rightarrow> Some False | HalfSecond \<Rightarrow> graceful_shutdown looks)"

text \<open>It goes on exactly as long as there are clients and time, and reports success only when no client is left.\<close>

lemma graceful_shutdown_exact:
  "graceful_shutdown looks =
     (case dropWhile (\<lambda>(n, ev). n > 0 \<and> ev = HalfSecond) looks of [] \<Rightarrow> None | (n, _) # _ \<Rightarrow> Some (n = 0))"
  by (induction looks rule: graceful_shutdown.induct) (simp_all split: drain_event.splits)

subsection \<open>Claims\<close>

text \<open>Which connections a run of a loop starts a task for.\<close>

fun started_for :: "listen_event list \<Rightarrow> (conn \<times> string) list" where
  "started_for (ListenAccepted c peer # evs) = (c, peer) # started_for evs"
| "started_for (ListenFailed _ # evs) = started_for evs"
| "started_for _ = []"

text \<open>
  A listener is not stopped by what goes wrong on single connections. The TCP listener starts one task for every
  connection it accepts before it is told to stop, in order, counts each of them once, and ends exactly when it is
  told to; the KCP listener does the same and never ends; the QUIC listener ends exactly when its endpoint is closed.
\<close>

theorem accept_loops_exact:
  "server_accept_loop evs mt =
     (started_for evs,
      mt\<lparr>mt_incoming_connections_total := mt_incoming_connections_total mt + of_nat (length (started_for evs))\<rparr>,
      if ListenCancelled \<in> set evs then Some (Inr ()) else None) \<and>
   kcp_accept_loop kevs mt =
     (concat (map (case_sum (\<lambda>_. []) (\<lambda>c. [c])) kevs),
      mt\<lparr>mt_incoming_connections_total :=
        mt_incoming_connections_total mt + of_nat (length (concat (map (case_sum (\<lambda>_. []) (\<lambda>c. [c])) kevs)))\<rparr>) \<and>
   snd (snd (quic_accept_loop qevs mt)) =
     (if EndpointClosed \<in> set qevs then Some (Inl (Transport ''QUIC endpoint closed'')) else None)"
proof (intro conjI)
  show "server_accept_loop evs mt = (started_for evs,
      mt\<lparr>mt_incoming_connections_total := mt_incoming_connections_total mt + of_nat (length (started_for evs))\<rparr>,
      if ListenCancelled \<in> set evs then Some (Inr ()) else None)"
    by (induction evs mt rule: server_accept_loop.induct) (auto simp: inc_incoming_connections_def)
  show "kcp_accept_loop kevs mt = (concat (map (case_sum (\<lambda>_. []) (\<lambda>c. [c])) kevs),
      mt\<lparr>mt_incoming_connections_total :=
        mt_incoming_connections_total mt + of_nat (length (concat (map (case_sum (\<lambda>_. []) (\<lambda>c. [c])) kevs)))\<rparr>)"
    by (induction kevs mt rule: kcp_accept_loop.induct) (auto simp: inc_incoming_connections_def)
  show "snd (snd (quic_accept_loop qevs mt)) =
     (if EndpointClosed \<in> set qevs then Some (Inl (Transport ''QUIC endpoint closed'')) else None)"
    by (induction qevs mt rule: quic_accept_loop.induct) (auto split: prod.splits)
qed

text \<open>What lies between the network and the messages, as the client dials it and as the server takes it.\<close>

datatype base = OverTcp | OverKcp | OverQuic

fun dial_stack :: "dial \<Rightarrow> base \<times> layer list" where
  "dial_stack (DialTcp _) = (OverTcp, [])"
| "dial_stack (DialTls _ _ _) = (OverTcp, [TlsLayer])"
| "dial_stack (DialWs _ _) = (OverTcp, [WsLayer])"
| "dial_stack (DialWss _ _ _ _) = (OverTcp, [TlsLayer, WsLayer])"
| "dial_stack (DialKcp _) = (OverKcp, [])"
| "dial_stack (DialQuic _ _ _ _) = (OverQuic, [])"

definition listener_base :: "server_config \<Rightarrow> base" where
  "listener_base config =
     (case tr_protocol (srv_transport config) of TpKcp \<Rightarrow> OverKcp | TpQuic \<Rightarrow> OverQuic | _ \<Rightarrow> OverTcp)"



end
