(* ===== verification/Programs.thy ===== *)
theory Programs
  imports ConfigFiles LogFiles Listeners ClientService
begin

text \<open>
  The two programs, \<^verbatim>\<open>arp-server/src/main.rs\<close> and \<^verbatim>\<open>arp-client/src/main.rs\<close>: from the command line over the
  configuration file to the service, and what ends them. Reading files and parsing TOML are arguments.
\<close>

subsection \<open>Configuration\<close>

text \<open>\<open>toml\<close> parses the text of a file into a table; \<open>refuse\<close> is the message for a table that cannot be loaded.\<close>

definition from_toml :: "(string \<Rightarrow> string + table) \<Rightarrow> (table \<Rightarrow> string) \<Rightarrow> (table \<Rightarrow> 'c option) \<Rightarrow> string \<Rightarrow> string + 'c" where
  "from_toml toml refuse load content =
     (case toml content of
        Inl e \<Rightarrow> Inl e
      | Inr t \<Rightarrow> (case load t of None \<Rightarrow> Inl (refuse t) | Some c \<Rightarrow> Inr c))"

record disk =
  dk_read :: "string \<Rightarrow> string + string"
  dk_toml :: "string \<Rightarrow> string + table"
  dk_refuse :: "table \<Rightarrow> string"

definition server_from_file :: "disk \<Rightarrow> string \<Rightarrow> server_config result" where
  "server_from_file dk = config_from_file (dk_read dk) (from_toml (dk_toml dk) (dk_refuse dk) load_server)"

definition client_from_file :: "disk \<Rightarrow> string \<Rightarrow> client_config result" where
  "client_from_file dk = config_from_file (dk_read dk) (from_toml (dk_toml dk) (dk_refuse dk) load_client)"

definition chosen_level :: "bool \<Rightarrow> string \<Rightarrow> string" where
  "chosen_level verbose level = (if verbose then ''debug'' else if level = [] then ''info'' else level)"

subsection \<open>The server\<close>

record server_args =
  sa_config :: string
  sa_verbose :: bool

text \<open>Up to the start of the service.\<close>

definition server_main ::
  "platform \<Rightarrow> disk \<Rightarrow> (tls_config \<Rightarrow> unit result) \<Rightarrow> server_args \<Rightarrow> (log_config \<times> server) result" where
  "server_main pf dk tls args =
     (case server_from_file dk (sa_config args) of
        Inl e \<Rightarrow> Inl e
      | Inr config \<Rightarrow>
          (case server_validate config of
             Inl e \<Rightarrow> Inl e
           | Inr _ \<Rightarrow>
               let log = \<lparr>lc_log_level = chosen_level (sa_verbose args) (srv_log_level config),
                          lc_log_file = srv_log_file config, lc_log_max_days = srv_log_max_days config\<rparr>
               in (case service_new pf tls config of
                     Inl e \<Rightarrow> Inl e
                   | Inr sr \<Rightarrow> Inr (log, sr))))"

text \<open>How it ends: by itself, or after a signal when the clients have left or the time is up.\<close>

datatype server_end = RunEnded "unit result" | Interrupt "(nat \<times> drain_event) list"

fun server_exit :: "server_end \<Rightarrow> unit result option" where
  "server_exit (RunEnded r) = Some r"
| "server_exit (Interrupt looks) = map_option (\<lambda>_. Inr ()) (graceful_shutdown looks)"

subsection \<open>The client\<close>

datatype client_command = CmdRun | CmdStatus | CmdCheck "string option"

record client_args =
  ca_config :: string
  ca_verbose :: bool
  ca_command :: "client_command option"

datatype client_start = PrintStatus client_config | PrintCheck client_config "string option" | StartService log_config client_service

definition client_main :: "disk \<Rightarrow> client_args \<Rightarrow> client_start result" where
  "client_main dk args =
     (case client_from_file dk (ca_config args) of
        Inl e \<Rightarrow> Inl e
      | Inr config \<Rightarrow>
          (case client_validate config of
             Inl e \<Rightarrow> Inl e
           | Inr _ \<Rightarrow>
               (case ca_command args of
                  Some CmdStatus \<Rightarrow> Inr (PrintStatus config)
                | Some (CmdCheck name) \<Rightarrow> Inr (PrintCheck config name)
                | _ \<Rightarrow>
                    Inr (StartService
                      \<lparr>lc_log_level = chosen_level (ca_verbose args) (cli_log_level config),
                       lc_log_file = cli_log_file config, lc_log_max_days = cli_log_max_days config\<rparr>
                      (client_service_new config)))))"

subsection \<open>Claims\<close>

text \<open>
  The programs start with the smallest file, and only with files that load and validate. A server that starts is
  in a reachable state, without sessions and proxies, and its configuration is the one of the file; with a file that
  gives nothing but a token it starts, knows that token only and listens on port 7000, and the client with the same
  file starts its service for port 7000 of the same host with that token.
\<close>

theorem programs_start:
  assumes "dk_read dk path = Inr content" "dk_toml dk content = Inr [(''auth'', TTable [(''token'', TString tok)])]"
    "trim tok \<noteq> []"
  shows "(\<forall>args log sr. server_main pf dk tls args = Inr (log, sr) \<longrightarrow>
      server_from_file dk (sa_config args) = Inr (sr_config sr) \<and> server_validate (sr_config sr) = Inr () \<and>
      server_reachable pf sr \<and> sr_sessions sr = Map.empty \<and> pm_proxies (sr_pm sr) = Map.empty) \<and>
    (\<exists>log sr. server_main pf dk tls \<lparr>sa_config = path, sa_verbose = v\<rparr> = Inr (log, sr) \<and>
      known (sr_auth sr) = [tok] \<and> listen_port (sr_config sr) = 7000) \<and>
    (\<exists>log s. client_main dk \<lparr>ca_config = path, ca_verbose = v, ca_command = None\<rparr> = Inr (StartService log s) \<and>
      cli_server_port (cs_config s) = 7000 \<and> ac_token (cli_auth (cs_config s)) = tok)"
proof (intro conjI allI impI)
  fix args log sr
  assume m: "server_main pf dk tls args = Inr (log, sr)"
  then obtain config where c: "server_from_file dk (sa_config args) = Inr config" "server_validate config = Inr ()"
    "service_new pf tls config = Inr sr"
    by (auto simp: server_main_def Let_def split: sum.splits)
  then have s: "sr_config sr = config" "sr_sessions sr = Map.empty" "pm_proxies (sr_pm sr) = Map.empty"
    by (auto simp: service_new_def manager_new_def Let_def split: sum.splits if_splits)
  with c show "server_from_file dk (sa_config args) = Inr (sr_config sr)" "server_validate (sr_config sr) = Inr ()"
    "sr_sessions sr = Map.empty" "pm_proxies (sr_pm sr) = Map.empty" by simp_all
  from c(3) show "server_reachable pf sr" unfolding server_reachable_def by blast
next
  note defs = field_def rd_table_def load_auth_table_def default_auth_method_def transport_default_def tls_default_def
    config_from_file_def from_toml_def auth_validate_def
  show "\<exists>log sr. server_main pf dk tls \<lparr>sa_config = path, sa_verbose = v\<rparr> = Inr (log, sr) \<and>
      known (sr_auth sr) = [tok] \<and> listen_port (sr_config sr) = 7000"
    using assms
    by (simp add: server_main_def server_from_file_def load_server_def server_validate_def service_new_def
        create_authenticator_def token_auth_new_def known_def listen_port_def default_bind_port_def defs Let_def)
  show "\<exists>log s. client_main dk \<lparr>ca_config = path, ca_verbose = v, ca_command = None\<rparr> = Inr (StartService log s) \<and>
      cli_server_port (cs_config s) = 7000 \<and> ac_token (cli_auth (cs_config s)) = tok"
    using assms
    by (simp add: client_main_def client_from_file_def load_client_def client_validate_def client_service_new_def defs
        default_server_addr_def default_server_port_def)
qed

definition demo_disk :: disk where
  "demo_disk = \<lparr>dk_read = (\<lambda>path. if path = ''server.toml'' then Inr ''text'' else Inl ''no such file''),
     dk_toml = (\<lambda>_. Inr [(''auth'', TTable [(''token'', TString ''secret'')])]), dk_refuse = (\<lambda>_. ''bad value'')\<rparr>"

theorem programs_start_witness:
  "\<exists>log sr. server_main demo_platform demo_disk (\<lambda>_. Inr ()) \<lparr>sa_config = ''server.toml'', sa_verbose = False\<rparr> = Inr (log, sr) \<and>
     known (sr_auth sr) = [''secret''] \<and> listen_port (sr_config sr) = 7000"
proof -
  have "dk_read demo_disk ''server.toml'' = Inr ''text''"
    "dk_toml demo_disk ''text'' = Inr [(''auth'', TTable [(''token'', TString ''secret'')])]"
    "trim ''secret'' \<noteq> []"
    by (simp_all add: demo_disk_def trim_visible visible_def ws_seqs_def)
  from programs_start [OF this] show ?thesis by blast
qed

end
