(* ===== verification/Web.thy ===== *)
theory Web
  imports Service
begin

text \<open>
  The administration interface of the server, \<^verbatim>\<open>arp-server/src/web/mod.rs\<close>: status, readiness, the lists of
  proxies and clients, shutting a client down, the metrics page and the dashboard. The HTTP server is outside; a
  reply is a status code with a JSON value, or a text. The order in which each table is walked is an argument.
\<close>

record walk =
  wk_controls :: "string list"
  wk_keys :: "string list"
  wk_metrics :: "string list"

text \<open>A walk visits every entry of a table once.\<close>

definition walk_ok :: "walk \<Rightarrow> server \<Rightarrow> bool" where
  "walk_ok wk sr \<longleftrightarrow> distinct (wk_controls wk) \<and> set (wk_controls wk) = sr_controls sr \<and>
     distinct (wk_keys wk) \<and> set (wk_keys wk) = dom (pm_proxies (sr_pm sr))"

definition controls_count :: "walk \<Rightarrow> server \<Rightarrow> nat" where
  "controls_count wk sr = length (List.map_filter (\<lambda>r. controls_get r sr) (wk_controls wk))"

definition proxies_count :: "walk \<Rightarrow> server \<Rightarrow> nat" where
  "proxies_count wk sr = length (List.map_filter (pm_proxies (sr_pm sr)) (wk_keys wk))"

definition count_by_type :: "walk \<Rightarrow> server \<Rightarrow> (string \<times> nat) list" where
  "count_by_type wk sr =
     (let types = map rec_proxy_type (List.map_filter (pm_records (sr_pm sr)) (wk_keys wk))
      in map (\<lambda>t. (t, count_list types t)) (sort (remdups types)))"

record status_resp =
  sp_started_at_unix :: i64
  sp_transport_protocol :: string
  sp_bind_addr :: string
  sp_bind_port :: u16
  sp_dashboard_enabled :: bool
  sp_vhost_http_port :: u16
  sp_vhost_https_port :: u16
  sp_active_controls :: nat
  sp_active_proxies :: nat
  sp_pending_work_connections :: nat
  sp_idle_work_connections :: nat
  sp_proxy_type_counts :: "(string \<times> nat) list"

definition status_snapshot :: "walk \<Rightarrow> i64 \<Rightarrow> server \<Rightarrow> status_resp" where
  "status_snapshot wk started sr =
     (let (pending, idle) = get_queue_stats_snapshot (wk_controls wk) sr; config = sr_config sr in
      \<lparr>sp_started_at_unix = started,
       sp_transport_protocol = transport_protocol_name (tr_protocol (srv_transport config)),
       sp_bind_addr = srv_bind_addr config, sp_bind_port = srv_bind_port config, sp_dashboard_enabled = True,
       sp_vhost_http_port = srv_vhost_http_port config, sp_vhost_https_port = srv_vhost_https_port config,
       sp_active_controls = controls_count wk sr, sp_active_proxies = proxies_count wk sr,
       sp_pending_work_connections = pending, sp_idle_work_connections = idle,
       sp_proxy_type_counts = count_by_type wk sr\<rparr>)"

definition active_ready :: "walk \<Rightarrow> i64 \<Rightarrow> server \<Rightarrow> bool" where
  "active_ready wk started sr =
     (let status = status_snapshot wk started sr
      in sp_active_controls status > 0 \<or> sp_active_proxies status = 0)"

text \<open>The address of the interface, if it is enabled.\<close>

definition dashboard_bind :: "server_config \<Rightarrow> (string \<times> u16) option" where
  "dashboard_bind config =
     (if srv_dashboard_port config > 0
      then Some (if srv_dashboard_addr config = [] then srv_bind_addr config else srv_dashboard_addr config,
                 srv_dashboard_port config)
      else None)"

subsection \<open>Replies\<close>

abbreviation jnat :: "nat \<Rightarrow> json" where
  "jnat n \<equiv> JNumber (show_nat n)"

definition status_json :: "status_resp \<Rightarrow> json" where
  "status_json st =
     JObject
       [(''status'', JString ''ok''),
        (''started_at_unix'', JNumber (show_int (sint (sp_started_at_unix st)))),
        (''transport_protocol'', JString (sp_transport_protocol st)),
        (''bind_addr'', JString (sp_bind_addr st)),
        (''bind_port'', jnat (unat (sp_bind_port st))),
        (''dashboard_enabled'', JBool (sp_dashboard_enabled st)),
        (''vhost_http_port'', jnat (unat (sp_vhost_http_port st))),
        (''vhost_https_port'', jnat (unat (sp_vhost_https_port st))),
        (''active_controls'', jnat (sp_active_controls st)),
        (''active_proxies'', jnat (sp_active_proxies st)),
        (''pending_work_connections'', jnat (sp_pending_work_connections st)),
        (''idle_work_connections'', jnat (sp_idle_work_connections st)),
        (''proxy_type_counts'', JArray (map (\<lambda>(t, n).
           JObject [(''proxy_type'', JString t), (''total'', jnat n)]) (sp_proxy_type_counts st)))]"

definition proxy_record_json :: "proxy_record \<Rightarrow> json" where
  "proxy_record_json r =
     JObject [(''run_id'', JString (rec_run_id r)), (''proxy_name'', JString (rec_proxy_name r)),
       (''proxy_type'', JString (rec_proxy_type r)), (''remote_addr'', JString (rec_remote_addr r))]"

definition control_record_json :: "control_record \<Rightarrow> json" where
  "control_record_json r =
     JObject [(''run_id'', JString (cr_run_id r)), (''client_id'', JString (cr_client_id r)),
       (''peer_addr'', JString (cr_peer_addr r)), (''hostname'', JString (cr_hostname r)),
       (''os'', JString (cr_os r)), (''arch'', JString (cr_arch r)), (''user'', JString (cr_user r)),
       (''pool_count'', jnat (unat (cr_pool_count r)))]"

definition xtcp_event_json :: "xtcp_event \<Rightarrow> json" where
  "xtcp_event_json e =
     JObject [(''stage'', JString (xe_stage e)), (''proxy_name'', JString (xe_proxy_name e)),
       (''visitor_run_id'', JString (xe_visitor_run_id e)), (''owner_run_id'', JString (xe_owner_run_id e)),
       (''visitor_addr'', JString (xe_visitor_addr e)), (''client_addr'', JString (xe_client_addr e)),
       (''relay_addr'', JString (xe_relay_addr e)), (''error'', JString (xe_error e))]"

definition action_json :: "bool \<Rightarrow> string \<Rightarrow> json" where
  "action_json ok message = JObject [(''ok'', JBool ok), (''message'', JString message)]"

definition items_json :: "json list \<Rightarrow> json" where
  "items_json items = JObject [(''total'', jnat (length items)), (''items'', JArray items)]"

definition readyz :: "walk \<Rightarrow> i64 \<Rightarrow> server \<Rightarrow> json" where
  "readyz wk started sr =
     JObject [(''ready'', JBool (active_ready wk started sr)), (''active_controls'', jnat (controls_count wk sr)),
       (''active_proxies'', jnat (proxies_count wk sr))]"

definition web_api_proxies :: "walk \<Rightarrow> server \<Rightarrow> json" where
  "web_api_proxies wk sr = items_json (map proxy_record_json (list_records (wk_keys wk) (sr_pm sr)))"

definition web_api_proxy_detail :: "walk \<Rightarrow> string \<Rightarrow> server \<Rightarrow> nat \<times> json" where
  "web_api_proxy_detail wk name sr =
     (case get_record (wk_keys wk) name (sr_pm sr) of
        Some r \<Rightarrow> (200, proxy_record_json r)
      | None \<Rightarrow> (404, action_json False (''proxy '' @ name @ '' not found'')))"

definition api_clients :: "walk \<Rightarrow> server \<Rightarrow> json" where
  "api_clients wk sr = items_json (map control_record_json (list_controls (wk_controls wk) sr))"

definition api_client_detail :: "string \<Rightarrow> server \<Rightarrow> nat \<times> json" where
  "api_client_detail run_id sr =
     (case get_control_record run_id sr of
        None \<Rightarrow> (404, action_json False (''client '' @ run_id @ '' not found''))
      | Some client \<Rightarrow>
          let (pending, idle) = (case get_control_queue_stats run_id sr of None \<Rightarrow> (0, 0) | Some x \<Rightarrow> x)
          in (200, JObject [(''client'', control_record_json client), (''pending_work_connections'', jnat pending),
                (''idle_work_connections'', jnat idle)]))"

definition api_client_shutdown :: "string \<Rightarrow> server \<Rightarrow> (nat \<times> json) \<times> server" where
  "api_client_shutdown run_id sr =
     (if controls_get run_id sr = None then
        ((404, action_json False (''client '' @ run_id @ '' not found'')), sr)
      else ((200, action_json True (''shutdown requested for '' @ run_id)), shutdown_run run_id sr))"

definition api_xtcp_events :: "server \<Rightarrow> json" where
  "api_xtcp_events sr = items_json (map xtcp_event_json (recent_events sr))"

subsection \<open>Pages\<close>

abbreviation newline :: string where
  "newline \<equiv> [CHR 0x0A]"

definition metric_line :: "string \<Rightarrow> string \<Rightarrow> string" where
  "metric_line name v = name @ '' '' @ v @ newline"

definition proxy_metric_line :: "string \<Rightarrow> string \<Rightarrow> string \<Rightarrow> string" where
  "proxy_metric_line name proxy v = name @ ''{proxy='' @ [CHR 0x22] @ proxy @ [CHR 0x22] @ ''} '' @ v @ newline"

abbreviation u64_text :: "u64 \<Rightarrow> string" where
  "u64_text w \<equiv> show_nat (unat w)"

definition metrics_page :: "walk \<Rightarrow> i64 \<Rightarrow> proxy_metrics_map \<Rightarrow> server \<Rightarrow> string" where
  "metrics_page wk started pmts sr =
     (let status = status_snapshot wk started sr; mt = sr_metrics sr in
      concat
        ([metric_line ''arp_active_controls'' (show_nat (sp_active_controls status)),
          metric_line ''arp_active_proxies'' (show_nat (sp_active_proxies status)),
          metric_line ''arp_pending_work_connections'' (show_nat (sp_pending_work_connections status)),
          metric_line ''arp_idle_work_connections'' (show_nat (sp_idle_work_connections status)),
          metric_line ''arp_incoming_connections_total'' (u64_text (mt_incoming_connections_total mt)),
          metric_line ''arp_work_connections_total'' (u64_text (mt_work_connections_total mt)),
          metric_line ''arp_tcp_proxy_connections_total'' (u64_text (mt_tcp_proxy_connections_total mt)),
          metric_line ''arp_tcp_proxy_errors_total'' (u64_text (mt_tcp_proxy_errors_total mt)),
          metric_line ''arp_tcp_mux_streams_opened_total'' (u64_text (mt_tcp_mux_streams_opened_total mt)),
          metric_line ''arp_tcp_bytes_in_total'' (u64_text (mt_tcp_bytes_in_total mt)),
          metric_line ''arp_tcp_bytes_out_total'' (u64_text (mt_tcp_bytes_out_total mt)),
          metric_line ''arp_auth_failures_total'' (u64_text (mt_auth_failures_total mt)),
          metric_line ''arp_proxy_registrations_total'' (u64_text (mt_proxy_registrations_total mt)),
          metric_line ''arp_proxy_registration_failures_total'' (u64_text (mt_proxy_registration_failures_total mt)),
          metric_line ''arp_req_work_conn_total'' (u64_text (mt_req_work_conn_total mt)),
          metric_line ''arp_idle_work_conn_hits_total'' (u64_text (mt_idle_work_conn_hits_total mt)),
          metric_line ''arp_xtcp_visitor_requests_total'' (u64_text (mt_xtcp_visitor_requests_total mt)),
          metric_line ''arp_xtcp_sk_mismatch_total'' (u64_text (mt_xtcp_sk_mismatch_total mt)),
          metric_line ''arp_xtcp_owner_not_found_total'' (u64_text (mt_xtcp_owner_not_found_total mt)),
          metric_line ''arp_xtcp_owner_offline_total'' (u64_text (mt_xtcp_owner_offline_total mt)),
          metric_line ''arp_xtcp_owner_requests_forwarded_total'' (u64_text (mt_xtcp_owner_requests_forwarded_total mt)),
          metric_line ''arp_xtcp_responses_forwarded_total'' (u64_text (mt_xtcp_responses_forwarded_total mt))]
         @ map (\<lambda>(name, pm).
             proxy_metric_line ''arp_proxy_bytes_in'' name (u64_text (pmt_bytes_in pm))
             @ proxy_metric_line ''arp_proxy_bytes_out'' name (u64_text (pmt_bytes_out pm))
             @ proxy_metric_line ''arp_proxy_connections_total'' name (u64_text (pmt_connections_total pm))
             @ proxy_metric_line ''arp_proxy_connections_active'' name (show_int (sint (pmt_connections_active pm)))
             @ proxy_metric_line ''arp_proxy_errors'' name (u64_text (pmt_errors pm)))
           (list_proxy_metrics (wk_metrics wk) pmts)))"

definition in_code :: "string \<Rightarrow> string" where
  "in_code s = ''<code>'' @ s @ ''</code>''"

definition render_type_counts :: "(string \<times> nat) list \<Rightarrow> string" where
  "render_type_counts items =
     (if items = [] then ''<li>none</li>''
      else concat (map (\<lambda>(t, n). ''<li>'' @ in_code t @ '': '' @ show_nat n @ ''</li>'') items))"

definition render_xtcp_events :: "xtcp_event list \<Rightarrow> string" where
  "render_xtcp_events items =
     (if items = [] then ''<li>none</li>''
      else concat (map (\<lambda>e. ''<li>'' @ in_code (xe_stage e) @ '' proxy='' @ in_code (xe_proxy_name e)
              @ '' visitor='' @ in_code (xe_visitor_addr e) @ '' relay='' @ in_code (xe_relay_addr e)
              @ '' err='' @ in_code (xe_error e) @ ''</li>'') (take 8 (rev items))))"

definition dashboard :: \<open>walk \<Rightarrow> i64 \<Rightarrow> server \<Rightarrow> string\<close> where
  \<open>dashboard wk started sr =
     (let status = status_snapshot wk started sr in
      sep_by newline
       [''<!doctype html>'',
        ''<html>'',
        ''<head>'',
        ''  <meta charset="utf-8">'',
        ''  <title>ARP Dashboard</title>'',
        ''  <style>'',
        ''    body { font-family: Menlo, monospace; margin: 32px; background: #f6f7fb; color: #222; }'',
        ''    .grid { display: grid; gap: 16px; max-width: 1100px; }'',
        ''    .card { background: #fff; border: 1px solid #d9dce5; border-radius: 10px; padding: 16px; }'',
        ''    h1, h2 { margin-top: 0; }'',
        ''    .num { font-size: 28px; font-weight: 700; }'',
        ''    code { background: #f3f4f8; padding: 1px 4px; border-radius: 4px; }'',
        ''    ul { padding-left: 18px; }'',
        ''  </style>'',
        ''</head>'',
        ''<body>'',
        ''  <div class="grid">'',
        ''    <div class="card">'',
        ''      <h1>ARP Dashboard</h1>'',
        ''      <p>Protocol: <code>'' @ sp_transport_protocol status @ ''</code></p>'',
        ''      <p>Server Bind: <code>'' @ sp_bind_addr status @ '':'' @ show_nat (unat (sp_bind_port status)) @ ''</code></p>'',
        ''      <p>Active Controls: <span class="num">'' @ show_nat (sp_active_controls status) @ ''</span></p>'',
        ''      <p>Active Proxies: <span class="num">'' @ show_nat (sp_active_proxies status) @ ''</span></p>'',
        ''      <p>Pending Work Connections: <span class="num">'' @ show_nat (sp_pending_work_connections status) @ ''</span></p>'',
        ''      <p>Idle Work Connections: <span class="num">'' @ show_nat (sp_idle_work_connections status) @ ''</span></p>'',
        ''      <p>Admin API: <a href="/api/v1/status">/api/v1/status</a>, <a href="/api/v1/proxies">/api/v1/proxies</a>, <a href="/api/v1/clients">/api/v1/clients</a></p>'',
        ''    </div>'',
        ''    <div class="card">'',
        ''      <h2>Proxy Types</h2>'',
        ''      <ul>'' @ render_type_counts (sp_proxy_type_counts status) @ ''</ul>'',
        ''    </div>'',
        ''    <div class="card">'',
        ''      <h2>Recent XTCP Events</h2>'',
        ''      <ul>'' @ render_xtcp_events (recent_events sr) @ ''</ul>'',
        ''    </div>'',
        ''  </div>'',
        ''</body>'',
        ''</html>''])\<close>

subsection \<open>What the numbers mean\<close>

lemma length_map_filter: "(\<forall>x \<in> set xs. f x \<noteq> None) \<Longrightarrow> length (List.map_filter f xs) = length xs"
  by (induction xs) (auto simp: List.map_filter_simps split: option.splits)

lemma walk_counts:
  assumes "server_reachable pf sr" "walk_ok wk sr"
  shows "controls_count wk sr = card (sr_controls sr)"
    and "proxies_count wk sr = card (dom (pm_proxies (sr_pm sr)))"
    and "dom (pm_records (sr_pm sr)) = dom (pm_proxies (sr_pm sr))"
proof -
  have inv: "sr_controls sr \<subseteq> dom (sr_sessions sr)" "manager_inv (sr_pm sr)"
    using server_reachable_inv [OF assms(1)] by (simp_all add: server_inv_def)
  show "controls_count wk sr = card (sr_controls sr)"
    using inv(1) assms(2) unfolding controls_count_def walk_ok_def
    by (subst length_map_filter) (auto simp: controls_get_def distinct_card [symmetric])
  show "proxies_count wk sr = card (dom (pm_proxies (sr_pm sr)))"
    using assms(2) unfolding proxies_count_def walk_ok_def
    by (subst length_map_filter) (auto simp: distinct_card [symmetric])
  show "dom (pm_records (sr_pm sr)) = dom (pm_proxies (sr_pm sr))"
    using inv(2) by (simp add: manager_inv_def)
qed

lemma count_types:
  assumes "distinct ks" "\<forall>k \<in> set ks. recs k \<noteq> None"
  shows "count_list (map rec_proxy_type (List.map_filter recs ks)) t =
    card {k \<in> set ks. \<exists>r. recs k = Some r \<and> rec_proxy_type r = t}"
  using assms
proof (induction ks)
  case (Cons k ks)
  then obtain r where r: "recs k = Some r" by auto
  have "{j \<in> set (k # ks). \<exists>r. recs j = Some r \<and> rec_proxy_type r = t} =
      (if rec_proxy_type r = t then insert k {j \<in> set ks. \<exists>r. recs j = Some r \<and> rec_proxy_type r = t}
       else {j \<in> set ks. \<exists>r. recs j = Some r \<and> rec_proxy_type r = t})"
    using r by auto
  with Cons r show ?case by (simp add: List.map_filter_simps)
qed (simp add: List.map_filter_simps)

text \<open>
  What the status shows. In every reachable state the two totals are the sizes of the tables of clients and of
  proxies, a type is listed exactly if there is a proxy of that type, with the number of them, and these numbers
  add up to the total of proxies.
\<close>

theorem status_exact:
  fixes started :: i64
  assumes "server_reachable pf sr" "walk_ok wk sr"
  defines "st \<equiv> status_snapshot wk started sr"
    and "of_type \<equiv> \<lambda>t. {k. \<exists>r. pm_records (sr_pm sr) k = Some r \<and> rec_proxy_type r = t}"
  shows "sp_active_controls st = card (sr_controls sr) \<and>
    sp_active_proxies st = card (dom (pm_proxies (sr_pm sr))) \<and>
    (\<forall>t n. (t, n) \<in> set (sp_proxy_type_counts st) \<longleftrightarrow> of_type t \<noteq> {} \<and> n = card (of_type t)) \<and>
    sum_list (map snd (sp_proxy_type_counts st)) = sp_active_proxies st"
proof -
  note W = walk_counts [OF assms(1,2)]
  let ?recs = "pm_records (sr_pm sr)"
  define types where "types = map rec_proxy_type (List.map_filter ?recs (wk_keys wk))"
  have keys: "distinct (wk_keys wk)" "set (wk_keys wk) = dom ?recs" using assms(2) W(3) by (simp_all add: walk_ok_def)
  have "{k \<in> set (wk_keys wk). \<exists>r. ?recs k = Some r \<and> rec_proxy_type r = t} = of_type t" for t
    using keys(2) by (auto simp: of_type_def)
  then have count: "count_list types t = card (of_type t)" for t
    using count_types [of "wk_keys wk" ?recs t] keys by (simp add: types_def domIff)
  have types: "t \<in> set types \<longleftrightarrow> of_type t \<noteq> {}" for t
    using keys(2) by (force simp: types_def of_type_def set_map_filter_iff)
  have st: "sp_proxy_type_counts st = map (\<lambda>t. (t, count_list types t)) (sort (remdups types))"
    by (simp add: st_def status_snapshot_def count_by_type_def types_def Let_def split: prod.splits)
  have "sum_list (map snd (sp_proxy_type_counts st)) = sum_list (map (count_list types) (sort (remdups types)))"
    by (simp add: st comp_def)
  also have "\<dots> = sum (count_list types) (set types)"
    by (subst sum_list_distinct_conv_sum_set) simp_all
  also have "\<dots> = length types" by (rule sum_count_set) simp_all
  also have "\<dots> = proxies_count wk sr"
  proof -
    have "\<forall>k \<in> set (wk_keys wk). ?recs k \<noteq> None" "\<forall>k \<in> set (wk_keys wk). pm_proxies (sr_pm sr) k \<noteq> None"
      using keys(2) W(3) by auto
    then show ?thesis by (simp add: types_def proxies_count_def length_map_filter)
  qed
  finally have "sum_list (map snd (sp_proxy_type_counts st)) = proxies_count wk sr" .
  moreover have "sp_active_controls st = controls_count wk sr" "sp_active_proxies st = proxies_count wk sr"
    by (simp_all add: st_def status_snapshot_def Let_def split: prod.splits)
  moreover have "(t, n) \<in> set (sp_proxy_type_counts st) \<longleftrightarrow> t \<in> set types \<and> n = count_list types t" for t n
    by (auto simp: st)
  ultimately show ?thesis unfolding W(1,2) count types by simp
qed

theorem status_exact_witness:
  "sp_active_controls (status_snapshot \<lparr>wk_controls = [''u1''], wk_keys = [''u1:web''], wk_metrics = []\<rparr> 0 demo_sr2) = 1 \<and>
   sp_active_proxies (status_snapshot \<lparr>wk_controls = [''u1''], wk_keys = [''u1:web''], wk_metrics = []\<rparr> 0 demo_sr2) = 1"
proof -
  have "walk_ok \<lparr>wk_controls = [''u1''], wk_keys = [''u1:web''], wk_metrics = []\<rparr> demo_sr2"
    by (simp add: walk_ok_def demo_sr2_eq)
  from status_exact [OF demo_sr2_reachable this, of 0] show ?thesis by (simp add: demo_sr2_eq)
qed

subsection \<open>Shutting down\<close>

text \<open>A session that is no longer in the table has been told to end.\<close>

definition told_to_end :: "server \<Rightarrow> bool" where
  "told_to_end sr \<longleftrightarrow> (\<forall>r c. sr_sessions sr r = Some c \<and> r \<notin> sr_controls sr \<longrightarrow> ct_cancelled c)"

lemma told_to_end_shutdown: "told_to_end sr \<Longrightarrow> told_to_end (shutdown_run r sr)"
  by (auto simp: told_to_end_def shutdown_run_def controls_get_def control_shutdown_def split: option.splits if_splits)

lemma told_to_end_update:
  "told_to_end sr \<Longrightarrow> sr_sessions sr r = Some c \<Longrightarrow> ct_cancelled c' = ct_cancelled c \<Longrightarrow>
   sr_sessions sr' = (sr_sessions sr)(r \<mapsto> c') \<Longrightarrow> sr_controls sr' = sr_controls sr \<Longrightarrow> told_to_end sr'"
  by (auto simp: told_to_end_def split: if_splits)

lemma take_over_told:
  "take_over en c name sr = Inr sr' \<Longrightarrow> told_to_end sr \<Longrightarrow> told_to_end sr'"
proof -
  assume t: "take_over en c name sr = Inr sr'" and i: "told_to_end sr"
  have pm: "told_to_end (sr\<lparr>sr_pm := pm\<rparr>)" for pm using i by (simp add: told_to_end_def)
  from t i pm told_to_end_shutdown [OF pm] show ?thesis
    by (auto simp: take_over_def split: option.splits if_splits prod.splits)
qed

lemma handle_message_told:
  assumes "told_to_end sr"
  shows "told_to_end (snd (handle_message pf en c msg sr))"
proof (cases msg)
  case (NewProxy m)
  then show ?thesis
  proof (cases "take_over en c (np_proxy_name m) sr")
    case (Inr sr1)
    from take_over_told [OF Inr assms] Inr NewProxy show ?thesis
      by (simp add: told_to_end_def handle_message_def handle_new_proxy_def reply_def Let_def split: sum.split prod.split)
  qed (use assms in \<open>simp add: handle_message_def handle_new_proxy_def reply_def Let_def\<close>)
next
  case (NatHoleVisitor m)
  with nathole_frame(1,2) [of "en_post en" "ct_run_id c" m sr] assms show ?thesis
    by (auto simp: told_to_end_def handle_message_def handle_nathole_visitor_def
        split: prod.splits sum.splits option.splits)
next
  case (NatHoleResp m)
  with nathole_frame(7,8) [of "en_post en" "ct_run_id c" m sr] assms show ?thesis
    by (simp add: told_to_end_def handle_message_def handle_nathole_resp_def)
qed (use assms in \<open>simp_all add: told_to_end_def handle_message_def handle_close_proxy_def handle_ping_def
    verify_ping_def reply_def Let_def\<close>)

lemma server_step_told: "server_step pf sr sr' \<Longrightarrow> told_to_end sr \<Longrightarrow> told_to_end sr'"
proof (induction rule: server_step.induct)
  case (login sr run_id en tx msg peer)
  then show ?case
    by (auto simp: login_begin_def told_to_end_def controls_add_def Let_def split: sum.splits)
next
  case (event en sr run_id ev)
  have w: "ct_cancelled (fst (snd (handle_work_conn_request waits send req c mt))) = ct_cancelled c" for waits send req c mt
    by (simp add: handle_work_conn_request_def Let_def split: sum.split)
  show ?case
  proof (cases "sr_sessions sr run_id")
    case (Some c)
    have "told_to_end (snd (control_step pf en run_id (WorkRequest (Some req)) sr))" for req
      using w [of "en_waits en" "en_send en" req c "sr_metrics sr"] Some
      by (intro told_to_end_update [OF event(2) Some]) (auto simp: control_step_def case_prod_unfold)
    moreover have "told_to_end (snd (control_step pf en run_id (Received (Inr (Some msg))) sr))" for msg
      using handle_message_told [OF event(2)] Some by (simp add: control_step_def case_prod_unfold)
    ultimately show ?thesis
      using event(2) Some by (auto simp: control_step_def split: control_event.splits sum.splits option.splits)
  qed (use event in \<open>simp add: control_step_def\<close>)
next
  case (session_end en sr run_id c)
  then show ?case by (auto simp: told_to_end_def login_end_def controls_remove_def Let_def)
next
  case (work_conn sr en transport msg)
  have w: "ct_cancelled (snd (handle_work_conn waits x c)) = ct_cancelled c" for waits x c
    by (simp add: handle_work_conn_def split: list.split)
  show ?case
    using work_conn w [of "en_waits en" transport]
    by (auto simp: told_to_end_def handle_new_work_conn_def controls_get_def Let_def
        split: sum.splits option.splits prod.splits if_splits)
next
  case (admin_shutdown sr run_id)
  then show ?case by (rule told_to_end_shutdown)
qed (simp_all add: told_to_end_def)

lemma server_reachable_told: "server_reachable pf sr \<Longrightarrow> told_to_end sr"
proof -
  assume "server_reachable pf sr"
  then obtain tls config sr0 where n: "service_new pf tls config = Inr sr0" and s: "(server_step pf)\<^sup>*\<^sup>* sr0 sr"
    unfolding server_reachable_def by blast
  from n have "told_to_end sr0"
    by (auto simp: service_new_def told_to_end_def Let_def split: sum.splits if_splits)
  with s show ?thesis by (induction rule: rtranclp_induct) (simp_all add: server_step_told)
qed

text \<open>
  When the server reports that it is not ready. In every reachable state the probe says no exactly if there are
  proxies but no client in the table; and then every one of these proxies belongs to a session that has already
  been told to end, so a server with a client that serves its proxies is always ready.
\<close>

theorem readiness_exact:
  assumes "server_reachable pf sr" "walk_ok wk sr"
  shows "(\<not> active_ready wk started sr \<longleftrightarrow> sr_controls sr = {} \<and> dom (pm_proxies (sr_pm sr)) \<noteq> {}) \<and>
    (\<not> active_ready wk started sr \<longrightarrow>
      (\<forall>k r. pm_records (sr_pm sr) k = Some r \<longrightarrow>
        (\<exists>c. sr_sessions sr (rec_run_id r) = Some c \<and> ct_cancelled c)))"
proof -
  have fin: "finite (sr_controls sr)" "finite (dom (pm_proxies (sr_pm sr)))"
    using assms(2) by (metis walk_ok_def List.finite_set)+
  have "active_ready wk started sr \<longleftrightarrow> controls_count wk sr > 0 \<or> proxies_count wk sr = 0"
    by (simp add: active_ready_def status_snapshot_def Let_def split: prod.splits)
  then have not: "\<not> active_ready wk started sr \<longleftrightarrow> sr_controls sr = {} \<and> dom (pm_proxies (sr_pm sr)) \<noteq> {}"
    using walk_counts(1,2) [OF assms] fin by (auto simp: card_gt_0_iff card_eq_0_iff)
  have "\<exists>c. sr_sessions sr (rec_run_id r) = Some c \<and> ct_cancelled c"
    if "sr_controls sr = {}" "pm_records (sr_pm sr) k = Some r" for k r
    using server_reachable_inv [OF assms(1)] server_reachable_told [OF assms(1)] that
    unfolding server_inv_def authorised_def told_to_end_def by blast
  with not show ?thesis by blast
qed

theorem readiness_exact_witness:
  "active_ready \<lparr>wk_controls = [''u1''], wk_keys = [''u1:web''], wk_metrics = []\<rparr> 0 demo_sr2"
proof -
  have "walk_ok \<lparr>wk_controls = [''u1''], wk_keys = [''u1:web''], wk_metrics = []\<rparr> demo_sr2"
    by (simp add: walk_ok_def demo_sr2_eq)
  from readiness_exact [OF demo_sr2_reachable this, of 0] show ?thesis by (auto simp: demo_sr2_eq)
qed

text \<open>
  What a shutdown request does, for anyone who can reach the interface. If the client is in the table, the
  session is taken out of it and told to end, a second request finds nothing, and every other session, every proxy
  and every port stays as it is; otherwise nothing changes.
\<close>

theorem shutdown_request_exact:
  assumes "api_client_shutdown run_id sr = ((code, body), sr')"
  shows "(code = 200 \<longleftrightarrow> controls_get run_id sr \<noteq> None) \<and> (code \<noteq> 200 \<longrightarrow> code = 404 \<and> sr' = sr) \<and>
    controls_get run_id sr' = None \<and> fst (fst (api_client_shutdown run_id sr')) = 404 \<and>
    (code = 200 \<longrightarrow> (\<exists>c. sr_sessions sr' run_id = Some c \<and> ct_cancelled c)) \<and>
    (\<forall>r. r \<noteq> run_id \<longrightarrow> controls_get r sr' = controls_get r sr) \<and> sr_pm sr' = sr_pm sr"
  using assms
  by (auto simp: api_client_shutdown_def shutdown_run_def controls_get_def control_shutdown_def
      split: if_splits option.splits)

theorem shutdown_request_exact_witness:
  "fst (fst (api_client_shutdown ''u1'' (snd (api_client_shutdown ''u1'' demo_sr2)))) = 404 \<and>
   sr_pm (snd (api_client_shutdown ''u1'' demo_sr2)) = sr_pm demo_sr2"
proof -
  obtain code body sr' where r: "api_client_shutdown ''u1'' demo_sr2 = ((code, body), sr')"
    by (metis prod.exhaust)
  from shutdown_request_exact [OF r] show ?thesis by (simp add: r)
qed

end
