(* ===== verification/WebRoutes.thy ===== *)
theory WebRoutes
  imports Web
begin

text \<open>
  The router of the server's administration interface and its stream of audit events
  (\<^verbatim>\<open>start_admin_server\<close>, \<^verbatim>\<open>healthz\<close> and \<^verbatim>\<open>api_events_stream\<close> of \<^verbatim>\<open>arp-server/src/web/mod.rs\<close>,
  \<^verbatim>\<open>subscribe\<close> of \<^verbatim>\<open>audit.rs\<close>). A path is the list of its segments.
\<close>

subsection \<open>Routes\<close>

datatype web_method = Get | Head | Post | OtherMethod

datatype web_call =
    CallDashboard
  | CallHealthz
  | CallReadyz
  | CallMetrics
  | CallStatus
  | CallProxies
  | CallProxy string
  | CallClients
  | CallClient string
  | CallShutdown string
  | CallXtcpEvents
  | CallEventStream

text \<open>The handler of a path and the method it is registered for.\<close>

definition web_path :: "string list \<Rightarrow> (web_method \<times> web_call) option" where
  "web_path path =
     (if path = [] then Some (Get, CallDashboard)
      else if path = [''healthz''] then Some (Get, CallHealthz)
      else if path = [''readyz''] then Some (Get, CallReadyz)
      else if path = [''metrics''] then Some (Get, CallMetrics)
      else if take 2 path \<noteq> [''api'', ''v1''] then None
      else
        case drop 2 path of
          [a] \<Rightarrow>
            if a = ''status'' then Some (Get, CallStatus)
            else if a = ''proxies'' then Some (Get, CallProxies)
            else if a = ''clients'' then Some (Get, CallClients)
            else None
        | [a, b] \<Rightarrow>
            if a = ''proxies'' \<and> b \<noteq> [] then Some (Get, CallProxy b)
            else if a = ''clients'' \<and> b \<noteq> [] then Some (Get, CallClient b)
            else if a = ''xtcp'' \<and> b = ''events'' then Some (Get, CallXtcpEvents)
            else if a = ''events'' \<and> b = ''stream'' then Some (Get, CallEventStream)
            else None
        | [a, b, c] \<Rightarrow>
            if a = ''clients'' \<and> b \<noteq> [] \<and> c = ''shutdown'' then Some (Post, CallShutdown b) else None
        | _ \<Rightarrow> None)"

datatype web_reply = ReplyText string | ReplyHtml string | ReplyJson nat json | ReplyStream

definition web_handle ::
  "walk \<Rightarrow> i64 \<Rightarrow> proxy_metrics_map \<Rightarrow> web_call \<Rightarrow> server \<Rightarrow> web_reply \<times> server" where
  "web_handle wk started pmts call sr =
     (case call of
        CallDashboard \<Rightarrow> (ReplyHtml (dashboard wk started sr), sr)
      | CallHealthz \<Rightarrow> (ReplyText ''ok'', sr)
      | CallReadyz \<Rightarrow> (ReplyJson 200 (readyz wk started sr), sr)
      | CallMetrics \<Rightarrow> (ReplyText (metrics_page wk started pmts sr), sr)
      | CallStatus \<Rightarrow> (ReplyJson 200 (status_json (status_snapshot wk started sr)), sr)
      | CallProxies \<Rightarrow> (ReplyJson 200 (web_api_proxies wk sr), sr)
      | CallProxy name \<Rightarrow> (case web_api_proxy_detail wk name sr of (code, body) \<Rightarrow> (ReplyJson code body, sr))
      | CallClients \<Rightarrow> (ReplyJson 200 (api_clients wk sr), sr)
      | CallClient run_id \<Rightarrow> (case api_client_detail run_id sr of (code, body) \<Rightarrow> (ReplyJson code body, sr))
      | CallShutdown run_id \<Rightarrow> (case api_client_shutdown run_id sr of ((code, body), sr) \<Rightarrow> (ReplyJson code body, sr))
      | CallXtcpEvents \<Rightarrow> (ReplyJson 200 (api_xtcp_events sr), sr)
      | CallEventStream \<Rightarrow> (ReplyStream, sr))"

text \<open>
  A path that is not there is answered with 404, another method than that of the path with 405; a \<^verbatim>\<open>HEAD\<close> is
  handled like a \<^verbatim>\<open>GET\<close>.
\<close>

definition web_serve ::
  "walk \<Rightarrow> i64 \<Rightarrow> proxy_metrics_map \<Rightarrow> web_method \<Rightarrow> string list \<Rightarrow> server \<Rightarrow> (nat + web_reply) \<times> server" where
  "web_serve wk started pmts meth path sr =
     (case web_path path of
        None \<Rightarrow> (Inl 404, sr)
      | Some (m, call) \<Rightarrow>
          if m \<noteq> meth \<and> \<not> (m = Get \<and> meth = Head) then (Inl 405, sr)
          else case web_handle wk started pmts call sr of (r, sr) \<Rightarrow> (Inr r, sr))"

subsection \<open>The stream of events\<close>

text \<open>
  A subscriber reads the log of events from its position on. The channel keeps the last 256: a subscriber that is
  further behind is told how many it has missed and goes on with the oldest that is kept.
\<close>

datatype stream_item = StreamEvent audit_event | StreamLagged nat

definition bus_capacity :: nat where
  "bus_capacity = 256"

definition stream_next :: "audit_event list \<Rightarrow> nat \<Rightarrow> (stream_item \<times> nat) option" where
  "stream_next log pos =
     (if length log \<le> pos then None
      else if length log - pos > bus_capacity then
        Some (StreamLagged (length log - bus_capacity - pos), length log - bus_capacity)
      else Some (StreamEvent (log ! pos), pos + 1))"

definition stream_data :: "(audit_event \<Rightarrow> string) \<Rightarrow> stream_item \<Rightarrow> string" where
  "stream_data ser item =
     (case item of
        StreamEvent e \<Rightarrow> ser e
      | StreamLagged n \<Rightarrow>
          ''{'' @ [CHR 0x22] @ ''event'' @ [CHR 0x22] @ '':'' @ [CHR 0x22] @ ''lagged'' @ [CHR 0x22] @ '',''
          @ [CHR 0x22] @ ''missed'' @ [CHR 0x22] @ '':'' @ show_nat n @ ''}'')"

text \<open>What a subscriber gets when the log is \<open>logs ! 0\<close>, \<open>logs ! 1\<close>, ... at its turns.\<close>

fun api_events_stream :: "audit_event list list \<Rightarrow> nat \<Rightarrow> stream_item list \<times> nat" where
  "api_events_stream [] pos = ([], pos)"
| "api_events_stream (log # logs) pos =
     (case stream_next log pos of
        None \<Rightarrow> api_events_stream logs pos
      | Some (item, pos) \<Rightarrow> (case api_events_stream logs pos of (items, pos) \<Rightarrow> (item # items, pos)))"

subsection \<open>Claims\<close>

lemma web_path_shutdown:
  assumes "web_path path = Some (m, CallShutdown run_id)"
  shows "m = Post \<and> path = [''api'', ''v1'', ''clients'', run_id, ''shutdown'']"
proof -
  from assms have "m = Post" "take 2 path = [''api'', ''v1'']" "drop 2 path = [''clients'', run_id, ''shutdown'']"
    by (auto simp: web_path_def split: if_splits list.splits)
  with append_take_drop_id [of 2 path] show ?thesis by simp
qed

lemma web_handle_state:
  "snd (web_handle wk started pmts call sr) =
     (case call of CallShutdown run_id \<Rightarrow> if controls_get run_id sr = None then sr else shutdown_run run_id sr | _ \<Rightarrow> sr)"
  by (cases call) (simp_all add: web_handle_def api_client_shutdown_def split: prod.split)

text \<open>
  C38: The interface only looks, with one exception. Whatever is requested, by whatever method, the server's state
  stays as it is, unless the request is a \<^verbatim>\<open>POST\<close> to the shutdown path of a client that is in the table; then
  exactly that session is told to end. Every request leads from a reachable state to a reachable state.
\<close>

theorem web_changes_only_by_shutdown:
  assumes "web_serve wk started pmts meth path sr = (r, sr')"
  shows "(sr' = sr \<or> (\<exists>run_id. meth = Post \<and> path = [''api'', ''v1'', ''clients'', run_id, ''shutdown''] \<and>
      controls_get run_id sr \<noteq> None \<and> sr' = shutdown_run run_id sr)) \<and>
    (server_reachable pf sr \<longrightarrow> server_reachable pf sr')"
proof -
  have c: "sr' = sr \<or> (\<exists>run_id. meth = Post \<and> path = [''api'', ''v1'', ''clients'', run_id, ''shutdown''] \<and>
      controls_get run_id sr \<noteq> None \<and> sr' = shutdown_run run_id sr)"
  proof (cases "sr' = sr")
    case False
    then obtain m call where p: "web_path path = Some (m, call)" "m = meth \<or> m = Get \<and> meth = Head"
      "sr' = snd (web_handle wk started pmts call sr)"
      using assms by (auto simp: web_serve_def split: option.splits prod.splits if_splits)
    with False obtain run_id where r: "call = CallShutdown run_id" "controls_get run_id sr \<noteq> None" "sr' = shutdown_run run_id sr"
      by (auto simp: web_handle_state split: web_call.splits if_splits)
    with web_path_shutdown [of path m run_id] p show ?thesis by auto
  qed simp
  then show ?thesis by (auto intro: server_reachable_step [OF _ server_step.admin_shutdown])
qed

theorem web_changes_only_by_shutdown_witness:
  "snd (web_serve \<lparr>wk_controls = [''u1''], wk_keys = [], wk_metrics = []\<rparr> 0 Map.empty Get [''api'', ''v1'', ''clients'', ''u1'', ''shutdown''] demo_sr2) = demo_sr2"
proof -
  obtain r sr' where w: "web_serve \<lparr>wk_controls = [''u1''], wk_keys = [], wk_metrics = []\<rparr> 0 Map.empty Get [''api'', ''v1'', ''clients'', ''u1'', ''shutdown''] demo_sr2 = (r, sr')"
    by (metis surj_pair)
  from web_changes_only_by_shutdown [OF w] show ?thesis by (simp add: w)
qed

text \<open>Replaying what a subscriber got against the log of all events.\<close>

fun accounted :: "audit_event list \<Rightarrow> nat \<Rightarrow> stream_item list \<Rightarrow> nat option" where
  "accounted log pos [] = Some pos"
| "accounted log pos (StreamEvent e # items) =
     (if pos < length log \<and> log ! pos = e then accounted log (pos + 1) items else None)"
| "accounted log pos (StreamLagged n # items) = (if n > 0 then accounted log (pos + n) items else None)"

lemma stream_next_accounted:
  assumes "stream_next l pos = Some (item, pos')" "prefix l log"
  shows "accounted log pos (item # items) = accounted log pos' items"
  using assms by (auto simp: stream_next_def prefix_def nth_append split: if_splits)

lemma stream_catches_up:
  "length log - pos \<le> bus_capacity \<Longrightarrow> pos \<le> length log \<Longrightarrow> length log - pos \<le> n \<Longrightarrow>
   snd (api_events_stream (replicate n log) pos) = length log"
proof (induction n arbitrary: pos)
  case (Suc n)
  show ?case
  proof (cases "pos = length log")
    case True
    with Suc.IH [of pos] show ?thesis by (simp add: stream_next_def)
  next
    case False
    with Suc show ?thesis by (simp add: stream_next_def case_prod_unfold)
  qed
qed simp

text \<open>
  A subscriber of the event stream knows what it has missed. Whenever it gets its turns while the log grows, the
  events it is sent and the numbers of missed ones that it is told account for the log from its position on, in
  order and without a gap; and after at most 257 turns without new events it has caught up.
\<close>

theorem event_stream_accounts:
  assumes "\<forall>l \<in> set logs. prefix l log" "api_events_stream logs pos = (items, pos')"
  shows "accounted log pos items = Some pos' \<and>
    (pos \<le> length log \<longrightarrow> snd (api_events_stream (replicate (bus_capacity + 1) log) pos) = length log)"
proof
  show "accounted log pos items = Some pos'"
    using assms
  proof (induction logs arbitrary: pos items)
    case (Cons l logs)
    show ?case
    proof (cases "stream_next l pos")
      case (Some x)
      then obtain item pos1 where n: "stream_next l pos = Some (item, pos1)" by (cases x) auto
      obtain items1 where "api_events_stream logs pos1 = (items1, pos')" "items = item # items1"
        using Cons.prems(2) n by (auto split: prod.splits)
      with Cons n show ?thesis by (simp add: stream_next_accounted)
    qed (use Cons in simp)
  qed simp
  show "pos \<le> length log \<longrightarrow> snd (api_events_stream (replicate (bus_capacity + 1) log) pos) = length log"
  proof
    assume "pos \<le> length log"
    show "snd (api_events_stream (replicate (bus_capacity + 1) log) pos) = length log"
    proof (cases "length log - pos > bus_capacity")
      case True
      then have "stream_next log pos = Some (StreamLagged (length log - bus_capacity - pos), length log - bus_capacity)"
        by (simp add: stream_next_def)
      then have "snd (api_events_stream (replicate (bus_capacity + 1) log) pos) =
          snd (api_events_stream (replicate bus_capacity log) (length log - bus_capacity))"
        by (simp add: case_prod_unfold)
      with True stream_catches_up [of log "length log - bus_capacity" bus_capacity] show ?thesis by simp
    next
      case False
      with \<open>pos \<le> length log\<close> show ?thesis by (intro stream_catches_up) simp_all
    qed
  qed
qed

theorem event_stream_accounts_witness:
  "accounted (replicate 300 (ProxyClosed ''r'' ''p'')) 0
     (fst (api_events_stream [[], replicate 300 (ProxyClosed ''r'' ''p''), replicate 300 (ProxyClosed ''r'' ''p'')] 0)) = Some 45"
proof -
  let ?log = "replicate 300 (ProxyClosed ''r'' ''p'')"
  have e: "api_events_stream [[], ?log, ?log] 0 = ([StreamLagged 44, StreamEvent (ProxyClosed ''r'' ''p'')], 45)"
    by (simp add: stream_next_def bus_capacity_def nth_replicate del: replicate.simps)
  have "\<forall>l \<in> set [[], ?log, ?log]. prefix l ?log" by (simp del: replicate.simps)
  from event_stream_accounts [OF this e] show ?thesis by (simp only: e fst_conv)
qed

end
