(* ===== verification/Spec2Isabelle.thy ===== *)
theory Spec2Isabelle
  imports MessageCodec Relay EndToEnd Streams PublicListeners Programs WebRoutes
begin

text \<open>
  A verification of ARP, a reverse proxy: a client behind a firewall logs in at a public server and
  registers proxies; connections and packets that reach the server are passed to the client over
  work connections that the client opens, and end at a local service. File names below are relative to
  \<^verbatim>\<open>src/crates\<close>.

  \<^bold>\<open>Parts of the program and their theories.\<close>

  \<^item> \<open>Prelude\<close>: machine integers, strings with the operations of \<^verbatim>\<open>std::str\<close>, big-endian numbers, and the
    record \<open>platform\<close> that stands for third-party code.
  \<^item> \<open>Errors\<close> (\<^verbatim>\<open>arp-common/src/error.rs\<close>): errors, and readers and writers that may fail.
  \<^item> \<open>Net\<close>: text form of socket addresses, as \<^verbatim>\<open>std::net\<close> parses and prints it.
  \<^item> \<open>Messages\<close>, \<open>MessageCodec\<close> (\<^verbatim>\<open>arp-common/src/protocol\<close>): the control protocol and its framing.
  \<^item> \<open>Frames\<close>, \<open>Crypto\<close>, \<open>Relay\<close> (\<^verbatim>\<open>arp-common/src/transport\<close>, \<^verbatim>\<open>crypto\<close>): frames of the tunnels, signatures and
    ciphers, the encrypted relay.
  \<^item> \<open>Settings\<close> (\<^verbatim>\<open>arp-common/src/config\<close>): configuration, defaults, validation.
  \<^item> \<open>Authentication\<close> (\<^verbatim>\<open>arp-common/src/auth\<close>): tokens and the rules attached to them.
  \<^item> \<open>Ports\<close> (\<^verbatim>\<open>arp-server/src/resource\<close>): allocation of public ports.
  \<^item> \<open>Sni\<close>, \<open>HttpHost\<close>, \<open>Vhost\<close> (\<^verbatim>\<open>arp-server/src/proxy/vhost.rs\<close>): host names in TLS and HTTP, routing by them.
  \<^item> \<open>WorkConn\<close>, \<open>Backends\<close>, \<open>Tunnels\<close> (\<^verbatim>\<open>arp-server/src/proxy/tcp.rs\<close>, \<^verbatim>\<open>udp.rs\<close>): requests for work connections,
    load-balanced groups, public TCP connections and UDP packets, the tunnels that share a work connection.
  \<^item> \<open>Proxies\<close> (\<^verbatim>\<open>arp-server/src/proxy/mod.rs\<close>): registration and removal of proxies of all types.
  \<^item> \<open>Metrics\<close> (\<^verbatim>\<open>arp-server/src/metrics.rs\<close>, \<^verbatim>\<open>audit.rs\<close>): counters and audit events.
  \<^item> \<open>Sessions\<close>, \<open>Control\<close> (\<^verbatim>\<open>arp-server/src/control\<close>): sessions of clients, their queue of work connections, the
    handlers of their messages and the loop of the session's task.
  \<^item> \<open>NatHole\<close> (\<^verbatim>\<open>arp-server/src/nathole.rs\<close>): rendezvous of peers for direct connections.
  \<^item> \<open>Service\<close> (\<^verbatim>\<open>arp-server/src/service.rs\<close>): logins, work connections and visitors, and the server as a whole as
    a step relation.
  \<^item> \<open>ProxyTypes\<close>: the proxy object behind every entry of the server's table.
  \<^item> \<open>Listeners\<close> (\<^verbatim>\<open>service.rs\<close>): the listeners of the control port for every transport, the handshakes of a connection,
    certificates and the shutdown of the server.
  \<^item> \<open>PublicListeners\<close> (\<^verbatim>\<open>proxy/vhost.rs\<close>, \<^verbatim>\<open>proxy/tcp.rs\<close>): the listeners of virtual hosts and of groups.
  \<^item> \<open>Web\<close>, \<open>WebRoutes\<close> (\<^verbatim>\<open>arp-server/src/web\<close>): the handlers of the server's dashboard, its router and the stream of audit
    events.
  \<^item> \<open>LocalProxies\<close> (\<^verbatim>\<open>arp-client/src/proxy\<close>): the client's proxies and their health checks.
  \<^item> \<open>ClientConn\<close>, \<open>ClientControl\<close> (\<^verbatim>\<open>arp-client/src/control\<close>): how the server is dialled, login, work connections and
    visitors; the loop of the client's session, its commands, heartbeat and reloading.
  \<^item> \<open>BasicAuth\<close>, \<open>ClientService\<close> (\<^verbatim>\<open>arp-client/src/service.rs\<close>, \<^verbatim>\<open>admin\<close>, \<^verbatim>\<open>cli\<close>): reconnecting, the admin interface of
    the client with its credentials, and the commands that use it.
  \<^item> \<open>Streams\<close> (\<^verbatim>\<open>arp-common/src/transport\<close>): byte streams, what happens to bytes read ahead when a message
    transport is turned into a stream, QUIC and WebSocket streams, the throttle.
  \<^item> \<open>ConfigFiles\<close>, \<open>LogFiles\<close>, \<open>Programs\<close> (\<^verbatim>\<open>config\<close>, \<^verbatim>\<open>logging.rs\<close>, both \<^verbatim>\<open>main.rs\<close>): the keys and defaults of the
    configuration files, where the log goes and which files are deleted, the start and end of both programs.
  \<^item> \<open>EndToEnd\<close>: client and server together.

  \<^bold>\<open>Correspondence.\<close> A struct is a record, an enum a datatype, a method a function on the record of its
  object that returns the changed record. Functions that can fail return \<open>error + 'a\<close>. Hash maps are
  partial maps; where the code walks one, the order is an argument, and a theorem holds for every order
  that lists the keys. Channels and connections are numbers; what is sent on them is part of the result.
  The clock, random numbers, and the outcome of every system call are arguments. The server's tasks
  interleave at their messages: \<open>Service.server_step\<close> has one rule per handler.

  \<^bold>\<open>What is shown.\<close> Framing: whatever is encoded is decoded, in any segmentation. Authentication: which logins
  and registrations are accepted, exactly. Resources: ports, group members, routes and visitor entries in
  use are those of the registered proxies, no more and no less, in every reachable state; a session that
  ends leaves nothing behind. Authorisation: every registered proxy was allowed by the rules of the token its
  session logged in with. Work connections: requests are served in order. Tunnels: streams that share a
  connection do not mix. The client: every request that waits is answered once, the heartbeat, reloading and
  reconnecting do exactly what they should. Both sides together: a login the client builds is accepted by a server
  with the same token, both ends of a tunnel choose the same mode, both sides put the same layers on a connection
  if their transports agree; a request the client drops starves the proxy it is for. Streams: the ends of a tunnel
  get every byte, however it is cut. Operation: files load as they are written, the smallest ones suffice to start,
  the dashboard changes nothing but by a shutdown. Some theorems show where the program falls short, among them a
  virtual-host listener that stays down and the first bytes of a visitor that are lost.
  Interfaces are locales (\<open>frame_protocol\<close>, \<open>authenticator\<close>, \<open>port_allocator\<close>, \<open>route_table\<close>, \<open>async_read\<close>), each
  interpreted on the definitions of the program.

  \<^bold>\<open>Bounds and fuel.\<close> Loops are structural recursions on what arrives, or have a termination proof. The one fuel is
  the number of rounds of \<open>Frames.read_loop\<close>; one round per byte and one more always reach the end. The loop of the
  throttle may not end and is a partial function, shown to return for every positive rate below \<open>2 ^ 32\<close>. Machine
  integers keep their width; counters and identifiers wrap as in the code.

  \<^bold>\<open>Assumptions\<close> are named: \<open>sha_ok\<close>, \<open>aead_ok\<close> and \<open>gzip_ok\<close> (length of a digest; opening inverts sealing; unpacking inverts packing), the agreement of the
  JSON printer with its parser. No assumption is made on the strength of the cryptography.

  \<^bold>\<open>Not modelled.\<close> What third-party crates do inside: sockets, the TLS, WebSocket, KCP and QUIC protocols, the HTTP
  servers (axum), the text of TOML and JSON documents, the command line parser (clap), the output of the log
  (tracing), the cryptographic primitives. Their results are arguments, and every result, also each failure, is a
  branch of the model. Time passes only where the code reads the clock or waits for a deadline; the scheduling of tasks
  is an order of steps. Memory limits and the bounded capacity of the operating system's buffers are left out.
\<close>

end
